(* ===== verification/Prelude.thy ===== *)
theory Prelude
  imports Main "HOL-Library.Word" "HOL-Library.Multiset"
begin

text \<open>
  Shared ground of the development: the result type of a Go call (a value, an error or a run-time
  panic), the state-passing style in which every stateful operation of the repository is written,
  Go's fixed-width integer conversions and truncating division, and the generic lemmas that the
  component theories use.

  A stateful operation is a function from the state to a result and the state it leaves behind. The
  state is returned with errors and panics too, because Go keeps every assignment made before an
  early return.
\<close>

named_theorems go_defs \<open>definitions of the sequencing operations\<close>
named_theorems go_inv \<open>inversion of a successful or failed sequence\<close>
named_theorems keeps_intros \<open>rules that an operation keeps an assertion on the state\<close>

section \<open>Types\<close>

type_synonym u64 = "64 word"
type_synonym u32 = "32 word"
type_synonym byte = "8 word"
type_synonym bytes = "byte list"

datatype go_error =
    Errorf string
  | ExtError string
  | Wrapped string go_error
  | ContextCanceled
  | DeadlineExceeded

datatype 'a res = Ok 'a | Err go_error | Panic

type_synonym ('s, 'a) go = "'s \<Rightarrow> 'a res \<times> 's"

section \<open>Sequencing\<close>

definition gret :: "'a \<Rightarrow> ('s, 'a) go" where
  "gret x = (\<lambda>s. (Ok x, s))"

definition gbind :: "('s, 'a) go \<Rightarrow> ('a \<Rightarrow> ('s, 'b) go) \<Rightarrow> ('s, 'b) go" where
  "gbind m f = (\<lambda>s. case m s of
      (Ok x, s') \<Rightarrow> f x s'
    | (Err e, s') \<Rightarrow> (Err e, s')
    | (Panic, s') \<Rightarrow> (Panic, s'))"

definition gres :: "'a res \<Rightarrow> ('s, 'a) go" where
  "gres r = (\<lambda>s. (r, s))"

definition gfail :: "go_error \<Rightarrow> ('s, 'a) go" where
  "gfail e = gres (Err e)"

definition gasks :: "('s \<Rightarrow> 'a) \<Rightarrow> ('s, 'a) go" where
  "gasks f = (\<lambda>s. (Ok (f s), s))"

definition gmodify :: "('s \<Rightarrow> 's) \<Rightarrow> ('s, unit) go" where
  "gmodify f = (\<lambda>s. (Ok (), f s))"

text \<open>\<open>gtry m\<close> is a call whose error the caller inspects instead of returning it.\<close>

definition gtry :: "('s, 'a) go \<Rightarrow> ('s, go_error + 'a) go" where
  "gtry m = (\<lambda>s. case m s of
      (Ok x, s') \<Rightarrow> (Ok (Inr x), s')
    | (Err e, s') \<Rightarrow> (Ok (Inl e), s')
    | (Panic, s') \<Rightarrow> (Panic, s'))"

definition res_of :: "go_error + 'a \<Rightarrow> 'a res" where
  "res_of r = (case r of Inl e \<Rightarrow> Err e | Inr x \<Rightarrow> Ok x)"

definition rbind :: "'a res \<Rightarrow> ('a \<Rightarrow> 'b res) \<Rightarrow> 'b res" where
  "rbind r f = (case r of Ok x \<Rightarrow> f x | Err e \<Rightarrow> Err e | Panic \<Rightarrow> Panic)"

lemmas [go_defs] = gret_def gbind_def gres_def gfail_def gasks_def gmodify_def gtry_def

lemma gret_apply [simp]: "gret x s = (Ok x, s)"
  by (simp add: gret_def)

lemma gres_apply [simp]: "gres r s = (r, s)"
  by (simp add: gres_def)

lemma gfail_apply [simp]: "gfail e s = (Err e, s)"
  by (simp add: gfail_def)

lemma gasks_apply [simp]: "gasks f s = (Ok (f s), s)"
  by (simp add: gasks_def)

lemma gmodify_apply [simp]: "gmodify f s = (Ok (), f s)"
  by (simp add: gmodify_def)

lemma res_of_simps [simp]:
  "res_of (Inl e) = Err e"
  "res_of (Inr x) = Ok x"
  by (simp_all add: res_of_def)

lemma res_of_eq_iff [simp]:
  "res_of r = Ok x \<longleftrightarrow> r = Inr x"
  "res_of r = Err e \<longleftrightarrow> r = Inl e"
  "res_of r \<noteq> Panic"
  by (auto simp: res_of_def split: sum.splits)

lemma rbind_simps [simp]:
  "rbind (Ok x) f = f x"
  "rbind (Err e) f = Err e"
  "rbind Panic f = Panic"
  by (simp_all add: rbind_def)

lemma gbind_simps [simp]:
  "m s = (Ok x, s') \<Longrightarrow> gbind m f s = f x s'"
  "m s = (Err e, s') \<Longrightarrow> gbind m f s = (Err e, s')"
  "m s = (Panic, s') \<Longrightarrow> gbind m f s = (Panic, s')"
  by (simp_all add: gbind_def)

lemma gtry_simps [simp]:
  "m s = (Ok x, s') \<Longrightarrow> gtry m s = (Ok (Inr x), s')"
  "m s = (Err e, s') \<Longrightarrow> gtry m s = (Ok (Inl e), s')"
  "m s = (Panic, s') \<Longrightarrow> gtry m s = (Panic, s')"
  by (simp_all add: gtry_def)

lemma gbind_assoc: "gbind (gbind m f) g = gbind m (\<lambda>x. gbind (f x) g)"
  by (simp add: fun_eq_iff gbind_def split: prod.split res.split)

lemma gbind_if: "gbind (if b then m else n) f = (if b then gbind m f else gbind n f)"
  by simp

lemma gbind_gfail: "gbind (gfail e) f = gfail e"
  by (simp add: fun_eq_iff gbind_def)

lemma gbind_Ok_iff [go_inv]:
  "gbind m f s = (Ok y, t) \<longleftrightarrow> (\<exists>x s'. m s = (Ok x, s') \<and> f x s' = (Ok y, t))"
  by (auto simp: gbind_def split: prod.splits res.splits)

lemma gbind_Err_iff [go_inv]:
  "gbind m f s = (Err e, t) \<longleftrightarrow>
     m s = (Err e, t) \<or> (\<exists>x s'. m s = (Ok x, s') \<and> f x s' = (Err e, t))"
  by (auto simp: gbind_def split: prod.splits res.splits)

lemma gbind_Panic_iff [go_inv]:
  "gbind m f s = (Panic, t) \<longleftrightarrow>
     m s = (Panic, t) \<or> (\<exists>x s'. m s = (Ok x, s') \<and> f x s' = (Panic, t))"
  by (auto simp: gbind_def split: prod.splits res.splits)

lemma gtry_Ok_iff [go_inv]:
  "gtry m s = (Ok r, t) \<longleftrightarrow>
     (\<exists>x. r = Inr x \<and> m s = (Ok x, t)) \<or> (\<exists>e. r = Inl e \<and> m s = (Err e, t))"
  by (auto simp: gtry_def split: prod.splits res.splits)

lemma gtry_not_Err [go_inv]: "gtry m s \<noteq> (Err e, t)"
  by (auto simp: gtry_def split: prod.splits res.splits)

lemma gtry_Panic_iff [go_inv]: "gtry m s = (Panic, t) \<longleftrightarrow> m s = (Panic, t)"
  by (auto simp: gtry_def split: prod.splits res.splits)

lemma case_fail_Ok_iff [go_inv]:
  "(case r of Inl e \<Rightarrow> gfail (f e) | Inr x \<Rightarrow> g x) s = (Ok y, t) \<longleftrightarrow>
     (\<exists>x. r = Inr x \<and> g x s = (Ok y, t))"
  by (cases r) auto

section \<open>Assertions kept by an operation\<close>

text \<open>
  \<open>keeps P m\<close> says that \<open>m\<close> never breaks \<open>P\<close>, whether it returns a value, returns an error or
  panics. The rules below take an operation apart along its control flow.
\<close>

definition keeps :: "('s \<Rightarrow> bool) \<Rightarrow> ('s, 'a) go \<Rightarrow> bool" where
  "keeps P m \<longleftrightarrow> (\<forall>s. P s \<longrightarrow> P (snd (m s)))"

lemma keepsI: "(\<And>s. P s \<Longrightarrow> P (snd (m s))) \<Longrightarrow> keeps P m"
  by (simp add: keeps_def)

lemma keepsD: "keeps P m \<Longrightarrow> m s = (r, t) \<Longrightarrow> P s \<Longrightarrow> P t"
  by (auto simp: keeps_def dest: spec [of _ s])

lemma keeps_gret [keeps_intros]: "keeps P (gret x)"
  by (simp add: keeps_def)

lemma keeps_gres [keeps_intros]: "keeps P (gres r)"
  by (simp add: keeps_def)

lemma keeps_gfail [keeps_intros]: "keeps P (gfail e)"
  by (simp add: keeps_def)

lemma keeps_gasks [keeps_intros]: "keeps P (gasks f)"
  by (simp add: keeps_def)

lemma keeps_gmodify [keeps_intros]: "(\<And>s. P s \<Longrightarrow> P (f s)) \<Longrightarrow> keeps P (gmodify f)"
  by (simp add: keeps_def)

lemma keeps_gbind [keeps_intros]:
  assumes "keeps P m" and "\<And>x. keeps P (f x)"
  shows "keeps P (gbind m f)"
proof (rule keepsI)
  fix s assume "P s"
  then show "P (snd (gbind m f s))"
    using assms by (auto simp: keeps_def gbind_def split: prod.splits res.splits)
qed

lemma keeps_gbind_with:
  assumes "keeps P m" and "\<And>x s t. P s \<Longrightarrow> m s = (Ok x, t) \<Longrightarrow> Q x t"
    and "\<And>x. keeps (\<lambda>t. P t \<and> Q x t) (f x)"
  shows "keeps P (gbind m f)"
proof (rule keepsI)
  fix s assume P: "P s"
  obtain r t where m: "m s = (r, t)" by force
  with P assms(1) have t: "P t" by (metis keepsD)
  show "P (snd (gbind m f s))"
  proof (cases r)
    case (Ok x)
    with m P t assms(2) have "P t \<and> Q x t" by simp
    with assms(3) [of x] have "P (snd (f x t))" by (simp add: keeps_def)
    with m Ok show ?thesis by (simp add: gbind_def)
  qed (use m t in \<open>simp_all add: gbind_def\<close>)
qed

lemma keeps_conj: "keeps P m \<Longrightarrow> keeps Q m \<Longrightarrow> keeps (\<lambda>s. P s \<and> Q s) m"
  by (simp add: keeps_def)

lemma keeps_weaken: "keeps Q m \<Longrightarrow> (\<And>s. P s \<Longrightarrow> Q s) \<Longrightarrow> (\<And>s. Q s \<Longrightarrow> P s) \<Longrightarrow> keeps P m"
  by (simp add: keeps_def)

lemma keeps_gtry [keeps_intros]: "keeps P m \<Longrightarrow> keeps P (gtry m)"
  by (auto simp: keeps_def gtry_def split: prod.splits res.splits)

lemma keeps_if [keeps_intros]: "(c \<Longrightarrow> keeps P a) \<Longrightarrow> (\<not> c \<Longrightarrow> keeps P b) \<Longrightarrow> keeps P (if c then a else b)"
  by simp

lemma keeps_case_option [keeps_intros]:
  "(v = None \<Longrightarrow> keeps P a) \<Longrightarrow> (\<And>x. v = Some x \<Longrightarrow> keeps P (b x)) \<Longrightarrow> keeps P (case v of None \<Rightarrow> a | Some x \<Rightarrow> b x)"
  by (simp split: option.split)

lemma keeps_case_sum [keeps_intros]:
  "(\<And>x. keeps P (a x)) \<Longrightarrow> (\<And>x. keeps P (b x)) \<Longrightarrow> keeps P (case v of Inl x \<Rightarrow> a x | Inr x \<Rightarrow> b x)"
  by (simp split: sum.split)

lemma keeps_case_prod [keeps_intros]:
  "(\<And>x y. keeps P (a x y)) \<Longrightarrow> keeps P (case v of (x, y) \<Rightarrow> a x y)"
  by (simp split: prod.split)

lemma keeps_let [keeps_intros]: "(\<And>x. keeps P (f x)) \<Longrightarrow> keeps P (let x = v in f x)"
  by simp

text \<open>An operation that keeps every assertion leaves the state as it was.\<close>

lemma keeps_all_snd:
  assumes "\<And>P. keeps P m"
  shows "snd (m w) = w"
  using assms [of "\<lambda>t. t = w"] by (simp add: keeps_def)

lemma keeps_all_state: "(\<And>P. keeps P m) \<Longrightarrow> m w = (r, w') \<Longrightarrow> w' = w"
  using keeps_all_snd [of m w] by simp

lemma keeps_all_eq: "(\<And>P. keeps P m) \<Longrightarrow> m w = (r, w') \<longleftrightarrow> w' = w \<and> fst (m w) = r"
  using keeps_all_snd [of m w] by (cases "m w") auto

section \<open>Go integers\<close>

text \<open>
  A conversion \<open>int64(x)\<close> or \<open>int32(x)\<close> keeps the low bits in two's complement. A
  \<open>time.Duration\<close> is an \<open>int64\<close> count of nanoseconds, so its arithmetic is wrapped with \<open>i64\<close>.
\<close>

definition i64 :: "int \<Rightarrow> int" where
  "i64 x = signed_take_bit 63 x"

definition i32 :: "int \<Rightarrow> int" where
  "i32 x = signed_take_bit 31 x"

definition go_div :: "int \<Rightarrow> int \<Rightarrow> int" where
  "go_div a b = sgn a * sgn b * (\<bar>a\<bar> div \<bar>b\<bar>)"

lemma i64_id [simp]: "- (2 ^ 63) \<le> x \<Longrightarrow> x < 2 ^ 63 \<Longrightarrow> i64 x = x"
  unfolding i64_def by (rule signed_take_bit_int_eq_self) auto

lemma i64_range: "- (2 ^ 63) \<le> i64 x" "i64 x < 2 ^ 63"
  unfolding i64_def
  by (rule signed_take_bit_int_greater_eq_minus_exp, rule signed_take_bit_int_less_exp)

lemma i32_id [simp]: "- (2 ^ 31) \<le> x \<Longrightarrow> x < 2 ^ 31 \<Longrightarrow> i32 x = x"
  unfolding i32_def by (rule signed_take_bit_int_eq_self) auto

lemma i32_range: "- (2 ^ 31) \<le> i32 x" "i32 x < 2 ^ 31"
  unfolding i32_def
  by (rule signed_take_bit_int_greater_eq_minus_exp, rule signed_take_bit_int_less_exp)

lemma go_div_nonneg [simp]: "0 \<le> a \<Longrightarrow> 0 < b \<Longrightarrow> go_div a b = a div b"
  by (cases "a = 0") (simp_all add: go_div_def)

end
