(* ===== verification/GoLib.thy ===== *)
theory GoLib
  imports Prelude
begin

text \<open>
  The parts of Go's standard library that the repository's logic rests on: the binary heap of
  \<^verbatim>\<open>container/heap\<close> over a slice, the standard base64 and hexadecimal encodings, timers and buffered
  channels used without blocking. Each is written the way the library's source runs, so that the
  component theories can call it where the Go code calls it.
\<close>

section \<open>The binary heap of container/heap\<close>

text \<open>
  The heap reads the slice only through the \<open>Less\<close> method of its owner, given here as \<open>lss\<close>, and
  reorders it only through a swap of two slots.
\<close>

definition slice_swap :: "nat \<Rightarrow> nat \<Rightarrow> 'a list \<Rightarrow> 'a list" where
  "slice_swap i j xs = xs[i := xs ! j, j := xs ! i]"

function heap_up :: "('a list \<Rightarrow> nat \<Rightarrow> nat \<Rightarrow> bool) \<Rightarrow> nat \<Rightarrow> 'a list \<Rightarrow> 'a list" where
  "heap_up lss j xs =
     (let i = (j - 1) div 2 in
      if i = j \<or> \<not> lss xs j i then xs else heap_up lss i (slice_swap i j xs))"
  by pat_completeness auto
termination
  by (relation "measure (\<lambda>(lss, j, xs). j)") auto

function heap_down ::
  "('a list \<Rightarrow> nat \<Rightarrow> nat \<Rightarrow> bool) \<Rightarrow> nat \<Rightarrow> nat \<Rightarrow> 'a list \<Rightarrow> nat \<times> 'a list" where
  "heap_down lss i n xs =
     (let j1 = 2 * i + 1; j2 = j1 + 1 in
      if n \<le> j1 then (i, xs)
      else let j = (if j2 < n \<and> lss xs j2 j1 then j2 else j1) in
           if \<not> lss xs j i then (i, xs) else heap_down lss j n (slice_swap i j xs))"
  by pat_completeness auto
termination
  by (relation "measure (\<lambda>(lss, i, n, xs). n - i)") (auto simp: Let_def split: if_splits)

declare heap_up.simps [simp del] heap_down.simps [simp del]

definition heap_Push :: "('a list \<Rightarrow> nat \<Rightarrow> nat \<Rightarrow> bool) \<Rightarrow> 'a \<Rightarrow> 'a list \<Rightarrow> 'a list" where
  "heap_Push lss x xs = (let ys = xs @ [x] in heap_up lss (length ys - 1) ys)"

definition heap_Pop :: "('a list \<Rightarrow> nat \<Rightarrow> nat \<Rightarrow> bool) \<Rightarrow> 'a list \<Rightarrow> 'a \<times> 'a list" where
  "heap_Pop lss xs =
     (let n = length xs - 1; ys = snd (heap_down lss 0 n (slice_swap 0 n xs))
      in (last ys, butlast ys))"

definition heap_Remove ::
  "('a list \<Rightarrow> nat \<Rightarrow> nat \<Rightarrow> bool) \<Rightarrow> nat \<Rightarrow> 'a list \<Rightarrow> 'a \<times> 'a list" where
  "heap_Remove lss i xs =
     (let n = length xs - 1;
          ys = (if n \<noteq> i
                then let (k, zs) = heap_down lss i n (slice_swap i n xs)
                     in if \<not> i < k then heap_up lss i zs else zs
                else xs)
      in (last ys, butlast ys))"

fun heap_Init_from :: "('a list \<Rightarrow> nat \<Rightarrow> nat \<Rightarrow> bool) \<Rightarrow> nat \<Rightarrow> 'a list \<Rightarrow> 'a list" where
  "heap_Init_from lss 0 xs = xs"
| "heap_Init_from lss (Suc i) xs =
     heap_Init_from lss i (snd (heap_down lss i (length xs) xs))"

definition heap_Init :: "('a list \<Rightarrow> nat \<Rightarrow> nat \<Rightarrow> bool) \<Rightarrow> 'a list \<Rightarrow> 'a list" where
  "heap_Init lss xs = heap_Init_from lss (length xs div 2) xs"

subsection \<open>Whatever the comparison, the heap only permutes the slice\<close>

lemma length_slice_swap [simp]: "length (slice_swap i j xs) = length xs"
  by (simp add: slice_swap_def)

lemma mset_slice_swap [simp]:
  "i < length xs \<Longrightarrow> j < length xs \<Longrightarrow> mset (slice_swap i j xs) = mset xs"
  by (simp add: slice_swap_def mset_swap)

lemma nth_slice_swap_other [simp]:
  "k \<noteq> i \<Longrightarrow> k \<noteq> j \<Longrightarrow> slice_swap i j xs ! k = xs ! k"
  by (simp add: slice_swap_def)

lemma length_heap_up [simp]: "length (heap_up lss j xs) = length xs"
  by (induction lss j xs rule: heap_up.induct) (subst heap_up.simps, simp add: Let_def)

lemma mset_heap_up [simp]: "j < length xs \<Longrightarrow> mset (heap_up lss j xs) = mset xs"
proof (induction lss j xs rule: heap_up.induct)
  case (1 lss j xs)
  have "(j - 1) div 2 < length xs" using "1.prems" by linarith
  then show ?case using "1" by (subst heap_up.simps) (simp add: Let_def)
qed

lemma nth_heap_up_above: "j < k \<Longrightarrow> heap_up lss j xs ! k = xs ! k"
proof (induction lss j xs rule: heap_up.induct)
  case (1 lss j xs)
  have "(j - 1) div 2 < k" using "1.prems" by linarith
  then show ?case using "1" by (subst heap_up.simps) (simp add: Let_def)
qed

lemma length_heap_down [simp]: "length (snd (heap_down lss i n xs)) = length xs"
proof (induction lss i n xs rule: heap_down.induct)
  case (1 lss i n xs)
  then show ?case by (subst heap_down.simps) (simp add: Let_def)
qed

lemma mset_heap_down [simp]:
  "n \<le> length xs \<Longrightarrow> mset (snd (heap_down lss i n xs)) = mset xs"
proof (induction lss i n xs rule: heap_down.induct)
  case (1 lss i n xs)
  then show ?case by (subst heap_down.simps) (simp add: Let_def)
qed

lemma nth_heap_down_above: "n \<le> k \<Longrightarrow> snd (heap_down lss i n xs) ! k = xs ! k"
proof (induction lss i n xs rule: heap_down.induct)
  case (1 lss i n xs)
  then show ?case by (subst heap_down.simps) (simp add: Let_def)
qed

lemma mset_heap_Push: "mset (heap_Push lss x xs) = add_mset x (mset xs)"
  by (simp add: heap_Push_def Let_def)

lemma mset_butlast_last: "ys \<noteq> [] \<Longrightarrow> add_mset (last ys) (mset (butlast ys)) = mset ys"
  by (metis append_butlast_last_id mset_append mset_single_iff_right add_mset_add_single mset.simps)

lemma heap_Pop_root: "xs \<noteq> [] \<Longrightarrow> fst (heap_Pop lss xs) = xs ! 0"
proof -
  assume ne: "xs \<noteq> []"
  let ?n = "length xs - 1"
  let ?ys = "snd (heap_down lss 0 ?n (slice_swap 0 ?n xs))"
  have "?ys \<noteq> []" using ne by (metis length_0_conv length_heap_down length_slice_swap)
  then have "last ?ys = ?ys ! ?n" by (simp add: last_conv_nth)
  also have "\<dots> = slice_swap 0 ?n xs ! ?n" by (rule nth_heap_down_above) simp
  also have "\<dots> = xs ! 0" using ne by (cases "?n = 0") (auto simp: slice_swap_def)
  finally show ?thesis by (simp add: heap_Pop_def Let_def)
qed

lemma mset_heap_Pop:
  assumes "xs \<noteq> []"
  shows "add_mset (fst (heap_Pop lss xs)) (mset (snd (heap_Pop lss xs))) = mset xs"
proof -
  let ?n = "length xs - 1"
  let ?ys = "snd (heap_down lss 0 ?n (slice_swap 0 ?n xs))"
  have "?ys \<noteq> []" using assms by (metis length_0_conv length_heap_down length_slice_swap)
  then have "add_mset (last ?ys) (mset (butlast ?ys)) = mset ?ys" by (rule mset_butlast_last)
  also have "\<dots> = mset xs" using assms by simp
  finally show ?thesis by (simp add: heap_Pop_def Let_def)
qed

lemma heap_Remove_shape:
  assumes "i < length xs"
  obtains ys where "heap_Remove lss i xs = (last ys, butlast ys)"
    and "mset ys = mset xs" and "ys \<noteq> []" and "last ys = xs ! i"
proof (cases "length xs - 1 = i")
  case True
  have "xs \<noteq> []" using assms by auto
  with True show ?thesis
    by (intro that [of xs]) (auto simp: heap_Remove_def last_conv_nth)
next
  case False
  let ?n = "length xs - 1"
  obtain k zs where d: "heap_down lss i ?n (slice_swap i ?n xs) = (k, zs)" by force
  let ?ys = "if \<not> i < k then heap_up lss i zs else zs"
  have zs: "zs = snd (heap_down lss i ?n (slice_swap i ?n xs))" using d by simp
  have len: "length zs = length xs" by (simp add: zs)
  have lt: "i < ?n" using assms False by linarith
  have ys_last: "?ys ! ?n = xs ! i"
  proof -
    have "?ys ! ?n = zs ! ?n" using lt by (simp add: nth_heap_up_above)
    also have "\<dots> = slice_swap i ?n xs ! ?n" unfolding zs by (rule nth_heap_down_above) simp
    also have "\<dots> = xs ! i" using lt by (auto simp: slice_swap_def)
    finally show ?thesis .
  qed
  have len_ys: "length ?ys = length xs" using len by simp
  then have ne: "?ys \<noteq> []" using assms by (metis list.size(3) not_less_zero)
  have "mset zs = mset xs" using assms lt by (simp add: zs)
  then have ms: "mset ?ys = mset xs" using len assms by simp
  have "last ?ys = xs ! i" using last_conv_nth [OF ne] ys_last len_ys by argo
  then show ?thesis using d False ne ms
    by (intro that [of ?ys]) (simp_all add: heap_Remove_def Let_def)
qed

lemma heap_Remove_value: "i < length xs \<Longrightarrow> fst (heap_Remove lss i xs) = xs ! i"
  by (erule heap_Remove_shape [where lss = lss]) simp

lemma mset_heap_Remove:
  "i < length xs \<Longrightarrow>
     add_mset (xs ! i) (mset (snd (heap_Remove lss i xs))) = mset xs"
  by (erule heap_Remove_shape [where lss = lss]) (metis mset_butlast_last snd_conv)

lemma heap_Init_from_mset: "mset (heap_Init_from lss i xs) = mset xs"
  by (induction i arbitrary: xs) simp_all

subsection \<open>A comparison that never holds\<close>

text \<open>With a \<open>Less\<close> that is always false no slot ever moves up or down.\<close>

lemma heap_up_never [simp]: "heap_up (\<lambda>_ _ _. False) j xs = xs"
  by (subst heap_up.simps) simp

lemma heap_down_never [simp]: "heap_down (\<lambda>_ _ _. False) i n xs = (i, xs)"
  by (subst heap_down.simps) (simp add: Let_def)

lemma heap_Push_never: "heap_Push (\<lambda>_ _ _. False) x xs = xs @ [x]"
  by (simp add: heap_Push_def)

lemma heap_Pop_never:
  "heap_Pop (\<lambda>_ _ _. False) (x # xs) = (x, if xs = [] then [] else last xs # butlast xs)"
  by (cases xs rule: rev_cases) (auto simp: heap_Pop_def slice_swap_def butlast_append)

section \<open>Base64, the standard encoding with padding\<close>

definition b64_char :: "nat \<Rightarrow> char" where
  "b64_char n =
     (if n < 26 then char_of (n + 65)
      else if n < 52 then char_of (n + 71)
      else if n < 62 then char_of (n - 4)
      else if n = 62 then CHR ''+''
      else CHR ''/'')"

definition b64_val :: "char \<Rightarrow> nat option" where
  "b64_val c =
     (let n = of_char c :: nat in
      if 65 \<le> n \<and> n \<le> 90 then Some (n - 65)
      else if 97 \<le> n \<and> n \<le> 122 then Some (n - 71)
      else if 48 \<le> n \<and> n \<le> 57 then Some (n + 4)
      else if c = CHR ''+'' then Some 62
      else if c = CHR ''/'' then Some 63
      else None)"

fun b64_encode :: "bytes \<Rightarrow> string" where
  "b64_encode [] = []"
| "b64_encode [a] =
     [b64_char (unat a div 4), b64_char (unat a mod 4 * 16), CHR ''='', CHR ''='']"
| "b64_encode [a, b] =
     [b64_char (unat a div 4), b64_char (unat a mod 4 * 16 + unat b div 16),
      b64_char (unat b mod 16 * 4), CHR ''='']"
| "b64_encode (a # b # c # bs) =
     b64_char (unat a div 4) # b64_char (unat a mod 4 * 16 + unat b div 16) #
     b64_char (unat b mod 16 * 4 + unat c div 64) # b64_char (unat c mod 64) # b64_encode bs"

fun b64_quads :: "string \<Rightarrow> bytes option" where
  "b64_quads [] = Some []"
| "b64_quads (p # q # r # t # cs) =
     (if r = CHR ''='' \<and> t = CHR ''='' \<and> cs = [] then
        (case (b64_val p, b64_val q) of
           (Some x, Some y) \<Rightarrow> Some [word_of_nat (x * 4 + y div 16)]
         | _ \<Rightarrow> None)
      else if t = CHR ''='' \<and> cs = [] then
        (case (b64_val p, b64_val q, b64_val r) of
           (Some x, Some y, Some z) \<Rightarrow>
             Some [word_of_nat (x * 4 + y div 16), word_of_nat (y mod 16 * 16 + z div 4)]
         | _ \<Rightarrow> None)
      else
        (case (b64_val p, b64_val q, b64_val r, b64_val t, b64_quads cs) of
           (Some x, Some y, Some z, Some w, Some bs) \<Rightarrow>
             Some (word_of_nat (x * 4 + y div 16) # word_of_nat (y mod 16 * 16 + z div 4) #
                   word_of_nat (z mod 4 * 64 + w) # bs)
         | _ \<Rightarrow> None))"
| "b64_quads cs = None"

text \<open>The decoder skips carriage returns and line feeds anywhere in its input.\<close>

definition b64_decode :: "string \<Rightarrow> bytes option" where
  "b64_decode cs = b64_quads (filter (\<lambda>c. c \<noteq> CHR 13 \<and> c \<noteq> CHR 10) cs)"

lemma b64_val_char [simp]: "n < 64 \<Longrightarrow> b64_val (b64_char n) = Some n"
  by (auto simp: b64_val_def b64_char_def Let_def of_char_of)

lemma b64_val_special [simp]:
  "b64_val (CHR ''='') = None" "b64_val (CHR 13) = None" "b64_val (CHR 10) = None"
  by (simp_all add: b64_val_def)

lemma b64_char_ordinary [simp]:
  assumes "n < 64"
  shows "b64_char n \<noteq> CHR ''=''" "b64_char n \<noteq> CHR 13" "b64_char n \<noteq> CHR 10"
  using b64_val_char [OF assms] by (metis b64_val_special option.distinct(1))+

lemma unat_byte_bound: "unat (a :: byte) < 256"
  using unsigned_less [of a] by simp

lemma nat_sextet_bounds:
  fixes m n k :: nat
  assumes "m < 256" "n < 256" "k < 256"
  shows "m div 4 < 64" "m mod 4 * 16 < 64" "m mod 4 * 16 + n div 16 < 64"
    "n mod 16 * 4 < 64" "n mod 16 * 4 + k div 64 < 64" "k mod 64 < 64"
proof -
  have "m mod 4 < 4" "n mod 16 < 16" "n div 16 < 16" "k div 64 < 4" using assms by auto
  then show "m mod 4 * 16 < 64" "m mod 4 * 16 + n div 16 < 64"
    "n mod 16 * 4 < 64" "n mod 16 * 4 + k div 64 < 64" by linarith+
qed (use assms in auto)

lemmas sextet_bounds [simp] =
  nat_sextet_bounds [OF unat_byte_bound unat_byte_bound unat_byte_bound]

lemma byte_high_bits [simp]:
  fixes b :: byte
  shows "unat b div 16 div 16 = 0" "unat b div 16 mod 16 = unat b div 16"
    "unat b div 64 div 4 = 0" "unat b div 64 mod 4 = unat b div 64"
  using unat_byte_bound [of b] by simp_all

lemma b64_encode_plain:
  "c \<in> set (b64_encode bs) \<Longrightarrow> c \<noteq> CHR 13 \<and> c \<noteq> CHR 10"
  by (induction bs rule: b64_encode.induct) auto

lemma b64_quads_encode: "b64_quads (b64_encode bs) = Some bs"
proof (induction bs rule: b64_encode.induct)
  case (4 a b c bs)
  then show ?case by (simp del: of_nat_add of_nat_mult)
qed (simp_all del: of_nat_add of_nat_mult)

lemma b64_roundtrip: "b64_decode (b64_encode bs) = Some bs"
proof -
  have "filter (\<lambda>c. c \<noteq> CHR 13 \<and> c \<noteq> CHR 10) (b64_encode bs) = b64_encode bs"
    using b64_encode_plain by (simp add: filter_id_conv)
  then show ?thesis by (simp add: b64_decode_def b64_quads_encode)
qed

lemma b64_encode_inject [simp]: "b64_encode xs = b64_encode ys \<longleftrightarrow> xs = ys"
  by (metis b64_roundtrip option.inject)

section \<open>Hexadecimal, lower case\<close>

definition hex_digit :: "nat \<Rightarrow> char" where
  "hex_digit n = (if n < 10 then char_of (n + 48) else char_of (n + 87))"

fun hex_encode :: "bytes \<Rightarrow> string" where
  "hex_encode [] = []"
| "hex_encode (b # bs) = hex_digit (unat b div 16) # hex_digit (unat b mod 16) # hex_encode bs"

lemma of_char_hex_digit: "n < 16 \<Longrightarrow> of_char (hex_digit n) = (if n < 10 then n + 48 else n + 87 :: nat)"
  by (auto simp: hex_digit_def)

lemma hex_digit_inject:
  assumes "m < 16" "n < 16"
  shows "hex_digit m = hex_digit n \<longleftrightarrow> m = n"
proof
  assume "hex_digit m = hex_digit n"
  then have "(if m < 10 then m + 48 else m + 87) = (if n < 10 then n + 48 else n + 87)"
    using assms by (metis of_char_hex_digit)
  then show "m = n" by (auto split: if_splits)
qed simp

lemma hex_encode_inject [simp]: "hex_encode xs = hex_encode ys \<longleftrightarrow> xs = ys"
proof (induction xs arbitrary: ys)
  case Nil
  then show ?case by (cases ys) simp_all
next
  case (Cons x xs)
  show ?case
  proof (cases ys)
    case Nil
    then show ?thesis by simp
  next
    case (Cons y zs)
    have lt: "unat x div 16 < 16" "unat y div 16 < 16"
      using unat_byte_bound [of x] unat_byte_bound [of y] by linarith+
    have "x = y \<longleftrightarrow> unat x div 16 = unat y div 16 \<and> unat x mod 16 = unat y mod 16"
      by (metis div_mult_mod_eq word_unat_eq_iff)
    then show ?thesis using Cons Cons.IH lt by (simp add: hex_digit_inject)
  qed
qed

section \<open>Buffered channels used without blocking\<close>

text \<open>
  A buffered channel is the list of its waiting values, oldest first. \<open>try_send\<close> is a \<open>select\<close>
  with a send and a \<open>default\<close>. \<open>enqueue_loop\<close> is the loop that two components use to publish a
  value to a subscriber: send if there is room, otherwise drop the oldest waiting value and try
  again. It returns \<open>None\<close> only when it would spin for ever, on a channel with no buffer.
\<close>

definition try_send :: "nat \<Rightarrow> 'a \<Rightarrow> 'a list \<Rightarrow> 'a list" where
  "try_send cap v ch = (if length ch < cap then ch @ [v] else ch)"

fun enqueue_loop :: "nat \<Rightarrow> 'a \<Rightarrow> 'a list \<Rightarrow> 'a list option" where
  "enqueue_loop cap v [] = (if 0 < cap then Some [v] else None)"
| "enqueue_loop cap v (x # ch) =
     (if length (x # ch) < cap then Some (x # ch @ [v]) else enqueue_loop cap v ch)"

lemma enqueue_loop_eq:
  "0 < cap \<Longrightarrow> enqueue_loop cap v ch = Some (drop (Suc (length ch) - cap) ch @ [v])"
proof (induction ch)
  case Nil
  then show ?case by simp
next
  case (Cons x ch)
  show ?case
  proof (cases "length (x # ch) < cap")
    case True
    then show ?thesis by simp
  next
    case False
    then have "Suc (length (x # ch)) - cap = Suc (Suc (length ch) - cap)" by simp
    with False Cons show ?thesis by simp
  qed
qed

section \<open>Timers\<close>

text \<open>
  A timer of the package \<^verbatim>\<open>time\<close> as documented before Go 1.23: \<open>tm_armed\<close> is the time at which it fires if it is
  active, \<open>tm_C\<close> its channel, of one element. Firing sends the time without blocking; \<open>Stop\<close> reports whether the
  timer was active and leaves a tick in the channel; \<open>Reset\<close> makes it active again.
\<close>

record go_timer =
  tm_armed :: "int option"
  tm_C :: "int list"

definition NewTimer :: "int \<Rightarrow> int \<Rightarrow> go_timer" where
  "NewTimer now d = \<lparr>tm_armed = Some (now + d), tm_C = []\<rparr>"

definition timer_fire :: "int \<Rightarrow> go_timer \<Rightarrow> go_timer" where
  "timer_fire t tm = (case tm_armed tm of
       Some d \<Rightarrow> if d \<le> t then \<lparr>tm_armed = None, tm_C = try_send 1 t (tm_C tm)\<rparr> else tm
     | None \<Rightarrow> tm)"

definition timer_Stop :: "go_timer \<Rightarrow> bool \<times> go_timer" where
  "timer_Stop tm = (tm_armed tm \<noteq> None, tm\<lparr>tm_armed := None\<rparr>)"

definition timer_Reset :: "int \<Rightarrow> int \<Rightarrow> go_timer \<Rightarrow> go_timer" where
  "timer_Reset now d tm = tm\<lparr>tm_armed := Some (now + d)\<rparr>"

section \<open>Paths\<close>

definition path_Base :: "string \<Rightarrow> string" where
  "path_Base p =
     (if p = '''' then ''.''
      else let q = rev (dropWhile (\<lambda>ch. ch = CHR ''/'') (rev p));
               b = rev (takeWhile (\<lambda>ch. ch \<noteq> CHR ''/'') (rev q)) in
           if b = '''' then ''/'' else b)"

lemma path_Base_slash:
  assumes "p \<noteq> ''''" "CHR ''/'' \<notin> set p"
  shows "path_Base (CHR ''/'' # p) = p"
proof -
  have d: "dropWhile (\<lambda>ch. ch = CHR ''/'') (rev p @ [CHR ''/'']) = rev p @ [CHR ''/'']"
    using assms by (cases p rule: rev_cases) auto
  have "takeWhile (\<lambda>ch. ch \<noteq> CHR ''/'') (rev p @ [CHR ''/'']) = rev p"
    using assms by (subst takeWhile_append2) auto
  with d assms show ?thesis by (simp add: path_Base_def)
qed

end
