(* ===== verification/Messages.thy ===== *)
theory Messages
  imports GoLib
begin

text \<open>
  The protobuf messages the repository builds, stores and reads, with the fields it uses, and the
  nil-safe getters that the protobuf compiler generates. The messages of package \<^verbatim>\<open>inca\<close> and its
  sub-packages are declared outside the repository; only their fields are recorded here, never
  their behaviour. A pointer that may be nil is an \<open>option\<close>, and a getter on a nil pointer returns
  the zero value, as generated getters do. Integer fields whose declared width is not visible in the
  repository are \<open>int\<close>; the conversions the code applies to them are written out where they occur.
\<close>

section \<open>References, keys, times\<close>

record storage_ref =
  ObjectDigest :: bytes
  refLocation :: string

type_synonym sref = "storage_ref option"

definition GetObjectDigest :: "sref \<Rightarrow> bytes" where
  "GetObjectDigest r = (case r of None \<Rightarrow> [] | Some x \<Rightarrow> ObjectDigest x)"

lemma GetObjectDigest_simps [simp]:
  "GetObjectDigest None = []"
  "GetObjectDigest (Some x) = ObjectDigest x"
  by (simp_all add: GetObjectDigest_def)

text \<open>Keys and peer identifiers of libp2p are opaque.\<close>

datatype pub_key = PubKey nat
datatype priv_key = PrivKey nat
datatype peer_id = PeerID string

record timestamp =
  TimeUnixMs :: u64

text \<open>A \<open>time.Time\<close> is its count of nanoseconds; a \<open>time.Duration\<close> is an \<open>int64\<close> of them.\<close>

type_synonym time = int
type_synonym duration = int

abbreviation millisecond :: duration where "millisecond \<equiv> 1000000"
abbreviation second :: duration where "second \<equiv> 1000000000"

section \<open>Blocks, votes and the chain configuration\<close>

record round_info =
  Height :: u64
  Round :: u64

definition GetHeight :: "round_info option \<Rightarrow> u64" where
  "GetHeight r = (case r of None \<Rightarrow> 0 | Some x \<Rightarrow> Height x)"

definition GetRound :: "round_info option \<Rightarrow> u64" where
  "GetRound r = (case r of None \<Rightarrow> 0 | Some x \<Rightarrow> Round x)"

lemma GetHeight_simps [simp]: "GetHeight None = 0" "GetHeight (Some x) = Height x"
  by (simp_all add: GetHeight_def)

lemma GetRound_simps [simp]: "GetRound None = 0" "GetRound (Some x) = Round x"
  by (simp_all add: GetRound_def)

record inca_block =
  blk_BlockHeaderRef :: sref
  blk_VoteRefs :: "sref list"

record block_header =
  hdr_GenesisRef :: sref
  hdr_ChainConfigRef :: sref
  hdr_NextChainConfigRef :: sref
  hdr_LastBlockRef :: sref
  hdr_RoundInfo :: "round_info option"
  hdr_BlockTs :: "timestamp option"
  hdr_ProposerId :: string
  hdr_StateRef :: sref

record vote =
  vote_BlockHeaderRef :: sref

datatype operation_mode = OPERATING | OtherOperationMode int

record validator =
  val_PubKey :: bytes
  val_VotingPower :: int
  val_OperationMode :: operation_mode

definition GetPubKey :: "validator option \<Rightarrow> bytes" where
  "GetPubKey v = (case v of None \<Rightarrow> [] | Some x \<Rightarrow> val_PubKey x)"

record validator_set =
  Validators :: "validator list"

record timing_config =
  tc_MinProposeAfterBlock :: int
  tc_RoundLength :: int

record chain_config =
  cc_TimingConfig :: "timing_config option"
  cc_ValidatorSetRef :: sref

definition GetRoundLength :: "timing_config option \<Rightarrow> int" where
  "GetRoundLength t = (case t of None \<Rightarrow> 0 | Some x \<Rightarrow> tc_RoundLength x)"

definition GetMinProposeAfterBlock :: "timing_config option \<Rightarrow> int" where
  "GetMinProposeAfterBlock t = (case t of None \<Rightarrow> 0 | Some x \<Rightarrow> tc_MinProposeAfterBlock x)"

lemma timing_getters [simp]:
  "GetRoundLength None = 0" "GetRoundLength (Some x) = tc_RoundLength x"
  "GetMinProposeAfterBlock None = 0" "GetMinProposeAfterBlock (Some x) = tc_MinProposeAfterBlock x"
  by (simp_all add: GetRoundLength_def GetMinProposeAfterBlock_def)

datatype encryption_strategy = ConvergentImmutable | OtherStrategy int

record genesis =
  gen_ChainId :: string
  gen_Timestamp :: "timestamp option"
  gen_EncStrategy :: encryption_strategy
  gen_InitChainConfigRef :: sref

datatype node_message_type = VOTE | BLOCK_COMMIT | APP | OtherMessageType int

record node_message =
  nm_MessageType :: node_message_type
  nm_GenesisRef :: sref
  nm_InnerRef :: sref
  nm_Timestamp :: "timestamp option"
  nm_AppMessageType :: u32
  nm_PubKey :: bytes
  nm_PrevMsgRef :: sref

record chain_pubsub_message =
  pm_NodeMessageRef :: sref
  pm_PeerId :: string

section \<open>Local state messages\<close>

record block_state =
  bs_SegmentId :: string
  bs_NextBlock :: sref

datatype segment_status = DISJOINTED | VALID | INVALID

record segment_state =
  ss_Id :: string
  ss_Status :: segment_status
  ss_HeadBlock :: sref
  ss_TailBlock :: sref
  ss_TailBlockRound :: "round_info option"
  ss_SegmentPrev :: string
  ss_SegmentNext :: string

record chain_state =
  cs_StateSegment :: string
  cs_LastHeight :: u64
  cs_LastRound :: u64

record proposer_state =
  ps_LastProposal :: "round_info option"

record validator_state =
  vs_LastVote :: "round_info option"

record node_state =
  ns_LastMsgRef :: sref

record peer_state =
  LastObservedMessage :: "node_message option"

section \<open>Encryption configuration\<close>

datatype encryption_type = EncryptionType_ZERO | SECRET_BOX
datatype compression_type = CompressionType_ZERO | SNAPPY

text \<open>
  \<open>ResourceLookup\<close> is the callback that fills the key and nonce of a secret box, given the message
  to encrypt (empty when decrypting).
\<close>

record enc_conf =
  EncryptionType :: encryption_type
  ResourceLookup :: "bytes \<Rightarrow> (bytes \<times> bytes) res"
  CompressionType :: compression_type
  SignerKeys :: "priv_key list"
  VerifyKeys :: "pub_key list"

end
