(* ===== verification/Externals.thy ===== *)
theory Externals
  imports Messages
begin

text \<open>
  Code outside the repository that its components call: the key-value database (\<^verbatim>\<open>objstore/db\<close>),
  the object store behind storage references, protobuf encoding, libp2p keys, timestamps and the
  validator set's proposer selection. They are the fields of one record that every operation takes
  as its argument \<open>X\<close>; the state of the services themselves has the arbitrary type \<open>'e\<close>.

  What the repository relies on is stated as named predicates (\<open>db_ok\<close>, \<open>objects_ok\<close>,
  \<open>codec_ok\<close>), which appear as hypotheses of exactly the theorems that need them. The last section
  is the pattern all components share to persist their state (marshal, then set; get, then
  unmarshal), with its contract as the locale \<open>persisted\<close>.
\<close>

record 'a codec =
  marshal :: "'a \<Rightarrow> go_error + bytes"
  unmarshal :: "bytes \<Rightarrow> go_error + 'a"

record 'e externals =
  db_get :: "'e \<Rightarrow> string list \<Rightarrow> string \<Rightarrow> go_error + bytes option"
  db_set :: "'e \<Rightarrow> string list \<Rightarrow> string \<Rightarrow> bytes \<Rightarrow> (go_error + unit) \<times> 'e"
  pb_block_state :: "block_state codec"
  pb_segment_state :: "segment_state codec"
  pb_chain_state :: "chain_state codec"
  pb_proposer_state :: "proposer_state codec"
  pb_validator_state :: "validator_state codec"
  pb_peer_state :: "peer_state codec"
  pb_node_state :: "node_state codec"
  pb_pubsub_message :: "chain_pubsub_message codec"
  follow_block :: "'e \<Rightarrow> sref \<Rightarrow> enc_conf option \<Rightarrow> bytes \<Rightarrow> go_error + inca_block"
  follow_header :: "'e \<Rightarrow> sref \<Rightarrow> enc_conf option \<Rightarrow> bytes \<Rightarrow> go_error + block_header"
  follow_vote :: "'e \<Rightarrow> sref \<Rightarrow> enc_conf option \<Rightarrow> bytes \<Rightarrow> go_error + vote"
  follow_chain_config :: "'e \<Rightarrow> sref \<Rightarrow> enc_conf option \<Rightarrow> bytes \<Rightarrow> go_error + chain_config"
  follow_validator_set :: "'e \<Rightarrow> sref \<Rightarrow> enc_conf option \<Rightarrow> bytes \<Rightarrow> go_error + validator_set"
  follow_node_message :: "'e \<Rightarrow> sref \<Rightarrow> enc_conf option \<Rightarrow> bytes \<Rightarrow> go_error + node_message"
  follow_genesis :: "'e \<Rightarrow> sref \<Rightarrow> enc_conf option \<Rightarrow> bytes \<Rightarrow> go_error + genesis"
  store_block :: "'e \<Rightarrow> inca_block \<Rightarrow> enc_conf \<Rightarrow> (go_error + sref) \<times> 'e"
  store_header :: "'e \<Rightarrow> block_header \<Rightarrow> enc_conf \<Rightarrow> (go_error + sref) \<times> 'e"
  store_vote :: "'e \<Rightarrow> vote \<Rightarrow> enc_conf \<Rightarrow> (go_error + sref) \<times> 'e"
  store_validator_set :: "'e \<Rightarrow> validator_set \<Rightarrow> enc_conf \<Rightarrow> (go_error + sref) \<times> 'e"
  store_chain_config :: "'e \<Rightarrow> chain_config \<Rightarrow> enc_conf \<Rightarrow> (go_error + sref) \<times> 'e"
  store_genesis :: "'e \<Rightarrow> genesis \<Rightarrow> enc_conf \<Rightarrow> (go_error + sref) \<times> 'e"
  store_node_message :: "'e \<Rightarrow> node_message \<Rightarrow> enc_conf \<Rightarrow> (go_error + sref) \<times> 'e"
  store_local_segment :: "'e \<Rightarrow> segment_state \<Rightarrow> (go_error + unit) \<times> 'e"
  pubsub_publish :: "'e \<Rightarrow> string \<Rightarrow> string \<Rightarrow> (go_error + unit) \<times> 'e"
  ref_equals :: "sref \<Rightarrow> sref \<Rightarrow> bool"
  ts_to_time :: "timestamp option \<Rightarrow> time"
  ts_validate :: "timestamp option \<Rightarrow> go_error + unit"
  select_proposer :: "validator_set \<Rightarrow> bytes \<Rightarrow> u64 \<Rightarrow> u64 \<Rightarrow> validator option \<times> int"
  sort_validators :: "validator_set \<Rightarrow> validator_set"
  parse_peer_id :: "validator \<Rightarrow> go_error + peer_id \<times> pub_key"
  parse_public_key :: "validator \<Rightarrow> go_error + pub_key"
  id_from_pub :: "pub_key \<Rightarrow> peer_id \<times> go_error option"
  id_from_priv :: "priv_key \<Rightarrow> go_error + peer_id"
  id_decode :: "string \<Rightarrow> go_error + peer_id"
  pretty_id :: "peer_id \<Rightarrow> string"
  pub_bytes :: "pub_key \<Rightarrow> go_error + bytes"
  unmarshal_pub :: "bytes \<Rightarrow> go_error + pub_key"
  pub_equals :: "pub_key \<Rightarrow> pub_key \<Rightarrow> bool"
  priv_public :: "priv_key \<Rightarrow> pub_key"
  digest_data :: "bytes \<Rightarrow> go_error + bytes"
  zero_segment_status :: segment_status

text \<open>A database view is the list of prefixes it was built with by \<open>db.WithPrefix\<close>, outermost first.\<close>

type_synonym db_view = "string list"

definition WithPrefix :: "db_view \<Rightarrow> string \<Rightarrow> db_view" where
  "WithPrefix h p = h @ [p]"

text \<open>The state every operation works on starts with the state of the external services.\<close>

record 'e world =
  ext :: 'e

text \<open>A call that only reads the external services.\<close>

definition gext :: "('e \<Rightarrow> go_error + 'a) \<Rightarrow> (('e, 'z) world_scheme, 'a) go" where
  "gext f = (\<lambda>w. (res_of (f (ext w)), w))"

lemma gext_apply [simp]: "gext f w = (res_of (f (ext w)), w)"
  by (simp add: gext_def)

lemma keeps_gext [keeps_intros]: "keeps P (gext f)"
  by (simp add: keeps_def)

text \<open>A call that may change the external services.\<close>

definition gcall :: "('e \<Rightarrow> (go_error + 'a) \<times> 'e) \<Rightarrow> (('e, 'z) world_scheme, 'a) go" where
  "gcall f = (\<lambda>w. case f (ext w) of (r, e') \<Rightarrow> (res_of r, w\<lparr>ext := e'\<rparr>))"

lemma gcall_Ok: "gcall f w = (Ok x, w') \<longleftrightarrow> (\<exists>e'. f (ext w) = (Inr x, e') \<and> w' = w\<lparr>ext := e'\<rparr>)"
  by (auto simp: gcall_def split: prod.splits)

lemma keeps_gcall [keeps_intros]: "(\<And>w e. P w \<Longrightarrow> P (w\<lparr>ext := e\<rparr>)) \<Longrightarrow> keeps P (gcall f)"
  by (rule keepsI) (simp add: gcall_def split: prod.splits)

section \<open>What the repository relies on\<close>

text \<open>
  The database: after a successful \<open>Set\<close>, a \<open>Get\<close> at the same full path (the prefixes of the view
  followed by the key) returns the value, and every other path reads as before.
\<close>

definition db_ok :: "('e, 'x) externals_scheme \<Rightarrow> bool" where
  "db_ok X \<longleftrightarrow>
     (\<forall>e h k v e' h' k'. db_set X e h k v = (Inr (), e') \<longrightarrow>
        db_get X e' h' k' =
          (if concat h' @ k' = concat h @ k then Inr (Some v) else db_get X e h' k'))"

text \<open>Decoding an encoded message gives the message back.\<close>

definition codec_ok :: "'a codec \<Rightarrow> bool" where
  "codec_ok c \<longleftrightarrow> (\<forall>x bs. marshal c x = Inr bs \<longrightarrow> unmarshal c bs = Inr x)"

text \<open>Objects behind storage references do not change when the database is written.\<close>

definition objects_ok :: "('e, 'x) externals_scheme \<Rightarrow> bool" where
  "objects_ok X \<longleftrightarrow>
     (\<forall>e h k v. let e' = snd (db_set X e h k v) in
        follow_block X e' = follow_block X e \<and>
        follow_header X e' = follow_header X e \<and>
        follow_chain_config X e' = follow_chain_config X e \<and>
        follow_validator_set X e' = follow_validator_set X e)"

lemma db_okD:
  "db_ok X \<Longrightarrow> db_set X e h k v = (Inr (), e') \<Longrightarrow>
     db_get X e' h' k' =
       (if concat h' @ k' = concat h @ k then Inr (Some v) else db_get X e h' k')"
  unfolding db_ok_def by blast

lemma codec_okD: "codec_ok c \<Longrightarrow> marshal c x = Inr bs \<Longrightarrow> unmarshal c bs = Inr x"
  unfolding codec_ok_def by blast

lemma objects_okD:
  assumes "objects_ok X" and "db_set X e h k v = (r, e')"
  shows "follow_block X e' = follow_block X e" "follow_header X e' = follow_header X e"
    "follow_chain_config X e' = follow_chain_config X e"
    "follow_validator_set X e' = follow_validator_set X e"
  using assms unfolding objects_ok_def Let_def by (metis snd_conv)+

section \<open>Persisted state\<close>

definition write_slot ::
  "('e, 'x) externals_scheme \<Rightarrow> 'a codec \<Rightarrow> db_view \<Rightarrow> string \<Rightarrow> 'a \<Rightarrow> (('e, 'z) world_scheme, unit) go"
where
  "write_slot X c h k v =
     gbind (gres (res_of (marshal c v))) (\<lambda>bs w.
       case db_set X (ext w) h k bs of (r, e') \<Rightarrow> (res_of r, w\<lparr>ext := e'\<rparr>))"

definition read_slot ::
  "('e, 'x) externals_scheme \<Rightarrow> 'a codec \<Rightarrow> db_view \<Rightarrow> string \<Rightarrow> 'a \<Rightarrow> (('e, 'z) world_scheme, 'a) go"
where
  "read_slot X c h k old =
     gbind (\<lambda>w. (res_of (db_get X (ext w) h k), w)) (\<lambda>dat.
       case dat of None \<Rightarrow> gret old | Some bs \<Rightarrow> gres (res_of (unmarshal c bs)))"

lemma write_slot_Ok:
  "write_slot X c h k v w = (Ok (), w') \<longleftrightarrow>
     (\<exists>bs e'. marshal c v = Inr bs \<and> db_set X (ext w) h k bs = (Inr (), e') \<and> w' = w\<lparr>ext := e'\<rparr>)"
  by (cases "marshal c v") (auto simp: write_slot_def gbind_def split: prod.splits)

lemma write_slot_not_Panic [simp]: "write_slot X c h k v w \<noteq> (Panic, w')"
  by (auto simp: write_slot_def go_inv split: prod.splits)

lemma write_slot_frame:
  assumes "write_slot X c h k v w = (r, w')"
  obtains e' where "w' = w\<lparr>ext := e'\<rparr>"
proof (cases "marshal c v")
  case (Inl e)
  with assms have "w' = w\<lparr>ext := ext w\<rparr>" by (simp add: write_slot_def gbind_def)
  then show ?thesis by (rule that)
next
  case (Inr bs)
  with assms have "w' = w\<lparr>ext := snd (db_set X (ext w) h k bs)\<rparr>"
    by (auto simp: write_slot_def gbind_def split: prod.splits)
  then show ?thesis by (rule that)
qed

lemma keeps_write_slot [keeps_intros]:
  "(\<And>w e. P w \<Longrightarrow> P (w\<lparr>ext := e\<rparr>)) \<Longrightarrow> keeps P (write_slot X c h k v)"
  by (rule keepsI) (metis prod.collapse write_slot_frame)

lemma read_slot_pure [simp]: "snd (read_slot X c h k old w) = w"
  by (auto simp: read_slot_def gbind_def split: res.splits option.splits)

lemma keeps_read_slot [keeps_intros]: "keeps P (read_slot X c h k old)"
  by (rule keepsI) simp

lemma read_slot_state: "read_slot X c h k old w = (r, w') \<Longrightarrow> w' = w"
  by (metis read_slot_pure snd_conv)

lemma read_after_write:
  assumes "db_ok X" "codec_ok c" "write_slot X c h k v w = (Ok (), w')"
    and "concat h' @ k' = concat h @ k"
  shows "read_slot X c h' k' old w' = (Ok v, w')"
  using assms db_okD [OF assms(1)]
  by (auto simp: write_slot_Ok read_slot_def gbind_def codec_okD)

lemma read_other_after_write:
  assumes "db_ok X" "write_slot X c h k v w = (Ok (), w')" "concat h' @ k' \<noteq> concat h @ k"
  shows "fst (read_slot X c' h' k' old w') = fst (read_slot X c' h' k' old w)"
  using assms db_okD [OF assms(1)]
  by (auto simp: write_slot_Ok read_slot_def gbind_def split: res.splits option.splits)

lemma write_slot_objects:
  assumes "objects_ok X" "write_slot X c h k v w = (r, w')"
  shows "follow_block X (ext w') = follow_block X (ext w)"
    "follow_header X (ext w') = follow_header X (ext w)"
    "follow_chain_config X (ext w') = follow_chain_config X (ext w)"
    "follow_validator_set X (ext w') = follow_validator_set X (ext w)"
  using assms objects_okD [OF assms(1)]
  by (auto simp: write_slot_def gbind_def split: res.splits prod.splits)

text \<open>
  The contract of a component that persists its state: what it wrote is what it reads back, and
  reading changes nothing. \<open>ok\<close> holds the laws of the services the component writes through.
\<close>

locale persisted =
  fixes ok :: "'p \<Rightarrow> bool"
    and wr :: "'p \<Rightarrow> 'a \<Rightarrow> ('s, unit) go"
    and rd :: "'p \<Rightarrow> 'a \<Rightarrow> ('s, 'a) go"
  assumes rd_after_wr: "ok p \<Longrightarrow> wr p x s = (Ok (), s') \<Longrightarrow> rd p y s' = (Ok x, s')"
    and rd_pure: "snd (rd p y s) = s"
begin

lemma rd_stable: "rd p y s = (Ok x, s') \<Longrightarrow> rd p y s' = (Ok x, s')"
  using rd_pure by (metis snd_conv)

lemma last_wr_wins:
  assumes "ok p" "wr p x s = (Ok (), s')" "wr p x' s' = (Ok (), s'')"
  shows "rd p y s'' = (Ok x', s'')"
  using assms rd_after_wr by blast

lemma restart_resumes:
  assumes "ok p" "wr p x s = (Ok (), s')"
  shows "gbind (rd p y) (\<lambda>v. gbind (wr p v) (\<lambda>_. gret v)) s' =
    (case wr p x s' of (r, t) \<Rightarrow> (rbind r (\<lambda>_. Ok x), t))"
  using rd_after_wr [OF assms] by (auto simp: gbind_def rbind_def split: prod.splits res.splits)

end

end
