(* ===== verification/Encryption.thy ===== *)
theory Encryption
  imports Externals
begin

text \<open>
  Packages \<^verbatim>\<open>encryption\<close>, \<^verbatim>\<open>encryption/impl\<close> and \<^verbatim>\<open>encryption/convergentimmutable\<close>: the convergent
  encryption strategy, whose nonce is the tail of the digest of the object, and the registry of
  strategy constructors. The interface \<open>encryption.Strategy\<close> has one implementation in the
  repository, so an interface value is that implementation's record.
\<close>

section \<open>The convergent immutable strategy\<close>

record strategy =
  strat_Key :: bytes
  strat_PreSharedKey :: bytes

text \<open>
  The slice expression \<open>digest[len(digest)-24:]\<close> panics when the digest is shorter than 24 bytes;
  otherwise its 24 bytes fill the nonce array.
\<close>

definition nonce_of_digest :: "bytes \<Rightarrow> bytes res" where
  "nonce_of_digest digest =
     (if length digest < 24 then Panic else Ok (drop (length digest - 24) digest))"

definition NewConvergentImmutableStrategyFromConfig ::
  "('w \<Rightarrow> go_error + bytes) \<Rightarrow> 'w \<Rightarrow> strategy res" where
  "NewConvergentImmutableStrategyFromConfig decode conf =
     rbind (res_of (decode conf)) (\<lambda>psk.
       if length psk \<noteq> 32 then Err (Errorf ''pre-shared key must be 32 bytes long'')
       else Ok \<lparr>strat_Key = psk, strat_PreSharedKey = psk\<rparr>)"

definition NewConvergentImmutableStrategy :: "go_error + bytes \<Rightarrow> strategy res" where
  "NewConvergentImmutableStrategy rand =
     rbind (res_of rand) (\<lambda>key. Ok \<lparr>strat_Key = key, strat_PreSharedKey = key\<rparr>)"

definition BuildArgs :: "(bytes \<Rightarrow> go_error + 'w) \<Rightarrow> strategy \<Rightarrow> 'w res" where
  "BuildArgs wrap s = res_of (wrap (strat_PreSharedKey s))"

definition GetEncryptionStrategyType :: "strategy \<Rightarrow> encryption_strategy" where
  "GetEncryptionStrategyType s = ConvergentImmutable"

definition GetEncryptionConfig :: "('e, 'x) externals_scheme \<Rightarrow> strategy \<Rightarrow> enc_conf" where
  "GetEncryptionConfig X s =
     \<lparr>EncryptionType = SECRET_BOX,
      ResourceLookup = (\<lambda>message.
        if message = [] then Err (Errorf ''decryption not supported'')
        else rbind (res_of (digest_data X message)) (\<lambda>digest.
          rbind (nonce_of_digest digest) (\<lambda>nonce. Ok (strat_Key s, nonce)))),
      CompressionType = SNAPPY, SignerKeys = [], VerifyKeys = []\<rparr>"

definition GetEncryptionConfigWithDigest :: "strategy \<Rightarrow> bytes \<Rightarrow> enc_conf res" where
  "GetEncryptionConfigWithDigest s digest =
     rbind (nonce_of_digest digest) (\<lambda>nonce.
       Ok \<lparr>EncryptionType = SECRET_BOX,
           ResourceLookup = (\<lambda>message. Ok (strat_Key s, nonce)),
           CompressionType = SNAPPY, SignerKeys = [], VerifyKeys = []\<rparr>)"

definition GetGenesisEncryptionConfig :: "('e, 'x) externals_scheme \<Rightarrow> strategy \<Rightarrow> enc_conf" where
  "GetGenesisEncryptionConfig X s = GetEncryptionConfig X s"

definition GetGenesisEncryptionConfigWithDigest :: "strategy \<Rightarrow> bytes \<Rightarrow> enc_conf res" where
  "GetGenesisEncryptionConfigWithDigest s digest = GetEncryptionConfigWithDigest s digest"

definition GetNodeMessageEncryptionConfig ::
  "('e, 'x) externals_scheme \<Rightarrow> strategy \<Rightarrow> priv_key \<Rightarrow> enc_conf" where
  "GetNodeMessageEncryptionConfig X s nodePriv =
     (let c = GetEncryptionConfig X s in c\<lparr>SignerKeys := SignerKeys c @ [nodePriv]\<rparr>)"

definition GetNodeMessageEncryptionConfigWithDigest ::
  "strategy \<Rightarrow> pub_key \<Rightarrow> bytes \<Rightarrow> enc_conf res" where
  "GetNodeMessageEncryptionConfigWithDigest s pubKey digest =
     rbind (GetEncryptionConfigWithDigest s digest) (\<lambda>c.
       Ok (c\<lparr>VerifyKeys := VerifyKeys c @ [pubKey]\<rparr>))"

definition GetBlockEncryptionConfig :: "('e, 'x) externals_scheme \<Rightarrow> strategy \<Rightarrow> enc_conf" where
  "GetBlockEncryptionConfig X s = GetEncryptionConfig X s"

definition GetBlockEncryptionConfigWithDigest :: "strategy \<Rightarrow> bytes \<Rightarrow> enc_conf res" where
  "GetBlockEncryptionConfigWithDigest s digest = GetEncryptionConfigWithDigest s digest"

lemmas enc_config_defs =
  GetEncryptionConfig_def GetEncryptionConfigWithDigest_def
  GetGenesisEncryptionConfig_def GetGenesisEncryptionConfigWithDigest_def
  GetNodeMessageEncryptionConfig_def GetNodeMessageEncryptionConfigWithDigest_def
  GetBlockEncryptionConfig_def GetBlockEncryptionConfigWithDigest_def

lemma nonce_of_digest_length: "nonce_of_digest d = Ok n \<Longrightarrow> length n = 24"
  by (auto simp: nonce_of_digest_def split: if_splits)

lemma nonce_of_digest_cases:
  "nonce_of_digest d = Panic \<longleftrightarrow> length d < 24"
  "nonce_of_digest d \<noteq> Err e"
  by (auto simp: nonce_of_digest_def)

lemma GetBlockEncryptionConfigWithDigest_Panic:
  "GetBlockEncryptionConfigWithDigest s d = Panic \<longleftrightarrow> length d < 24"
  by (cases "length d < 24") (simp_all add: enc_config_defs nonce_of_digest_def)

lemma GetBlockEncryptionConfigWithDigest_not_Err:
  "GetBlockEncryptionConfigWithDigest s d \<noteq> Err e"
  by (simp add: enc_config_defs nonce_of_digest_def)

lemma block_config_long_digest:
  "24 \<le> length d \<Longrightarrow> \<exists>c. GetBlockEncryptionConfigWithDigest s d = Ok c"
  by (simp add: enc_config_defs nonce_of_digest_def)

section \<open>The registry of constructors\<close>

text \<open>
  A constructor may be nil, which the map then holds; \<open>known\<close> is the name table of the enumeration,
  declared outside the repository.
\<close>

type_synonym 'w strategy_ctor = "'w \<Rightarrow> strategy res"
type_synonym 'w ctor_registry = "encryption_strategy \<rightharpoonup> 'w strategy_ctor option"

definition RegisterEncryptionStrategyCtor ::
  "encryption_strategy \<Rightarrow> 'w strategy_ctor option \<Rightarrow> ('w ctor_registry, unit) go" where
  "RegisterEncryptionStrategyCtor encType ctor = (\<lambda>reg.
     if reg encType \<noteq> None then (Err (Errorf ''duplicate encryption implementation''), reg)
     else (Ok (), reg(encType \<mapsto> ctor)))"

definition MustRegisterEncryptionStrategyCtor ::
  "encryption_strategy \<Rightarrow> 'w strategy_ctor option \<Rightarrow> ('w ctor_registry, unit) go" where
  "MustRegisterEncryptionStrategyCtor encType ctor =
     gbind (gtry (RegisterEncryptionStrategyCtor encType ctor)) (\<lambda>r.
       case r of Inl e \<Rightarrow> gres Panic | Inr _ \<Rightarrow> gret ())"

definition GetEncryptionStrategyCtor ::
  "(encryption_strategy \<Rightarrow> bool) \<Rightarrow> 'w ctor_registry \<Rightarrow> encryption_strategy \<Rightarrow> 'w strategy_ctor res" where
  "GetEncryptionStrategyCtor known reg kind =
     (if \<not> known kind then Err (Errorf ''encryption strategy type unknown: %v'')
      else case reg kind of
             Some (Some ctor) \<Rightarrow> Ok ctor
           | _ \<Rightarrow> Err (Errorf ''unimplemented encryption strategy type: %v''))"

definition BuildEncryptionStrategy ::
  "(encryption_strategy \<Rightarrow> bool) \<Rightarrow> 'w ctor_registry \<Rightarrow> encryption_strategy \<Rightarrow> 'w \<Rightarrow> strategy res" where
  "BuildEncryptionStrategy known reg kind args =
     rbind (GetEncryptionStrategyCtor known reg kind) (\<lambda>ctor. ctor args)"

text \<open>The package initialiser of \<^verbatim>\<open>convergentimmutable\<close> registers its constructor.\<close>

definition init_convergentimmutable ::
  "('w \<Rightarrow> go_error + bytes) \<Rightarrow> ('w ctor_registry, unit) go" where
  "init_convergentimmutable decode =
     MustRegisterEncryptionStrategyCtor ConvergentImmutable
       (Some (NewConvergentImmutableStrategyFromConfig decode))"

lemma register_first_wins:
  "reg k \<noteq> None \<Longrightarrow> RegisterEncryptionStrategyCtor k c reg =
     (Err (Errorf ''duplicate encryption implementation''), reg)"
  by (simp add: RegisterEncryptionStrategyCtor_def)

lemma registered_ctor_stays:
  assumes "reg k = Some c" "RegisterEncryptionStrategyCtor k' c' reg = (r, reg')"
  shows "reg' k = Some c"
  using assms by (auto simp: RegisterEncryptionStrategyCtor_def split: if_splits)

lemma BuildEncryptionStrategy_registered:
  assumes "init_convergentimmutable decode Map.empty = (Ok (), reg)" "known ConvergentImmutable"
  shows "BuildEncryptionStrategy known reg ConvergentImmutable = NewConvergentImmutableStrategyFromConfig decode"
  using assms
  by (auto simp: init_convergentimmutable_def MustRegisterEncryptionStrategyCtor_def
      RegisterEncryptionStrategyCtor_def BuildEncryptionStrategy_def GetEncryptionStrategyCtor_def gbind_def gtry_def)

section \<open>Properties\<close>

text \<open>C33: what is encrypted can be decrypted with the digest alone. For every non-empty message whose
  digest has at least 24 bytes, the key and nonce the encrypting configuration picks are those of the
  configuration a reader derives from the digest, for blocks, for the genesis object and for node
  messages; the nonce has the 24 bytes the cipher wants, and both sides name the same cipher and the same
  compression. A node message is signed with the sender's key and verified with the key the reader gives.\<close>

theorem configs_agree:
  assumes "digest_data X msg = Inr d" "24 \<le> length d" "msg \<noteq> []"
  shows "\<exists>n blk nm. length n = 24 \<and>
    GetBlockEncryptionConfigWithDigest s d = Ok blk \<and> GetGenesisEncryptionConfigWithDigest s d = Ok blk \<and>
    GetNodeMessageEncryptionConfigWithDigest s pub d = Ok nm \<and>
    ResourceLookup (GetBlockEncryptionConfig X s) msg = Ok (strat_Key s, n) \<and>
    ResourceLookup (GetGenesisEncryptionConfig X s) msg = Ok (strat_Key s, n) \<and>
    ResourceLookup (GetNodeMessageEncryptionConfig X s priv) msg = Ok (strat_Key s, n) \<and>
    (\<forall>m. ResourceLookup blk m = Ok (strat_Key s, n) \<and> ResourceLookup nm m = Ok (strat_Key s, n)) \<and>
    EncryptionType blk = EncryptionType (GetBlockEncryptionConfig X s) \<and>
    CompressionType blk = CompressionType (GetBlockEncryptionConfig X s) \<and>
    SignerKeys (GetNodeMessageEncryptionConfig X s priv) = [priv] \<and> VerifyKeys nm = [pub]"
  using assms by (auto simp: enc_config_defs nonce_of_digest_def Let_def)

text \<open>C34: a strategy survives its arguments. With the constructor registered by the package initialiser, a
  strategy made from 32 random bytes or from a configuration is rebuilt, key and configuration alike, from
  the arguments it reports, provided the object wrapper decodes to what was wrapped; a configuration
  whose key has another length is refused.\<close>

theorem strategy_rebuilt_from_args:
  assumes wrapper: "\<And>k w. wrap k = Inr w \<Longrightarrow> decode w = Inr k" and known: "known ConvergentImmutable"
    and init: "init_convergentimmutable decode Map.empty = (Ok (), reg)"
    and made: "(NewConvergentImmutableStrategy (Inr key) = Ok s \<and> length key = 32) \<or>
      NewConvergentImmutableStrategyFromConfig decode conf = Ok s"
    and args: "BuildArgs wrap s = Ok w"
  shows "BuildEncryptionStrategy known reg (GetEncryptionStrategyType s) w = Ok s \<and>
    (\<forall>bad psk. decode bad = Inr psk \<longrightarrow> length psk \<noteq> 32 \<longrightarrow>
       BuildEncryptionStrategy known reg ConvergentImmutable bad = Err (Errorf ''pre-shared key must be 32 bytes long''))"
proof -
  note reg = BuildEncryptionStrategy_registered [where known = known, OF init known]
  have s: "s = \<lparr>strat_Key = strat_PreSharedKey s, strat_PreSharedKey = strat_PreSharedKey s\<rparr>" "length (strat_PreSharedKey s) = 32"
    using made
    by (auto simp: NewConvergentImmutableStrategy_def NewConvergentImmutableStrategyFromConfig_def rbind_def
        split: res.splits if_splits)
  have "decode w = Inr (strat_PreSharedKey s)"
    using args wrapper by (cases "wrap (strat_PreSharedKey s)") (auto simp: BuildArgs_def)
  then have "NewConvergentImmutableStrategyFromConfig decode w = Ok s"
    using s by (simp add: NewConvergentImmutableStrategyFromConfig_def)
  then show ?thesis by (simp add: GetEncryptionStrategyType_def reg NewConvergentImmutableStrategyFromConfig_def)
qed

end
