(* ===== verification/Blocks.thy ===== *)
theory Blocks
  imports Encryption
begin

text \<open>
  Package \<^verbatim>\<open>block\<close>: loading a block and its header through storage references, the block's local
  state in the database, and \<open>ValidateChild\<close>, the rule that decides whether one block may follow
  another. The abstract rule is \<open>valid_child\<close>; the code is shown to decide exactly it.
\<close>

section \<open>Block objects\<close>

record block =
  b_State :: block_state
  b_dbm :: db_view
  b_blk :: inca_block
  b_header :: block_header
  b_encStrat :: strategy
  b_blkRef :: sref
  b_id :: string
  b_dbKey :: string

text \<open>
  The interface \<open>block.Validator\<close>: given the proposed block and its parent (which may be nil), it
  returns whether to mark the block valid, or an error. A nil validator is \<open>None\<close>.
\<close>

type_synonym block_validator = "block \<Rightarrow> block option \<Rightarrow> bool res"

definition FollowBlockRef ::
  "('e, 'x) externals_scheme \<Rightarrow> sref \<Rightarrow> strategy \<Rightarrow> (('e, 'z) world_scheme, inca_block) go" where
  "FollowBlockRef X ref encStrat =
     gbind (gres (GetBlockEncryptionConfigWithDigest encStrat (GetObjectDigest ref))) (\<lambda>encConf.
       gext (\<lambda>e. follow_block X e ref (Some encConf) (GetObjectDigest ref)))"

definition FollowBlockHeaderRef ::
  "('e, 'x) externals_scheme \<Rightarrow> sref \<Rightarrow> strategy \<Rightarrow> (('e, 'z) world_scheme, block_header) go" where
  "FollowBlockHeaderRef X ref encStrat =
     gbind (gres (GetBlockEncryptionConfigWithDigest encStrat (GetObjectDigest ref))) (\<lambda>encConf.
       gext (\<lambda>e. follow_header X e ref (Some encConf) (GetObjectDigest ref)))"

definition GetDbKey :: "block \<Rightarrow> string" where
  "GetDbKey b = b_dbKey b"

definition Block_ReadState ::
  "('e, 'x) externals_scheme \<Rightarrow> block \<Rightarrow> (('e, 'z) world_scheme, block) go" where
  "Block_ReadState X b =
     gbind (read_slot X (pb_block_state X) (b_dbm b) (GetDbKey b) (b_State b)) (\<lambda>st.
       gret (b\<lparr>b_State := st\<rparr>))"

definition Block_WriteState ::
  "('e, 'x) externals_scheme \<Rightarrow> block \<Rightarrow> (('e, 'z) world_scheme, unit) go" where
  "Block_WriteState X b = write_slot X (pb_block_state X) (b_dbm b) (GetDbKey b) (b_State b)"

definition GetBlock ::
  "('e, 'x) externals_scheme \<Rightarrow> strategy \<Rightarrow> db_view \<Rightarrow> sref \<Rightarrow> (('e, 'z) world_scheme, block) go" where
  "GetBlock X encStrat dbm blockRef =
     gbind (FollowBlockRef X blockRef encStrat) (\<lambda>blk.
     gbind (FollowBlockHeaderRef X (blk_BlockHeaderRef blk) encStrat) (\<lambda>blkHeader.
       let bid = b64_encode (GetObjectDigest blockRef) in
       Block_ReadState X
         \<lparr>b_State = \<lparr>bs_SegmentId = '''', bs_NextBlock = None\<rparr>, b_dbm = dbm, b_blk = blk,
          b_header = blkHeader, b_encStrat = encStrat, b_blkRef = blockRef, b_id = bid,
          b_dbKey = ''/'' @ bid\<rparr>))"

definition fetchChainConfig ::
  "('e, 'x) externals_scheme \<Rightarrow> block \<Rightarrow> (('e, 'z) world_scheme, chain_config) go" where
  "fetchChainConfig X b =
     (let chainConfRef = hdr_ChainConfigRef (b_header b) in
      gbind (gres (GetBlockEncryptionConfigWithDigest (b_encStrat b) (GetObjectDigest chainConfRef)))
        (\<lambda>encConf. gext (\<lambda>e. follow_chain_config X e chainConfRef (Some encConf) [])))"

definition ValidateChild ::
  "('e, 'x) externals_scheme \<Rightarrow> block \<Rightarrow> block \<Rightarrow> block_validator option \<Rightarrow>
     (('e, 'z) world_scheme, bool) go" where
  "ValidateChild X b child blockValidator =
     (let bHeader = b_header b; childHeader = b_header child in
      if \<not> ref_equals X (hdr_GenesisRef bHeader) (hdr_GenesisRef childHeader) then
        gfail (Errorf ''genesis reference mismatch'')
      else
      let bTs = ts_to_time X (hdr_BlockTs bHeader);
          childTs = ts_to_time X (hdr_BlockTs childHeader);
          childRoundInfo = hdr_RoundInfo childHeader;
          childExpectedHeight = GetHeight (hdr_RoundInfo bHeader) + 1 in
      if GetHeight childRoundInfo \<noteq> childExpectedHeight then
        gfail (Errorf ''child height %d != expected %d'')
      else if childTs < bTs then
        gfail (Errorf ''child timestamp %s before parent %s'')
      else
      gbind (fetchChainConfig X b) (\<lambda>chainConf.
      if \<not> ref_equals X (hdr_ChainConfigRef bHeader) (hdr_ChainConfigRef childHeader) then
        gfail (Errorf ''child chain config does not match parent'')
      else if \<not> ref_equals X (hdr_ChainConfigRef bHeader) (hdr_NextChainConfigRef childHeader) then
        gfail (Errorf ''child next chain config does not match parent'')
      else
      let vsRef = cc_ValidatorSetRef chainConf in
      gbind (gres (GetBlockEncryptionConfigWithDigest (b_encStrat b) (GetObjectDigest vsRef))) (\<lambda>encConf.
      gbind (gext (\<lambda>e. follow_validator_set X e vsRef (Some encConf) [])) (\<lambda>valSet.
      case fst (select_proposer X valSet (GetObjectDigest (b_blkRef b))
                  (GetHeight childRoundInfo) (GetRound childRoundInfo)) of
        None \<Rightarrow> gfail (Errorf ''selected validator was nil'')
      | Some selValidator \<Rightarrow>
          gbind (gres (res_of (parse_peer_id X selValidator))) (\<lambda>(selValidatorID, _).
          if pretty_id X selValidatorID \<noteq> hdr_ProposerId childHeader then
            gfail (Errorf ''expected validator for (%d, %d) %s != actual %s'')
          else case blockValidator of
            Some v \<Rightarrow> gres (v child (Some b))
          | None \<Rightarrow> gret False)))))"

definition GetStateRef :: "block \<Rightarrow> sref" where
  "GetStateRef b = hdr_StateRef (b_header b)"

section \<open>Loading and persisting\<close>

lemma keeps_FollowBlockRef [keeps_intros]: "keeps P (FollowBlockRef X ref s)"
  unfolding FollowBlockRef_def by (intro keeps_intros)

lemma keeps_FollowBlockHeaderRef [keeps_intros]: "keeps P (FollowBlockHeaderRef X ref s)"
  unfolding FollowBlockHeaderRef_def by (intro keeps_intros)

lemma keeps_Block_ReadState [keeps_intros]: "keeps P (Block_ReadState X b)"
  unfolding Block_ReadState_def by (intro keeps_intros)

lemma keeps_Block_WriteState [keeps_intros]:
  "(\<And>w e. P w \<Longrightarrow> P (w\<lparr>ext := e\<rparr>)) \<Longrightarrow> keeps P (Block_WriteState X b)"
  unfolding Block_WriteState_def by (intro keeps_intros)

lemma keeps_GetBlock [keeps_intros]: "keeps P (GetBlock X s h ref)"
  unfolding GetBlock_def Let_def by (intro keeps_intros)

lemma keeps_ValidateChild [keeps_intros]: "keeps P (ValidateChild X b c v)"
  unfolding ValidateChild_def fetchChainConfig_def Let_def
  by (intro keeps_intros)

lemmas FollowBlockRef_state = keeps_all_state [OF keeps_FollowBlockRef]
lemmas FollowBlockHeaderRef_state = keeps_all_state [OF keeps_FollowBlockHeaderRef]
lemmas FollowBlockRef_eq = keeps_all_eq [OF keeps_FollowBlockRef]
lemmas FollowBlockHeaderRef_eq = keeps_all_eq [OF keeps_FollowBlockHeaderRef]
lemmas read_slot_eq = keeps_all_eq [OF keeps_read_slot]
lemmas GetBlock_state = keeps_all_state [OF keeps_GetBlock]
lemmas ValidateChild_state = keeps_all_state [OF keeps_ValidateChild]

lemma GetBlock_fields:
  assumes "GetBlock X s h ref w = (Ok b, w')"
  shows "b_dbm b = h" "b_encStrat b = s" "b_blkRef b = ref"
    "b_id b = b64_encode (GetObjectDigest ref)" "b_dbKey b = ''/'' @ b64_encode (GetObjectDigest ref)"
  using assms by (auto simp: GetBlock_def Block_ReadState_def Let_def gbind_Ok_iff)

lemma FollowBlockRef_short_digest:
  "length (GetObjectDigest ref) < 24 \<Longrightarrow> FollowBlockRef X ref s w = (Panic, w)"
  by (simp add: FollowBlockRef_def GetBlockEncryptionConfigWithDigest_Panic [THEN iffD2] gbind_def)

lemma GetBlock_short_digest:
  "length (GetObjectDigest ref) < 24 \<Longrightarrow> GetBlock X s h ref w = (Panic, w)"
  by (simp add: GetBlock_def FollowBlockRef_short_digest)

interpretation block_slot: persisted
  "\<lambda>(X, b). db_ok X \<and> codec_ok (pb_block_state X)"
  "\<lambda>(X, b) st. Block_WriteState X (b\<lparr>b_State := st\<rparr>)"
  "\<lambda>(X, b) st. gbind (Block_ReadState X (b\<lparr>b_State := st\<rparr>)) (\<lambda>b'. gret (b_State b'))"
proof (unfold_locales, goal_cases)
  case (1 p x s s' y)
  then show ?case
    by (auto simp: Block_WriteState_def Block_ReadState_def GetDbKey_def gbind_def
        read_after_write split: prod.splits)
next
  case (2 p y s)
  show ?case by (auto split: prod.splits intro!: keeps_all_snd keeps_intros)
qed

section \<open>The rule for a child block\<close>

text \<open>
  The rule, stated without control flow: which chain configuration and validator set a block's
  references lead to, which validator is expected to propose at a height and round after it, and
  what a child block has to agree on.
\<close>

definition chain_config_of ::
  "('e, 'x) externals_scheme \<Rightarrow> 'e \<Rightarrow> strategy \<Rightarrow> sref \<Rightarrow> chain_config option" where
  "chain_config_of X e s ref =
     (case GetBlockEncryptionConfigWithDigest s (GetObjectDigest ref) of
        Ok c \<Rightarrow> (case follow_chain_config X e ref (Some c) [] of Inr cc \<Rightarrow> Some cc | Inl _ \<Rightarrow> None)
      | _ \<Rightarrow> None)"

definition validator_set_of ::
  "('e, 'x) externals_scheme \<Rightarrow> 'e \<Rightarrow> strategy \<Rightarrow> sref \<Rightarrow> validator_set option" where
  "validator_set_of X e s ref =
     (case GetBlockEncryptionConfigWithDigest s (GetObjectDigest ref) of
        Ok c \<Rightarrow> (case follow_validator_set X e ref (Some c) [] of Inr vs \<Rightarrow> Some vs | Inl _ \<Rightarrow> None)
      | _ \<Rightarrow> None)"

definition proposer_name :: "('e, 'x) externals_scheme \<Rightarrow> validator \<Rightarrow> string option" where
  "proposer_name X v =
     (case parse_peer_id X v of Inr (pid, _) \<Rightarrow> Some (pretty_id X pid) | Inl _ \<Rightarrow> None)"

definition expected_proposer ::
  "('e, 'x) externals_scheme \<Rightarrow> 'e \<Rightarrow> block \<Rightarrow> u64 \<Rightarrow> u64 \<Rightarrow> string option" where
  "expected_proposer X e b height rnd =
     Option.bind (chain_config_of X e (b_encStrat b) (hdr_ChainConfigRef (b_header b))) (\<lambda>cc.
     Option.bind (validator_set_of X e (b_encStrat b) (cc_ValidatorSetRef cc)) (\<lambda>vs.
     Option.bind (fst (select_proposer X vs (GetObjectDigest (b_blkRef b)) height rnd))
       (proposer_name X)))"

definition block_time :: "('e, 'x) externals_scheme \<Rightarrow> block \<Rightarrow> time" where
  "block_time X b = ts_to_time X (hdr_BlockTs (b_header b))"

definition block_height :: "block \<Rightarrow> u64" where
  "block_height b = GetHeight (hdr_RoundInfo (b_header b))"

definition valid_child :: "('e, 'x) externals_scheme \<Rightarrow> 'e \<Rightarrow> block \<Rightarrow> block \<Rightarrow> bool" where
  "valid_child X e b child \<longleftrightarrow>
     ref_equals X (hdr_GenesisRef (b_header b)) (hdr_GenesisRef (b_header child)) \<and>
     block_height child = block_height b + 1 \<and>
     block_time X b \<le> block_time X child \<and>
     ref_equals X (hdr_ChainConfigRef (b_header b)) (hdr_ChainConfigRef (b_header child)) \<and>
     ref_equals X (hdr_ChainConfigRef (b_header b)) (hdr_NextChainConfigRef (b_header child)) \<and>
     expected_proposer X e b (block_height child) (GetRound (hdr_RoundInfo (b_header child))) =
       Some (hdr_ProposerId (b_header child))"

definition validator_verdict :: "block_validator option \<Rightarrow> block \<Rightarrow> block \<Rightarrow> bool res" where
  "validator_verdict bv child b = (case bv of None \<Rightarrow> Ok False | Some v \<Rightarrow> v child (Some b))"

lemmas valid_child_defs =
  valid_child_def expected_proposer_def chain_config_of_def validator_set_of_def
  proposer_name_def block_time_def block_height_def

lemma ValidateChild_guards_fail:
  assumes "\<not> (ref_equals X (hdr_GenesisRef (b_header b)) (hdr_GenesisRef (b_header child)) \<and>
     block_height child = block_height b + 1 \<and> block_time X b \<le> block_time X child)"
  shows "\<exists>e. ValidateChild X b child bv w = (Err e, w)"
  using assms by (auto simp: ValidateChild_def Let_def block_height_def block_time_def)

lemma chain_config_of_Some:
  "chain_config_of X e s ref = Some cc \<longleftrightarrow>
     (\<exists>c. GetBlockEncryptionConfigWithDigest s (GetObjectDigest ref) = Ok c \<and>
          follow_chain_config X e ref (Some c) [] = Inr cc)"
  by (auto simp: chain_config_of_def split: res.splits sum.splits)

lemma validator_set_of_Some:
  "validator_set_of X e s ref = Some vs \<longleftrightarrow>
     (\<exists>c. GetBlockEncryptionConfigWithDigest s (GetObjectDigest ref) = Ok c \<and>
          follow_validator_set X e ref (Some c) [] = Inr vs)"
  by (auto simp: validator_set_of_def split: res.splits sum.splits)

lemma proposer_name_Some:
  "proposer_name X v = Some n \<longleftrightarrow> (\<exists>pid pk. parse_peer_id X v = Inr (pid, pk) \<and> n = pretty_id X pid)"
  by (auto simp: proposer_name_def split: sum.splits)

lemma expected_proposer_Some:
  "expected_proposer X e b h r = Some n \<longleftrightarrow>
     (\<exists>cc vs v. chain_config_of X e (b_encStrat b) (hdr_ChainConfigRef (b_header b)) = Some cc \<and>
        validator_set_of X e (b_encStrat b) (cc_ValidatorSetRef cc) = Some vs \<and>
        fst (select_proposer X vs (GetObjectDigest (b_blkRef b)) h r) = Some v \<and>
        proposer_name X v = Some n)"
  by (auto simp: expected_proposer_def bind_eq_Some_conv)

lemma fetchChainConfig_Ok:
  "fetchChainConfig X b w = (Ok cc, w') \<longleftrightarrow>
     w' = w \<and> chain_config_of X (ext w) (b_encStrat b) (hdr_ChainConfigRef (b_header b)) = Some cc"
  by (auto simp: fetchChainConfig_def Let_def gbind_Ok_iff chain_config_of_Some)

lemma validate_child_rule:
  "ValidateChild X b child bv w = (Ok m, w') \<longleftrightarrow>
     w' = w \<and> valid_child X (ext w) b child \<and> validator_verdict bv child b = Ok m"
proof
  assume "ValidateChild X b child bv w = (Ok m, w')"
  then show "w' = w \<and> valid_child X (ext w) b child \<and> validator_verdict bv child b = Ok m"
    by (auto simp: ValidateChild_def Let_def valid_child_def block_height_def block_time_def
        gbind_Ok_iff fetchChainConfig_Ok expected_proposer_Some validator_set_of_Some
        proposer_name_Some validator_verdict_def
        split: option.splits prod.splits if_splits)
next
  assume r: "w' = w \<and> valid_child X (ext w) b child \<and> validator_verdict bv child b = Ok m"
  then obtain cc vs c v pid pk where
    "fetchChainConfig X b w = (Ok cc, w)"
    "GetBlockEncryptionConfigWithDigest (b_encStrat b) (GetObjectDigest (cc_ValidatorSetRef cc)) = Ok c"
    "follow_validator_set X (ext w) (cc_ValidatorSetRef cc) (Some c) [] = Inr vs"
    "fst (select_proposer X vs (GetObjectDigest (b_blkRef b)) (block_height child)
       (GetRound (hdr_RoundInfo (b_header child)))) = Some v"
    "parse_peer_id X v = Inr (pid, pk)" "hdr_ProposerId (b_header child) = pretty_id X pid"
    by (auto simp: valid_child_def expected_proposer_Some fetchChainConfig_Ok
        validator_set_of_Some proposer_name_Some)
  with r show "ValidateChild X b child bv w = (Ok m, w')"
    by (auto simp: ValidateChild_def Let_def valid_child_def block_height_def block_time_def
        validator_verdict_def gbind_def split: option.splits)
qed

text \<open>C3: \<open>ValidateChild\<close> decides exactly the abstract rule: it returns a verdict if and only if the
  child satisfies \<open>valid_child\<close> with respect to its parent and the application's block validator, if
  any, gives that verdict; and it never changes the state.\<close>

theorem validate_child_decides:
  "ValidateChild X b child bv w = (Ok m, w') \<longleftrightarrow>
     w' = w \<and> valid_child X (ext w) b child \<and> validator_verdict bv child b = Ok m"
  by (rule validate_child_rule)

section \<open>Chains of validated blocks\<close>

fun validated_path ::
  "('e, 'x) externals_scheme \<Rightarrow> block_validator option \<Rightarrow> ('e, 'z) world_scheme \<Rightarrow> block list \<Rightarrow> bool" where
  "validated_path X bv w [] = True"
| "validated_path X bv w [b] = True"
| "validated_path X bv w (b # c # bs) =
     ((case fst (ValidateChild X b c bv w) of Ok _ \<Rightarrow> True | _ \<Rightarrow> False) \<and>
      validated_path X bv w (c # bs))"

lemma validated_step:
  assumes "case fst (ValidateChild X b c bv w) of Ok _ \<Rightarrow> True | _ \<Rightarrow> False"
  shows "valid_child X (ext w) b c"
proof -
  obtain r w' where v: "ValidateChild X b c bv w = (r, w')" by force
  with assms obtain m where "r = Ok m" by (auto split: res.splits)
  with v validate_child_rule show ?thesis by blast
qed

lemma validated_path_linked:
  "validated_path X bv w bs \<Longrightarrow> Suc i < length bs \<Longrightarrow> valid_child X (ext w) (bs ! i) (bs ! Suc i)"
proof (induction X bv w bs arbitrary: i rule: validated_path.induct)
  case (3 X bv w b c bs)
  then show ?case by (cases i) (auto dest: validated_step)
qed simp_all

lemma validated_path_heights:
  "validated_path X bv w (b # bs) \<Longrightarrow> i \<le> length bs \<Longrightarrow>
     block_height ((b # bs) ! i) = block_height b + of_nat i"
proof (induction i)
  case (Suc i)
  then have "valid_child X (ext w) ((b # bs) ! i) ((b # bs) ! Suc i)"
    by (intro validated_path_linked) auto
  with Suc show ?case by (simp add: valid_child_def)
qed simp

lemma validated_path_times:
  "validated_path X bv w bs \<Longrightarrow> i + k < length bs \<Longrightarrow>
     block_time X (bs ! i) \<le> block_time X (bs ! (i + k))"
proof (induction k)
  case (Suc k)
  then have "valid_child X (ext w) (bs ! (i + k)) (bs ! Suc (i + k))"
    by (intro validated_path_linked) auto
  with Suc show ?case by (simp add: valid_child_def)
qed simp

text \<open>Along any sequence of blocks in which each block validated its successor, heights increase
  by exactly one per block (modulo the 64-bit width of a height) and timestamps never decrease.\<close>

theorem validated_path_heights_times:
  assumes "validated_path X bv w (b # bs)" and "i \<le> j" and "j \<le> length bs"
  shows "block_height ((b # bs) ! j) = block_height ((b # bs) ! i) + of_nat (j - i) \<and>
    block_time X ((b # bs) ! i) \<le> block_time X ((b # bs) ! j)"
proof
  have "block_height ((b # bs) ! j) = block_height b + of_nat (i + (j - i))"
    using assms validated_path_heights [of X bv w b bs j] by simp
  also have "\<dots> = block_height ((b # bs) ! i) + of_nat (j - i)"
    using assms validated_path_heights [of X bv w b bs i] by (simp only: of_nat_add) simp
  finally show "block_height ((b # bs) ! j) = block_height ((b # bs) ! i) + of_nat (j - i)" .
  show "block_time X ((b # bs) ! i) \<le> block_time X ((b # bs) ! j)"
    using assms validated_path_times [of X bv w "b # bs" i "j - i"] by simp
qed

section \<open>The block's state slot\<close>

lemma GetBlock_split:
  "GetBlock X s h ref w = (Ok b, w') \<longleftrightarrow> w' = w \<and>
     (\<exists>blk hdr st. FollowBlockRef X ref s w = (Ok blk, w) \<and>
        FollowBlockHeaderRef X (blk_BlockHeaderRef blk) s w = (Ok hdr, w) \<and>
        read_slot X (pb_block_state X) h (''/'' @ b64_encode (GetObjectDigest ref))
          \<lparr>bs_SegmentId = '''', bs_NextBlock = None\<rparr> w = (Ok st, w) \<and>
        b = \<lparr>b_State = st, b_dbm = h, b_blk = blk, b_header = hdr, b_encStrat = s, b_blkRef = ref,
             b_id = b64_encode (GetObjectDigest ref),
             b_dbKey = ''/'' @ b64_encode (GetObjectDigest ref)\<rparr>)"
  by (auto simp: GetBlock_def Block_ReadState_def GetDbKey_def Let_def gbind_Ok_iff
      FollowBlockRef_eq FollowBlockHeaderRef_eq read_slot_eq)

lemma Follow_after_write:
  assumes "objects_ok X" "write_slot X c h k v w = (r, w')"
  shows "fst (FollowBlockRef X ref s w') = fst (FollowBlockRef X ref s w)"
    "fst (FollowBlockHeaderRef X ref s w') = fst (FollowBlockHeaderRef X ref s w)"
  using write_slot_objects [OF assms]
  by (auto simp: FollowBlockRef_def FollowBlockHeaderRef_def gbind_def split: res.splits)

lemma FollowBlockRef_cong:
  "fst (FollowBlockRef X ref s w') = fst (FollowBlockRef X ref s w) \<Longrightarrow>
     FollowBlockRef X ref s w = (r, w) \<Longrightarrow> FollowBlockRef X ref s w' = (r, w')"
  by (metis FollowBlockRef_state eq_fst_iff fst_conv)

lemma FollowBlockHeaderRef_cong:
  "fst (FollowBlockHeaderRef X ref s w') = fst (FollowBlockHeaderRef X ref s w) \<Longrightarrow>
     FollowBlockHeaderRef X ref s w = (r, w) \<Longrightarrow> FollowBlockHeaderRef X ref s w' = (r, w')"
  by (metis FollowBlockHeaderRef_state eq_fst_iff fst_conv)

text \<open>A block's local state survives a reload: once a changed state has been written, loading the
  same reference again gives the same block with exactly that state.\<close>

theorem block_state_reload:
  assumes "db_ok X" "objects_ok X" "codec_ok (pb_block_state X)"
    and "GetBlock X s h ref w = (Ok b, w)"
    and "Block_WriteState X (b\<lparr>b_State := st\<rparr>) w = (Ok (), w')"
  shows "GetBlock X s h ref w' = (Ok (b\<lparr>b_State := st\<rparr>), w')"
proof -
  let ?k = "''/'' @ b64_encode (GetObjectDigest ref)"
  from assms(4) obtain blk hdr st0 where
    f: "FollowBlockRef X ref s w = (Ok blk, w)"
      "FollowBlockHeaderRef X (blk_BlockHeaderRef blk) s w = (Ok hdr, w)"
    and b: "b = \<lparr>b_State = st0, b_dbm = h, b_blk = blk, b_header = hdr, b_encStrat = s,
      b_blkRef = ref, b_id = b64_encode (GetObjectDigest ref), b_dbKey = ?k\<rparr>"
    by (auto simp: GetBlock_split)
  have wr: "write_slot X (pb_block_state X) h ?k st w = (Ok (), w')"
    using assms(5) b by (simp add: Block_WriteState_def GetDbKey_def)
  have "read_slot X (pb_block_state X) h ?k \<lparr>bs_SegmentId = '''', bs_NextBlock = None\<rparr> w' = (Ok st, w')"
    by (rule read_after_write [OF assms(1,3) wr]) simp
  then show ?thesis
    using FollowBlockRef_cong [OF Follow_after_write(1) [OF assms(2) wr] f(1)]
      FollowBlockHeaderRef_cong [OF Follow_after_write(2) [OF assms(2) wr] f(2)] b
    by (simp add: GetBlock_split)
qed

end
