(* ===== verification/SegQueue.thy ===== *)
theory SegQueue
  imports GoLib
begin

text \<open>
  \<^verbatim>\<open>segment/segment_queue.go\<close>: the queue of segments waiting to be rewound, a binary heap over a
  slice of segment pointers. A segment pointer is the identifier under which the segment store keeps
  the segment; \<open>hgt\<close> reads the height of its tail block from the store at the time of the call.

  The contract a client can use is that of a set of pending segments from which any element may come
  out next (locale \<open>pending_set\<close>). The order of the elements is not by height.
\<close>

section \<open>The contract\<close>

fun pop_all :: "('q \<Rightarrow> 'a option \<times> 'q) \<Rightarrow> nat \<Rightarrow> 'q \<Rightarrow> 'a list \<times> 'q" where
  "pop_all pop 0 q = ([], q)"
| "pop_all pop (Suc n) q =
     (case pop q of
        (None, q') \<Rightarrow> ([], q')
      | (Some a, q') \<Rightarrow> (case pop_all pop n q' of (as, q'') \<Rightarrow> (a # as, q'')))"

locale pending_set =
  fixes invar :: "'q \<Rightarrow> bool"
    and elems :: "'q \<Rightarrow> 'a set"
    and push :: "'a \<Rightarrow> 'q \<Rightarrow> 'q"
    and pop :: "'q \<Rightarrow> 'a option \<times> 'q"
    and remove :: "'a \<Rightarrow> 'q \<Rightarrow> 'q"
  assumes finite_elems: "finite (elems q)"
    and invar_push: "invar q \<Longrightarrow> invar (push a q)"
    and elems_push: "elems (push a q) = insert a (elems q)"
    and invar_remove: "invar q \<Longrightarrow> invar (remove a q)"
    and elems_remove: "invar q \<Longrightarrow> elems (remove a q) = elems q - {a}"
    and pop_None: "pop q = (None, q') \<Longrightarrow> elems q = {} \<and> q' = q"
    and pop_Some: "invar q \<Longrightarrow> pop q = (Some a, q') \<Longrightarrow>
      invar q' \<and> a \<in> elems q \<and> elems q' = elems q - {a}"
begin

lemma drain:
  "invar q \<Longrightarrow> card (elems q) \<le> n \<Longrightarrow> pop_all pop n q = (as, q') \<Longrightarrow>
     distinct as \<and> set as = elems q \<and> elems q' = {}"
proof (induction n arbitrary: q as q')
  case 0
  then show ?case using finite_elems [of q] by simp
next
  case (Suc n)
  show ?case
  proof (cases "pop q")
    case (Pair r q1)
    show ?thesis
    proof (cases r)
      case None
      with Pair Suc.prems(3) pop_None [of q q1] show ?thesis by auto
    next
      case (Some a)
      obtain bs q2 where rest: "pop_all pop n q1 = (bs, q2)" by force
      have q1: "invar q1" "a \<in> elems q" "elems q1 = elems q - {a}"
        using pop_Some [of q a q1] Suc.prems(1) Pair Some by auto
      then have "card (elems q1) \<le> n"
        using Suc.prems(2) finite_elems [of q] by simp
      with Suc.IH [OF q1(1) _ rest] q1 Pair Some rest Suc.prems(3) show ?thesis by auto
    qed
  qed
qed

end

section \<open>The queue\<close>

record segment_queue =
  pq :: "string list"
  notifyCh :: "string list"

abbreviation notify_cap :: nat where "notify_cap \<equiv> 5"

definition segmentHeightPq_Less :: "(string \<Rightarrow> u64) \<Rightarrow> string list \<Rightarrow> nat \<Rightarrow> nat \<Rightarrow> bool" where
  "segmentHeightPq_Less hgt q i j \<longleftrightarrow> hgt (q ! i) < hgt (q ! i)"

fun index_of :: "'a \<Rightarrow> 'a list \<Rightarrow> nat option" where
  "index_of a [] = None"
| "index_of a (x # xs) = (if a = x then Some 0 else map_option Suc (index_of a xs))"

definition NewSegmentQueue :: "(string \<Rightarrow> u64) \<Rightarrow> segment_queue" where
  "NewSegmentQueue hgt = \<lparr>pq = heap_Init (segmentHeightPq_Less hgt) [], notifyCh = []\<rparr>"

definition SegmentQueue_Push :: "(string \<Rightarrow> u64) \<Rightarrow> string \<Rightarrow> segment_queue \<Rightarrow> segment_queue" where
  "SegmentQueue_Push hgt seg sq =
     (if seg \<in> set (pq sq) then sq
      else sq\<lparr>pq := heap_Push (segmentHeightPq_Less hgt) seg (pq sq),
              notifyCh := try_send notify_cap seg (notifyCh sq)\<rparr>)"

definition SegmentQueue_Remove :: "(string \<Rightarrow> u64) \<Rightarrow> string \<Rightarrow> segment_queue \<Rightarrow> segment_queue" where
  "SegmentQueue_Remove hgt seg sq =
     (case index_of seg (pq sq) of
        None \<Rightarrow> sq
      | Some i \<Rightarrow> sq\<lparr>pq := snd (heap_Remove (segmentHeightPq_Less hgt) i (pq sq))\<rparr>)"

definition SegmentQueue_Pop :: "(string \<Rightarrow> u64) \<Rightarrow> segment_queue \<Rightarrow> string option \<times> segment_queue" where
  "SegmentQueue_Pop hgt sq =
     (if pq sq = [] then (None, sq)
      else case heap_Pop (segmentHeightPq_Less hgt) (pq sq) of
             (seg, rest) \<Rightarrow> (Some seg, sq\<lparr>pq := rest\<rparr>))"

section \<open>The queue meets the contract\<close>

lemma index_of_None: "index_of a xs = None \<longleftrightarrow> a \<notin> set xs"
  by (induction xs) auto

lemma index_of_Some: "index_of a xs = Some i \<Longrightarrow> i < length xs \<and> xs ! i = a"
  by (induction xs arbitrary: i) (auto split: if_splits)

lemma distinct_remove_one:
  assumes "add_mset a (mset ys) = mset xs" "distinct xs"
  shows "distinct ys" "set ys = set xs - {a}" "a \<in> set xs"
proof -
  have "distinct (a # ys)" using assms by (metis mset.simps(2) mset_eq_imp_distinct_iff)
  moreover have "set (a # ys) = set xs" using assms(1) by (metis mset.simps(2) set_mset_mset)
  ultimately show "distinct ys" "set ys = set xs - {a}" "a \<in> set xs" by auto
qed

lemma set_heap_Push: "set (heap_Push lss x xs) = insert x (set xs)"
  using mset_heap_Push [of lss x xs] by (metis set_mset_add_mset_insert set_mset_mset)

lemma distinct_heap_Push: "distinct xs \<Longrightarrow> x \<notin> set xs \<Longrightarrow> distinct (heap_Push lss x xs)"
  using mset_heap_Push [of lss x xs]
  by (metis distinct.simps(2) mset.simps(2) mset_eq_imp_distinct_iff)

interpretation seg_pending: pending_set
  "\<lambda>sq. distinct (pq sq)" "\<lambda>sq. set (pq sq)"
  "SegmentQueue_Push hgt" "SegmentQueue_Pop hgt" "SegmentQueue_Remove hgt" for hgt
proof (unfold_locales, goal_cases)
  case (4 sq seg)
  show ?case
  proof (cases "index_of seg (pq sq)")
    case (Some i)
    then show ?thesis using 4 index_of_Some [OF Some] mset_heap_Remove
      by (auto simp: SegmentQueue_Remove_def intro: distinct_remove_one(1))
  qed (use 4 in \<open>simp add: SegmentQueue_Remove_def\<close>)
next
  case (5 sq seg)
  show ?case
  proof (cases "index_of seg (pq sq)")
    case None
    then have "seg \<notin> set (pq sq)" by (simp add: index_of_None)
    with None show ?thesis by (simp add: SegmentQueue_Remove_def)
  next
    case (Some i)
    then show ?thesis
      using 5 index_of_Some [OF Some] distinct_remove_one(2) mset_heap_Remove
      by (fastforce simp: SegmentQueue_Remove_def)
  qed
next
  case (7 sq seg sq')
  then have ne: "pq sq \<noteq> []" and seg: "seg = fst (heap_Pop (segmentHeightPq_Less hgt) (pq sq))"
    and rest: "pq sq' = snd (heap_Pop (segmentHeightPq_Less hgt) (pq sq))"
    by (auto simp: SegmentQueue_Pop_def split: if_splits prod.splits)
  show ?case
    using distinct_remove_one [OF mset_heap_Pop [OF ne] 7(1)] seg rest by simp
qed (auto simp: SegmentQueue_Push_def SegmentQueue_Pop_def set_heap_Push distinct_heap_Push
    split: if_splits prod.splits)

lemma distinct_NewSegmentQueue: "distinct (pq (NewSegmentQueue hgt))"
  by (simp add: NewSegmentQueue_def heap_Init_def)

section \<open>Properties\<close>

lemma Less_never [simp]: "segmentHeightPq_Less hgt = (\<lambda>_ _ _. False)"
  by (simp add: segmentHeightPq_Less_def fun_eq_iff)

text \<open>The rewind queue loses nothing and repeats nothing: if the queue holds no segment twice,
  popping it as many times as it has segments returns every queued segment exactly once and leaves it
  empty, whatever the segments' heights.\<close>

theorem segment_queue_drains:
  assumes "distinct (pq sq)"
    and "pop_all (SegmentQueue_Pop hgt) (length (pq sq)) sq = (segs, sq')"
  shows "distinct segs \<and> set segs = set (pq sq) \<and> pq sq' = []"
proof -
  have "card (set (pq sq)) \<le> length (pq sq)" by (rule card_length)
  with seg_pending.drain [OF assms(1) _ assms(2)] show ?thesis by simp
qed

theorem segment_queue_drains_witness:
  "pop_all (SegmentQueue_Pop (\<lambda>_. 7)) 2 \<lparr>pq = [''a'', ''b''], notifyCh = []\<rparr> =
     ([''a'', ''b''], \<lparr>pq = [], notifyCh = []\<rparr>) \<and> set [''a'', ''b''] = {''a'', ''b''}"
proof -
  let ?q = "\<lparr>pq = [''a'', ''b''], notifyCh = []\<rparr>"
  have run: "pop_all (SegmentQueue_Pop (\<lambda>_. 7)) (length (pq ?q)) ?q =
      ([''a'', ''b''], \<lparr>pq = [], notifyCh = []\<rparr>)"
    by (simp add: SegmentQueue_Pop_def heap_Pop_never)
  have "distinct (pq ?q)" by simp
  from segment_queue_drains [OF this run] run show ?thesis by (simp add: numeral_2_eq_2)
qed

text \<open>The queue does not order segments by height. The comparison method compares an element with
  itself, so for any two assignments of heights the queue behaves identically, and pushing a segment
  and then another one into an empty queue pops the first one even when the second is lower.\<close>

theorem segment_queue_ignores_heights:
  "SegmentQueue_Push hgt seg sq = SegmentQueue_Push hgt' seg sq \<and>
   SegmentQueue_Pop hgt sq = SegmentQueue_Pop hgt' sq \<and>
   SegmentQueue_Remove hgt seg sq = SegmentQueue_Remove hgt' seg sq \<and>
   fst (SegmentQueue_Pop hgt (SegmentQueue_Push hgt low (SegmentQueue_Push hgt high (NewSegmentQueue hgt))))
     = Some high"
proof -
  let ?q = "SegmentQueue_Push hgt low (SegmentQueue_Push hgt high (NewSegmentQueue hgt))"
  have "pq ?q = (if low = high then [high] else [high, low])"
    by (simp add: SegmentQueue_Push_def NewSegmentQueue_def heap_Init_def heap_Push_never)
  then have "fst (SegmentQueue_Pop hgt ?q) = Some high"
    by (simp add: SegmentQueue_Pop_def heap_Pop_never split: prod.splits)
  moreover have "SegmentQueue_Push hgt seg sq = SegmentQueue_Push hgt' seg sq"
    unfolding SegmentQueue_Push_def Less_never ..
  moreover have "SegmentQueue_Pop hgt sq = SegmentQueue_Pop hgt' sq"
    unfolding SegmentQueue_Pop_def Less_never ..
  moreover have "SegmentQueue_Remove hgt seg sq = SegmentQueue_Remove hgt' seg sq"
    unfolding SegmentQueue_Remove_def Less_never ..
  ultimately show ?thesis by blast
qed

end
