(* ===== verification/Segments.thy ===== *)
theory Segments
  imports Blocks SegQueue
begin

text \<open>
  \<^verbatim>\<open>segment/segment.go\<close> and \<^verbatim>\<open>segment/segment_store.go\<close>: segments of the block chain, connected or
  not, the in-memory store of segment singletons, and the operations that grow a segment at its head
  (\<open>AppendBlock\<close>), extend it backwards at its tail (\<open>RewindOnce\<close>) and join it to another segment
  (\<open>AppendSegment\<close>).

  All \<open>*Segment\<close> pointers come out of \<open>GetSegmentById\<close>, which keeps one object per identifier, so a
  pointer is that identifier and pointer equality is equality of identifiers. The object's state is
  the entry of \<open>segmentMap\<close>; the copy in the database is separate and follows by \<open>writeState\<close>.
\<close>

section \<open>State\<close>

record 'e seg_world = "'e world" +
  segmentMap :: "string \<rightharpoonup> segment_state"
  segmentQueue :: segment_queue

definition zero_segment :: "('e, 'x) externals_scheme \<Rightarrow> segment_state" where
  "zero_segment X = \<lparr>ss_Id = '''', ss_Status = zero_segment_status X, ss_HeadBlock = None,
     ss_TailBlock = None, ss_TailBlockRound = None, ss_SegmentPrev = '''', ss_SegmentNext = ''''\<rparr>"

definition seg_state ::
  "('e, 'x) externals_scheme \<Rightarrow> string \<Rightarrow> ('e, 'z) seg_world_scheme \<Rightarrow> segment_state" where
  "seg_state X sid w = (case segmentMap w sid of Some st \<Rightarrow> st | None \<Rightarrow> zero_segment X)"

definition seg_update ::
  "('e, 'x) externals_scheme \<Rightarrow> string \<Rightarrow> (segment_state \<Rightarrow> segment_state) \<Rightarrow>
     (('e, 'z) seg_world_scheme, unit) go" where
  "seg_update X sid f =
     gmodify (\<lambda>w. w\<lparr>segmentMap := (segmentMap w)(sid \<mapsto> f (seg_state X sid w))\<rparr>)"

definition tail_height ::
  "('e, 'x) externals_scheme \<Rightarrow> ('e, 'z) seg_world_scheme \<Rightarrow> string \<Rightarrow> u64" where
  "tail_height X w sid = GetHeight (ss_TailBlockRound (seg_state X sid w))"

section \<open>Segment operations\<close>

definition Segment_dbKey :: "segment_state \<Rightarrow> string" where
  "Segment_dbKey st = ''/'' @ ss_Id st"

definition Segment_writeState ::
  "('e, 'x) externals_scheme \<Rightarrow> db_view \<Rightarrow> string \<Rightarrow> (('e, 'z) seg_world_scheme, unit) go" where
  "Segment_writeState X sdb sid =
     gbind (gasks (seg_state X sid)) (\<lambda>st.
       write_slot X (pb_segment_state X) sdb (Segment_dbKey st) st)"

definition Segment_readState ::
  "('e, 'x) externals_scheme \<Rightarrow> db_view \<Rightarrow> segment_state \<Rightarrow>
     (('e, 'z) seg_world_scheme, segment_state) go" where
  "Segment_readState X sdb st = read_slot X (pb_segment_state X) sdb (Segment_dbKey st) st"

definition AppendBlock ::
  "('e, 'x) externals_scheme \<Rightarrow> db_view \<Rightarrow> string \<Rightarrow> sref \<Rightarrow> block \<Rightarrow> block \<Rightarrow>
     block_validator option \<Rightarrow> strategy \<Rightarrow> (('e, 'z) seg_world_scheme, unit) go" where
  "AppendBlock X sdb sid blkRef blk blkParent blkValidator encStrat =
     (case bs_NextBlock (b_State blkParent) of
        Some r \<Rightarrow>
          gbind (FollowBlockRef X (Some r) encStrat) (\<lambda>blkParentNext.
            if \<not> ref_equals X (blk_BlockHeaderRef blkParentNext) (blk_BlockHeaderRef (b_blk blk))
            then gfail (Errorf ''fork: block A: %s and B: %s'')
            else gret ())
      | None \<Rightarrow>
          gbind (gasks (seg_state X sid)) (\<lambda>st.
          if ss_SegmentNext st \<noteq> '''' then gfail (Errorf ''fork: next segment already exists'')
          else
          gbind (ValidateChild X blkParent blk blkValidator) (\<lambda>isValid.
          let blkParent' = blkParent\<lparr>b_State := (b_State blkParent)\<lparr>bs_NextBlock := blkRef\<rparr>\<rparr> in
          gbind (Block_WriteState X blkParent') (\<lambda>_.
          let blk' = blk\<lparr>b_State := (b_State blk)\<lparr>bs_SegmentId := bs_SegmentId (b_State blkParent')\<rparr>\<rparr> in
          gbind (Block_WriteState X blk') (\<lambda>_.
          gbind (seg_update X sid (\<lambda>st.
            let st' = st\<lparr>ss_HeadBlock := blkRef\<rparr> in
            if isValid \<and> ss_Status st' \<noteq> INVALID then st'\<lparr>ss_Status := VALID\<rparr> else st')) (\<lambda>_.
          Segment_writeState X sdb sid))))))"

definition AppendSegment ::
  "('e, 'x) externals_scheme \<Rightarrow> db_view \<Rightarrow> string \<Rightarrow> string \<Rightarrow> strategy \<Rightarrow>
     block_validator option \<Rightarrow> db_view \<Rightarrow> (('e, 'z) seg_world_scheme, unit) go" where
  "AppendSegment X sdb sid next encStrat blockValidator blockDbm =
     gbind (gasks (seg_state X next)) (\<lambda>nst.
     if ss_Status nst \<noteq> DISJOINTED then gfail (Errorf ''unexpected status: %v'')
     else
     gbind (GetBlock X encStrat blockDbm (ss_TailBlock nst)) (\<lambda>tailBlk.
     gbind (gasks (seg_state X sid)) (\<lambda>st.
     gbind (GetBlock X encStrat blockDbm (ss_HeadBlock st)) (\<lambda>sHeadBlk.
     gbind (gtry (ValidateChild X sHeadBlk tailBlk blockValidator)) (\<lambda>r.
     case r of
       Inl _ \<Rightarrow>
         gbind (seg_update X next (\<lambda>n. n\<lparr>ss_Status := INVALID\<rparr>)) (\<lambda>_.
         Segment_writeState X sdb next)
     | Inr isValid \<Rightarrow>
         gbind (seg_update X next (\<lambda>n.
           if isValid \<and> ss_Status n = DISJOINTED then n\<lparr>ss_Status := VALID\<rparr> else n)) (\<lambda>_.
         gbind (gasks (\<lambda>w. ss_Status (seg_state X sid w))) (\<lambda>status.
         gbind (gasks (\<lambda>w. ss_Id (seg_state X sid w))) (\<lambda>sId.
         gbind (seg_update X next (\<lambda>n. n\<lparr>ss_Status := status, ss_SegmentPrev := sId\<rparr>)) (\<lambda>_.
         gbind (Segment_writeState X sdb next) (\<lambda>_.
         gbind (gasks (\<lambda>w. ss_Id (seg_state X next w))) (\<lambda>nextId.
         gbind (seg_update X sid (\<lambda>s. s\<lparr>ss_SegmentNext := nextId\<rparr>)) (\<lambda>_.
         Segment_writeState X sdb sid))))))))))))"

text \<open>
  The two halves of \<open>AppendSegment\<close>: up to the verdict on the tail block, which reads blocks from the
  database and calls the application's validator, and from there. No lock is held in between.
\<close>

definition AppendSegment_check ::
  "('e, 'x) externals_scheme \<Rightarrow> string \<Rightarrow> string \<Rightarrow> strategy \<Rightarrow> block_validator option \<Rightarrow> db_view \<Rightarrow>
     (('e, 'z) seg_world_scheme, go_error + bool) go" where
  "AppendSegment_check X sid next encStrat blockValidator blockDbm =
     gbind (gasks (seg_state X next)) (\<lambda>nst.
     if ss_Status nst \<noteq> DISJOINTED then gfail (Errorf ''unexpected status: %v'')
     else
     gbind (GetBlock X encStrat blockDbm (ss_TailBlock nst)) (\<lambda>tailBlk.
     gbind (gasks (seg_state X sid)) (\<lambda>st.
     gbind (GetBlock X encStrat blockDbm (ss_HeadBlock st)) (\<lambda>sHeadBlk.
     gtry (ValidateChild X sHeadBlk tailBlk blockValidator)))))"

definition AppendSegment_finish ::
  "('e, 'x) externals_scheme \<Rightarrow> db_view \<Rightarrow> string \<Rightarrow> string \<Rightarrow> go_error + bool \<Rightarrow>
     (('e, 'z) seg_world_scheme, unit) go" where
  "AppendSegment_finish X sdb sid next r =
     (case r of
       Inl _ \<Rightarrow>
         gbind (seg_update X next (\<lambda>n. n\<lparr>ss_Status := INVALID\<rparr>)) (\<lambda>_.
         Segment_writeState X sdb next)
     | Inr isValid \<Rightarrow>
         gbind (seg_update X next (\<lambda>n.
           if isValid \<and> ss_Status n = DISJOINTED then n\<lparr>ss_Status := VALID\<rparr> else n)) (\<lambda>_.
         gbind (gasks (\<lambda>w. ss_Status (seg_state X sid w))) (\<lambda>status.
         gbind (gasks (\<lambda>w. ss_Id (seg_state X sid w))) (\<lambda>sId.
         gbind (seg_update X next (\<lambda>n. n\<lparr>ss_Status := status, ss_SegmentPrev := sId\<rparr>)) (\<lambda>_.
         gbind (Segment_writeState X sdb next) (\<lambda>_.
         gbind (gasks (\<lambda>w. ss_Id (seg_state X next w))) (\<lambda>nextId.
         gbind (seg_update X sid (\<lambda>s. s\<lparr>ss_SegmentNext := nextId\<rparr>)) (\<lambda>_.
         Segment_writeState X sdb sid))))))))"

definition MarkValid ::
  "('e, 'x) externals_scheme \<Rightarrow> db_view \<Rightarrow> string \<Rightarrow> (('e, 'z) seg_world_scheme, unit) go" where
  "MarkValid X sdb sid =
     gbind (gasks (seg_state X sid)) (\<lambda>st.
     if ss_Status st = VALID then gret ()
     else gbind (seg_update X sid (\<lambda>s. s\<lparr>ss_Status := VALID\<rparr>)) (\<lambda>_.
          Segment_writeState X sdb sid))"

section \<open>The segment store\<close>

definition GetSegmentById ::
  "('e, 'x) externals_scheme \<Rightarrow> db_view \<Rightarrow> string \<Rightarrow> (('e, 'z) seg_world_scheme, string) go" where
  "GetSegmentById X sdb sid =
     gbind (gasks (\<lambda>w. segmentMap w sid)) (\<lambda>loaded.
     case loaded of
       Some _ \<Rightarrow> gret sid
     | None \<Rightarrow>
         gbind (Segment_readState X sdb ((zero_segment X)\<lparr>ss_Id := sid\<rparr>)) (\<lambda>st.
         gbind (gmodify (\<lambda>w. w\<lparr>segmentMap := (segmentMap w)(sid \<mapsto> st)\<rparr>)) (\<lambda>_.
         gret sid)))"

definition queue_push ::
  "('e, 'x) externals_scheme \<Rightarrow> string \<Rightarrow> (('e, 'z) seg_world_scheme, unit) go" where
  "queue_push X sid =
     gmodify (\<lambda>w. w\<lparr>segmentQueue := SegmentQueue_Push (tail_height X w) sid (segmentQueue w)\<rparr>)"

definition queue_pop ::
  "('e, 'x) externals_scheme \<Rightarrow> (('e, 'z) seg_world_scheme, string option) go" where
  "queue_pop X = (\<lambda>w.
     case SegmentQueue_Pop (tail_height X w) (segmentQueue w) of
       (seg, q) \<Rightarrow> (Ok seg, w\<lparr>segmentQueue := q\<rparr>))"

text \<open>\<open>uid\<close> is the identifier drawn by \<open>uuid.NewV4\<close>. The block object is changed for the caller.\<close>

definition NewSegment ::
  "('e, 'x) externals_scheme \<Rightarrow> db_view \<Rightarrow> string \<Rightarrow> block \<Rightarrow> sref \<Rightarrow>
     (('e, 'z) seg_world_scheme, string \<times> block) go" where
  "NewSegment X sdb uid blk blkRef =
     (let st = (zero_segment X)\<lparr>ss_Id := uid, ss_HeadBlock := blkRef, ss_Status := DISJOINTED,
                 ss_TailBlock := blkRef, ss_TailBlockRound := hdr_RoundInfo (b_header blk)\<rparr>;
          blk' = blk\<lparr>b_State := (b_State blk)\<lparr>bs_SegmentId := uid\<rparr>\<rparr> in
      gbind (write_slot X (pb_segment_state X) sdb (Segment_dbKey st) st) (\<lambda>_.
      gbind (Block_WriteState X blk') (\<lambda>_.
      gbind (GetSegmentById X sdb uid) (\<lambda>aseg.
      gbind (gasks (seg_state X aseg)) (\<lambda>ast.
      gbind (if ss_Status ast = DISJOINTED then queue_push X aseg else gret ()) (\<lambda>_.
      gret (aseg, blk')))))))"

definition Segment_RewindOnce ::
  "('e, 'x) externals_scheme \<Rightarrow> db_view \<Rightarrow> string \<Rightarrow> strategy \<Rightarrow> block_validator option \<Rightarrow>
     db_view \<Rightarrow> (('e, 'z) seg_world_scheme, unit) go" where
  "Segment_RewindOnce X sdb sid encStrat blockValidator blockDbm =
     gbind (gasks (seg_state X sid)) (\<lambda>st.
     if ss_Status st \<noteq> DISJOINTED then gret ()
     else
     let tailRef = ss_TailBlock st in
     gbind (FollowBlockRef X tailRef encStrat) (\<lambda>tailBlk.
     gbind (GetBlock X encStrat blockDbm tailRef) (\<lambda>tailBlkObj.
     gbind (FollowBlockHeaderRef X (blk_BlockHeaderRef tailBlk) encStrat) (\<lambda>tailBlkHeader.
     let prevBlockRef = hdr_LastBlockRef tailBlkHeader in
     gbind (GetBlock X encStrat blockDbm prevBlockRef) (\<lambda>prevBlk.
     let prevSegmentID = bs_SegmentId (b_State prevBlk) in
     if prevSegmentID \<noteq> '''' then
       gbind (GetSegmentById X sdb prevSegmentID) (\<lambda>prevSegment.
       if prevSegment = sid then gfail (Errorf ''previous segment resolved to same segment'')
       else AppendSegment X sdb prevSegment sid encStrat blockValidator blockDbm)
     else
       let prevBlk' = prevBlk\<lparr>b_State := (b_State prevBlk)
             \<lparr>bs_SegmentId := ss_Id st, bs_NextBlock := b_blkRef tailBlkObj\<rparr>\<rparr> in
       gbind (Block_WriteState X prevBlk') (\<lambda>_.
       gbind (seg_update X sid (\<lambda>s. s\<lparr>ss_TailBlock := prevBlockRef,
         ss_TailBlockRound := hdr_RoundInfo (b_header prevBlk')\<rparr>)) (\<lambda>_.
       gbind (gtry (ValidateChild X prevBlk' tailBlkObj blockValidator)) (\<lambda>r.
       gbind (case r of
          Inl _ \<Rightarrow> seg_update X sid (\<lambda>s. s\<lparr>ss_Status := INVALID\<rparr>)
        | Inr isValid \<Rightarrow> seg_update X sid (\<lambda>s.
            if isValid \<and> ss_Status s \<noteq> INVALID then s\<lparr>ss_Status := VALID\<rparr> else s)) (\<lambda>_.
       Segment_writeState X sdb sid)))))))))"

text \<open>
  The store's step pops one segment, rewinds it and tells the handler (the chain) about the segment
  it ended up on. \<open>handler\<close> is nil or the method \<open>HandleSegmentUpdated\<close>.
\<close>

definition SegmentStore_RewindOnce ::
  "('e, 'x) externals_scheme \<Rightarrow> db_view \<Rightarrow> (string \<Rightarrow> (('e, 'z) seg_world_scheme, unit) go) option \<Rightarrow>
     strategy \<Rightarrow> block_validator option \<Rightarrow> db_view \<Rightarrow> (('e, 'z) seg_world_scheme, bool) go" where
  "SegmentStore_RewindOnce X sdb handler encStrat blockValidator blockDbm =
     gbind (queue_pop X) (\<lambda>popped.
     case popped of
       None \<Rightarrow> gret False
     | Some sid \<Rightarrow>
         gbind (gtry (Segment_RewindOnce X sdb sid encStrat blockValidator blockDbm)) (\<lambda>r.
         case r of
           Inl _ \<Rightarrow> gret False
         | Inr _ \<Rightarrow>
             gbind (gasks (\<lambda>w. ss_SegmentPrev (seg_state X sid w))) (\<lambda>prevSegID.
             gbind (if prevSegID \<noteq> '''' then gtry (GetSegmentById X sdb prevSegID)
                    else gret (Inr sid)) (\<lambda>nxt.
             case nxt of
               Inl _ \<Rightarrow> gret False
             | Inr nextSeg \<Rightarrow>
                 gbind (case handler of None \<Rightarrow> gret () | Some h \<Rightarrow> h nextSeg) (\<lambda>_.
                 gbind (gasks (\<lambda>w. ss_Status (seg_state X nextSeg w))) (\<lambda>currStatus.
                 gbind (if currStatus = DISJOINTED then queue_push X nextSeg else gret ()) (\<lambda>_.
                 gret True)))))))"

definition GetDigestKey :: "bytes \<Rightarrow> string" where
  "GetDigestKey hash = ''/'' @ hex_encode hash"

text \<open>\<open>dbList\<close> lists the keys of a database.\<close>

definition dbListSegments ::
  "('e \<Rightarrow> db_view \<Rightarrow> go_error + string list) \<Rightarrow> db_view \<Rightarrow> (('e, 'z) world_scheme, string list) go" where
  "dbListSegments dbList sdb =
     gbind (gext (\<lambda>e. dbList e sdb)) (\<lambda>keys. gret (map path_Base keys))"

section \<open>Library lemmas\<close>

lemma seg_state_update [simp]:
  "seg_state X t (w\<lparr>segmentMap := (segmentMap w)(sid \<mapsto> v)\<rparr>) = (if t = sid then v else seg_state X t w)"
  by (simp add: seg_state_def)

lemma seg_state_ext [simp]: "seg_state X t (w\<lparr>ext := e\<rparr>) = seg_state X t w"
  by (simp add: seg_state_def)

lemma seg_state_queue [simp]: "seg_state X t (w\<lparr>segmentQueue := q\<rparr>) = seg_state X t w"
  by (simp add: seg_state_def)

lemma seg_update_apply [simp]:
  "seg_update X sid f w = (Ok (), w\<lparr>segmentMap := (segmentMap w)(sid \<mapsto> f (seg_state X sid w))\<rparr>)"
  by (simp add: seg_update_def)

lemma keeps_Segment_writeState [keeps_intros]:
  "(\<And>w e. P w \<Longrightarrow> P (w\<lparr>ext := e\<rparr>)) \<Longrightarrow> keeps P (Segment_writeState X sdb sid)"
  unfolding Segment_writeState_def by (intro keeps_intros)

lemma keeps_Segment_readState [keeps_intros]: "keeps P (Segment_readState X sdb st)"
  unfolding Segment_readState_def by (intro keeps_intros)

lemma keeps_seg_update [keeps_intros]:
  "(\<And>w. P w \<Longrightarrow> P (w\<lparr>segmentMap := (segmentMap w)(sid \<mapsto> f (seg_state X sid w))\<rparr>)) \<Longrightarrow>
     keeps P (seg_update X sid f)"
  unfolding seg_update_def by (intro keeps_intros)

lemma keeps_queue_push [keeps_intros]:
  "(\<And>w. P w \<Longrightarrow> P (w\<lparr>segmentQueue := SegmentQueue_Push (tail_height X w) sid (segmentQueue w)\<rparr>)) \<Longrightarrow>
     keeps P (queue_push X sid)"
  unfolding queue_push_def by (intro keeps_intros)

lemma keeps_queue_pop [keeps_intros]:
  "(\<And>w. P w \<Longrightarrow> P (w\<lparr>segmentQueue := snd (SegmentQueue_Pop (tail_height X w) (segmentQueue w))\<rparr>)) \<Longrightarrow>
     keeps P (queue_pop X)"
  by (rule keepsI) (simp add: queue_pop_def split_def)

lemma keeps_GetSegmentById [keeps_intros]:
  assumes "\<And>w st. P w \<Longrightarrow> segmentMap w sid = None \<Longrightarrow> P (w\<lparr>segmentMap := (segmentMap w)(sid \<mapsto> st)\<rparr>)"
  shows "keeps P (GetSegmentById X sdb sid)"
proof (rule keepsI)
  fix w assume P: "P w"
  show "P (snd (GetSegmentById X sdb sid w))"
  proof (cases "segmentMap w sid")
    case None
    obtain r w1 where rd: "Segment_readState X sdb ((zero_segment X)\<lparr>ss_Id := sid\<rparr>) w = (r, w1)" by force
    then have "w1 = w" by (rule keeps_all_state [OF keeps_Segment_readState])
    with None rd P assms show ?thesis
      by (auto simp: GetSegmentById_def gbind_def split: res.splits)
  qed (use P in \<open>simp add: GetSegmentById_def gbind_def\<close>)
qed

text \<open>The keys of segments are listed as their identifiers.\<close>

lemma dbListSegments_ids:
  assumes "dbList (ext w) sdb = Inr (map Segment_dbKey sts)"
    and "\<And>st. st \<in> set sts \<Longrightarrow> ss_Id st \<noteq> '''' \<and> CHR ''/'' \<notin> set (ss_Id st)"
  shows "dbListSegments dbList sdb w = (Ok (map ss_Id sts), w)"
  using assms by (simp add: dbListSegments_def Segment_dbKey_def gbind_def path_Base_slash)

section \<open>A settled status is final\<close>

text \<open>A segment is settled once it is valid or invalid; no operation of the store changes that again.\<close>

definition settled :: "string \<Rightarrow> segment_status \<Rightarrow> ('e, 'z) seg_world_scheme \<Rightarrow> bool" where
  "settled t v w \<longleftrightarrow> v \<noteq> DISJOINTED \<and> (\<exists>st. segmentMap w t = Some st \<and> ss_Status st = v)"

lemma settled_frame [simp]:
  "settled t v (w\<lparr>ext := e\<rparr>) = settled t v w"
  "settled t v (w\<lparr>segmentQueue := q\<rparr>) = settled t v w"
  by (simp_all add: settled_def)

lemma settled_state: "settled t v w \<Longrightarrow> ss_Status (seg_state X t w) = v \<and> v \<noteq> DISJOINTED"
  by (auto simp: settled_def seg_state_def)

lemma settled_not_INVALID: "settled t v w \<Longrightarrow> v \<noteq> INVALID \<Longrightarrow> VALID = v"
  by (cases v) (auto simp: settled_def)

lemma settled_upd:
  "settled t v w \<Longrightarrow> (t = sid \<Longrightarrow> ss_Status st = v) \<Longrightarrow>
     settled t v (w\<lparr>segmentMap := (segmentMap w)(sid \<mapsto> st)\<rparr>)"
  by (auto simp: settled_def)

lemma AppendBlock_keeps_settled [keeps_intros]:
  "keeps (settled t u) (AppendBlock X sdb sid r b p v s)"
  unfolding AppendBlock_def Let_def
  by (intro keeps_intros) (auto intro!: settled_upd simp: settled_state settled_not_INVALID)

lemma AppendSegment_keeps_settled [keeps_intros]:
  "keeps (settled t u) (AppendSegment X sdb sid next s v h)"
proof (cases "t = next")
  case False
  then show ?thesis
    unfolding AppendSegment_def
    by (intro keeps_intros) (auto intro!: settled_upd simp: settled_state)
next
  case True
  then show ?thesis
    by (intro keepsI) (simp add: AppendSegment_def gbind_def settled_state)
qed

lemma GetSegmentById_keeps_settled [keeps_intros]: "keeps (settled t u) (GetSegmentById X sdb sid)"
  by (intro keeps_intros) (auto intro!: settled_upd simp: settled_def)

lemma Segment_RewindOnce_keeps_settled [keeps_intros]:
  "keeps (settled t u) (Segment_RewindOnce X sdb sid s v h)"
proof (cases "t = sid")
  case False
  then show ?thesis
    unfolding Segment_RewindOnce_def Let_def
    by (intro keeps_intros) (auto intro!: settled_upd simp: settled_state settled_def)
next
  case True
  then show ?thesis
    by (intro keepsI) (simp add: Segment_RewindOnce_def gbind_def settled_state)
qed

lemma NewSegment_keeps_settled [keeps_intros]: "keeps (settled t u) (NewSegment X sdb uid b r)"
  unfolding NewSegment_def Let_def
  by (intro keeps_intros) (auto intro!: settled_upd simp: settled_def)

lemma SegmentStore_RewindOnce_keeps_settled [keeps_intros]:
  assumes "\<And>h n. handler = Some h \<Longrightarrow> keeps (settled t u) (h n)"
  shows "keeps (settled t u) (SegmentStore_RewindOnce X sdb handler s v d)"
  unfolding SegmentStore_RewindOnce_def
  by (intro keeps_intros) (auto intro!: settled_upd assms simp: settled_def)

text \<open>
  \<open>AppendSegment\<close> is its two halves. When a block commit settles the segment that is being joined after
  its status was checked, the second half overwrites the verdict.
\<close>

lemma AppendSegment_halves:
  "AppendSegment X sdb sid next s v h =
     gbind (AppendSegment_check X sid next s v h) (AppendSegment_finish X sdb sid next)"
  by (simp only: AppendSegment_def AppendSegment_check_def AppendSegment_finish_def [abs_def] gbind_assoc gbind_if gbind_gfail)

lemma AppendSegment_finish_status:
  assumes "AppendSegment_finish X sdb sid next r w = (Ok (), w')" and "sid \<noteq> next"
  shows "ss_Status (seg_state X next w') = (case r of Inl _ \<Rightarrow> INVALID | Inr _ \<Rightarrow> ss_Status (seg_state X sid w))"
proof -
  have k: "keeps (\<lambda>w. ss_Status (seg_state X next w) = u) (Segment_writeState X sdb t)" for t u
    by (intro keeps_intros) simp
  show ?thesis
    using assms
    by (cases r) (auto simp: AppendSegment_finish_def gbind_Ok_iff dest!: keepsD [OF k, OF _ refl])
qed

theorem overlapping_join_revises_verdict:
  assumes check: "AppendSegment_check X sid next s v h w = (Ok (Inr ok), w)"
    and commit: "AppendBlock X sdb next r b p bv s w = (Ok (), w1)" "ss_Status (seg_state X next w1) = VALID"
    and finish: "AppendSegment_finish X sdb sid next (Inr ok) w1 = (Ok (), w2)" "sid \<noteq> next"
    and prev: "ss_Status (seg_state X sid w) = DISJOINTED" 
  shows "ss_Status (seg_state X next w2) = DISJOINTED"
proof -
  have "keeps (\<lambda>w. ss_Status (seg_state X sid w) = DISJOINTED) (AppendBlock X sdb next r b p bv s)"
    unfolding AppendBlock_def Let_def by (intro keeps_intros) (use finish(2) in auto)
  from keepsD [OF this commit(1) prev] AppendSegment_finish_status [OF finish] show ?thesis by simp
qed

section \<open>The queue only holds segments of the store\<close>

definition queue_inv :: "('e, 'z) seg_world_scheme \<Rightarrow> bool" where
  "queue_inv w \<longleftrightarrow>
     distinct (pq (segmentQueue w)) \<and> set (pq (segmentQueue w)) \<subseteq> dom (segmentMap w)"

lemma queue_inv_ext [simp]: "queue_inv (w\<lparr>ext := e\<rparr>) = queue_inv w"
  by (simp add: queue_inv_def)

lemma queue_inv_upd: "queue_inv w \<Longrightarrow> queue_inv (w\<lparr>segmentMap := (segmentMap w)(sid \<mapsto> v)\<rparr>)"
  by (auto simp: queue_inv_def)

lemma queue_inv_push:
  "queue_inv w \<Longrightarrow> sid \<in> dom (segmentMap w) \<Longrightarrow>
     queue_inv (w\<lparr>segmentQueue := SegmentQueue_Push hgt sid (segmentQueue w)\<rparr>)"
  by (simp add: queue_inv_def seg_pending.invar_push seg_pending.elems_push)

lemma queue_inv_pop:
  assumes "queue_inv w"
  shows "queue_inv (w\<lparr>segmentQueue := snd (SegmentQueue_Pop hgt (segmentQueue w))\<rparr>)"
proof -
  obtain r q where pop: "SegmentQueue_Pop hgt (segmentQueue w) = (r, q)" by force
  show ?thesis
  proof (cases r)
    case None
    with pop seg_pending.pop_None [of hgt "segmentQueue w" q] assms show ?thesis by (simp add: queue_inv_def)
  next
    case (Some a)
    with pop seg_pending.pop_Some [of "segmentQueue w" hgt a q] assms
    show ?thesis by (auto simp: queue_inv_def)
  qed
qed

lemmas queue_inv_rules = queue_inv_upd queue_inv_push queue_inv_pop

lemma GetSegmentById_loaded:
  "GetSegmentById X sdb sid w = (Ok t, w') \<Longrightarrow> t = sid \<and> sid \<in> dom (segmentMap w')"
  by (auto simp: GetSegmentById_def gbind_Ok_iff split: option.splits)

lemma AppendBlock_keeps_queue [keeps_intros]: "keeps queue_inv (AppendBlock X sdb sid r b p v s)"
  unfolding AppendBlock_def Let_def by (intro keeps_intros) (auto intro: queue_inv_rules)

lemma AppendSegment_keeps_queue [keeps_intros]: "keeps queue_inv (AppendSegment X sdb sid next s v h)"
  unfolding AppendSegment_def by (intro keeps_intros) (auto intro: queue_inv_rules)

lemma GetSegmentById_keeps_queue [keeps_intros]: "keeps queue_inv (GetSegmentById X sdb sid)"
  by (intro keeps_intros) (auto intro: queue_inv_rules)

lemma Segment_RewindOnce_keeps_queue [keeps_intros]:
  "keeps queue_inv (Segment_RewindOnce X sdb sid s v h)"
  unfolding Segment_RewindOnce_def Let_def by (intro keeps_intros) (auto intro: queue_inv_rules)

text \<open>
  A push needs its segment to be in the store. \<open>loaded t\<close> is that assertion, kept by every
  operation because segments are never dropped from the map.
\<close>

definition loaded :: "string \<Rightarrow> ('e, 'z) seg_world_scheme \<Rightarrow> bool" where
  "loaded t w \<longleftrightarrow> t \<in> dom (segmentMap w)"

lemma loaded_rules [simp]:
  "loaded t (w\<lparr>ext := e\<rparr>) = loaded t w"
  "loaded t (w\<lparr>segmentQueue := q\<rparr>) = loaded t w"
  "loaded t (w\<lparr>segmentMap := (segmentMap w)(sid \<mapsto> v)\<rparr>) = (t = sid \<or> loaded t w)"
  by (auto simp: loaded_def)

lemma AppendSegment_keeps_loaded [keeps_intros]: "keeps (loaded t) (AppendSegment X sdb sid next s v h)"
  unfolding AppendSegment_def by (intro keeps_intros) auto

lemma GetSegmentById_keeps_loaded [keeps_intros]: "keeps (loaded t) (GetSegmentById X sdb sid)"
  by (intro keeps_intros) auto

lemma Segment_RewindOnce_keeps_loaded [keeps_intros]:
  "keeps (loaded t) (Segment_RewindOnce X sdb sid s v h)"
  unfolding Segment_RewindOnce_def Let_def by (intro keeps_intros) auto

lemma GetSegmentById_establishes: "GetSegmentById X sdb sid w = (Ok t, w') \<Longrightarrow> loaded t w'"
  by (drule GetSegmentById_loaded) (simp add: loaded_def)

lemma queue_push_keeps: "keeps (\<lambda>w. queue_inv w \<and> loaded t w) (queue_push X t)"
  by (intro keeps_intros) (auto intro: queue_inv_push simp: loaded_def)

lemma queue_push_if_keeps:
  "keeps (\<lambda>w. queue_inv w \<and> loaded t w) (gbind (gasks f) (\<lambda>c.
     gbind (if g c = DISJOINTED then queue_push X t else gret ()) (\<lambda>_. gret r)))"
  by (intro keeps_gbind keeps_gasks keeps_if queue_push_keeps keeps_gret)

lemma GetSegmentById_push_keeps:
  "keeps queue_inv (gbind (GetSegmentById X sdb uid) (\<lambda>aseg. gbind (gasks (f aseg)) (\<lambda>ast.
     gbind (if g ast = DISJOINTED then queue_push X aseg else gret ()) (\<lambda>_. gret (r aseg)))))"
  by (rule keeps_gbind_with [where Q = loaded])
     (simp_all add: GetSegmentById_keeps_queue queue_push_if_keeps GetSegmentById_establishes)

lemma NewSegment_keeps_queue [keeps_intros]: "keeps queue_inv (NewSegment X sdb uid b r)"
  unfolding NewSegment_def Let_def
  by (rule keeps_gbind, rule keeps_write_slot, simp, rule keeps_gbind, rule keeps_Block_WriteState,
      simp, rule GetSegmentById_push_keeps)

lemma queue_pop_establishes:
  assumes "queue_inv w" and "queue_pop X w = (Ok (Some sid), w')"
  shows "loaded sid w'"
proof -
  obtain q where pop: "SegmentQueue_Pop (tail_height X w) (segmentQueue w) = (Some sid, q)"
      and w': "w' = w\<lparr>segmentQueue := q\<rparr>"
    using assms(2) by (auto simp: queue_pop_def split: prod.splits)
  from assms(1) have "distinct (pq (segmentQueue w))" by (simp add: queue_inv_def)
  with pop seg_pending.pop_Some [of "segmentQueue w" "tail_height X w" sid q]
  have "sid \<in> set (pq (segmentQueue w))" by auto
  with assms(1) w' show ?thesis by (auto simp: queue_inv_def loaded_def)
qed

lemma queue_pop_keeps_queue [keeps_intros]: "keeps queue_inv (queue_pop X)"
  by (rule keeps_queue_pop) (rule queue_inv_pop)

text \<open>What the step needs of its handler, stated for any two assertions on the store.\<close>

definition handler_ok :: "(string \<Rightarrow> (('e, 'z) seg_world_scheme, unit) go) option \<Rightarrow> bool" where
  "handler_ok handler \<longleftrightarrow>
     (\<forall>h n t. handler = Some h \<longrightarrow> keeps queue_inv (h n) \<and> keeps (loaded t) (h n))"

text \<open>The step's tail: the handler is told about \<open>n\<close>, which is queued again while it is disjointed.\<close>

lemma notify_requeue_keeps:
  assumes "handler_ok handler"
  shows "keeps (\<lambda>w. (queue_inv w \<and> loaded sid w) \<and> loaded n w)
    (gbind (case handler of None \<Rightarrow> gret () | Some h \<Rightarrow> h n) (\<lambda>_.
     gbind (gasks f) (\<lambda>c. gbind (if c = DISJOINTED then queue_push X n else gret ()) (\<lambda>_. gret True))))"
proof (intro keeps_gbind keeps_gasks keeps_gret keeps_if keeps_case_option)
  fix h assume "handler = Some h"
  with assms show "keeps (\<lambda>w. (queue_inv w \<and> loaded sid w) \<and> loaded n w) (h n)"
    by (intro keeps_conj) (simp_all add: handler_ok_def)
next
  show "keeps (\<lambda>w. (queue_inv w \<and> loaded sid w) \<and> loaded n w) (queue_push X n)"
    by (rule keeps_queue_push) (auto intro: queue_inv_push simp: loaded_def)
qed

lemma rewound_keeps_queue:
  assumes "handler_ok handler"
  shows "keeps (\<lambda>w. queue_inv w \<and> loaded sid w)
    (gbind (if p \<noteq> '''' then gtry (GetSegmentById X sdb p) else gret (Inr sid)) (\<lambda>nxt.
       case nxt of Inl _ \<Rightarrow> gret False | Inr n \<Rightarrow>
         gbind (case handler of None \<Rightarrow> gret () | Some h \<Rightarrow> h n) (\<lambda>_.
         gbind (gasks (f n)) (\<lambda>c.
         gbind (if c = DISJOINTED then queue_push X n else gret ()) (\<lambda>_. gret True)))))"
proof (rule keeps_gbind_with [where Q = "\<lambda>nxt w. case nxt of Inl _ \<Rightarrow> True | Inr n \<Rightarrow> loaded n w"])
  show "keeps (\<lambda>w. queue_inv w \<and> loaded sid w)
      (if p \<noteq> '''' then gtry (GetSegmentById X sdb p) else gret (Inr sid))"
    by (intro keeps_if keeps_gtry keeps_conj keeps_gret GetSegmentById_keeps_queue
        GetSegmentById_keeps_loaded)
next
  fix x s t
  assume "queue_inv s \<and> loaded sid s"
    and "(if p \<noteq> '''' then gtry (GetSegmentById X sdb p) else gret (Inr sid)) s = (Ok x, t)"
  then show "case x of Inl _ \<Rightarrow> True | Inr n \<Rightarrow> loaded n t"
    by (auto simp: gtry_Ok_iff GetSegmentById_establishes split: if_splits)
next
  fix x :: "go_error + string"
  show "keeps (\<lambda>t. (queue_inv t \<and> loaded sid t) \<and> (case x of Inl _ \<Rightarrow> True | Inr n \<Rightarrow> loaded n t))
      (case x of Inl _ \<Rightarrow> gret False | Inr n \<Rightarrow>
         gbind (case handler of None \<Rightarrow> gret () | Some h \<Rightarrow> h n) (\<lambda>_.
         gbind (gasks (f n)) (\<lambda>c.
         gbind (if c = DISJOINTED then queue_push X n else gret ()) (\<lambda>_. gret True))))"
    using notify_requeue_keeps [OF assms] by (cases x) (simp_all add: keeps_gret)
qed

lemma SegmentStore_RewindOnce_keeps_queue [keeps_intros]:
  assumes h: "handler_ok handler"
  shows "keeps queue_inv (SegmentStore_RewindOnce X sdb handler s v d)"
  unfolding SegmentStore_RewindOnce_def
proof (rule keeps_gbind_with [where Q = "\<lambda>p w. case p of None \<Rightarrow> True | Some t \<Rightarrow> loaded t w"],
    rule queue_pop_keeps_queue, goal_cases)
  case (1 x w t)
  then show ?case by (auto simp: queue_pop_establishes split: option.split)
next
  case (2 x)
  show ?case
  proof (cases x)
    case (Some sid)
    then show ?thesis
      by (simp, intro keeps_gbind keeps_gtry keeps_case_sum keeps_gasks keeps_gret keeps_conj
          Segment_RewindOnce_keeps_queue Segment_RewindOnce_keeps_loaded rewound_keeps_queue h)
  qed (simp add: keeps_gret)
qed

section \<open>What an append and a rewind leave behind\<close>

definition block_path :: "block \<Rightarrow> string" where
  "block_path b = concat (b_dbm b) @ b_dbKey b"

definition segment_path :: "db_view \<Rightarrow> segment_state \<Rightarrow> string" where
  "segment_path sdb st = concat sdb @ Segment_dbKey st"

text \<open>The laws of the services that the segment store writes through.\<close>

definition store_ok :: "('e, 'x) externals_scheme \<Rightarrow> bool" where
  "store_ok X \<longleftrightarrow> db_ok X \<and> objects_ok X \<and> codec_ok (pb_block_state X) \<and> codec_ok (pb_segment_state X)"

lemma read_slot_ext: "ext w' = ext w \<Longrightarrow> fst (read_slot X c h k old w') = fst (read_slot X c h k old w)"
  by (auto simp: read_slot_def gbind_def split: res.splits option.splits)

lemma Block_reads_written:
  assumes "db_ok X" "codec_ok (pb_block_state X)" "Block_WriteState X b w = (Ok (), w')"
    and "block_path b' = block_path b"
  shows "fst (read_slot X (pb_block_state X) (b_dbm b') (b_dbKey b') old w') = Ok (b_State b)"
  using read_after_write [OF assms(1,2) assms(3) [unfolded Block_WriteState_def GetDbKey_def]] assms(4)
  by (simp add: block_path_def)

lemma Segment_reads_written:
  assumes "db_ok X" "codec_ok (pb_segment_state X)" "Segment_writeState X sdb sid w = (Ok (), w')"
    and "ss_Id st = ss_Id (seg_state X sid w)"
  shows "Segment_readState X sdb st w' = (Ok (seg_state X sid w), w')"
  using assms(3,4)
  by (auto simp: Segment_writeState_def Segment_readState_def Segment_dbKey_def gbind_def
      intro: read_after_write [OF assms(1,2)])

lemma Segment_writeState_seg_state:
  "Segment_writeState X sdb sid w = (r, w') \<Longrightarrow> seg_state X t w' = seg_state X t w"
  by (rule keepsD [of "\<lambda>w'. seg_state X t w' = seg_state X t w", OF keeps_Segment_writeState])
     simp_all

lemma Segment_writeState_all:
  "Segment_writeState X sdb sid w = (r, w') \<Longrightarrow> \<forall>t. seg_state X t w' = seg_state X t w"
  using Segment_writeState_seg_state by blast

lemma Block_WriteState_seg_state:
  "Block_WriteState X b w = (r, w') \<Longrightarrow> seg_state X t w' = seg_state X t w"
  by (rule keepsD [of "\<lambda>w'. seg_state X t w' = seg_state X t w", OF keeps_Block_WriteState]) simp_all

lemma Segment_write_other:
  assumes "db_ok X" "Segment_writeState X sdb sid w = (Ok (), w')"
    and "concat h @ k \<noteq> segment_path sdb (seg_state X sid w)"
  shows "fst (read_slot X c h k old w') = fst (read_slot X c h k old w)"
  using read_other_after_write [OF assms(1)] assms(2,3)
  by (simp add: Segment_writeState_def gbind_def segment_path_def)

lemma Segment_commit_other:
  assumes "db_ok X" "Segment_writeState X sdb sid (w\<lparr>segmentMap := m\<rparr>) = (Ok (), w')"
    and "concat h @ k \<noteq> segment_path sdb (seg_state X sid (w\<lparr>segmentMap := m\<rparr>))"
  shows "fst (read_slot X c h k old w') = fst (read_slot X c h k old w)"
  using Segment_write_other [OF assms, of c old] read_slot_ext [of "w\<lparr>segmentMap := m\<rparr>" w X c h k old] by simp

lemma Block_write_other:
  assumes "db_ok X" "Block_WriteState X b w = (Ok (), w')" "concat h @ k \<noteq> block_path b"
  shows "fst (read_slot X c h k old w') = fst (read_slot X c h k old w)"
  using read_other_after_write [OF assms(1)] assms(2,3)
  by (simp add: Block_WriteState_def block_path_def GetDbKey_def)

lemma AppendBlock_unlinked:
  assumes "bs_NextBlock (b_State p) = None" "AppendBlock X sdb sid r b p v s w = (Ok (), w')"
  obtains ok w1 w2 where "ss_SegmentNext (seg_state X sid w) = ''''"
    "ValidateChild X p b v w = (Ok ok, w)"
    "Block_WriteState X (p\<lparr>b_State := (b_State p)\<lparr>bs_NextBlock := r\<rparr>\<rparr>) w = (Ok (), w1)"
    "Block_WriteState X (b\<lparr>b_State := (b_State b)\<lparr>bs_SegmentId := bs_SegmentId (b_State p)\<rparr>\<rparr>) w1
       = (Ok (), w2)"
    "Segment_writeState X sdb sid (w2\<lparr>segmentMap := (segmentMap w2)(sid \<mapsto>
       (let st' = (seg_state X sid w2)\<lparr>ss_HeadBlock := r\<rparr> in
        if ok \<and> ss_Status st' \<noteq> INVALID then st'\<lparr>ss_Status := VALID\<rparr> else st'))\<rparr>) = (Ok (), w')"
  using assms
  by (auto simp: AppendBlock_def gbind_Ok_iff split: if_splits dest: ValidateChild_state)

definition append_status :: "bool \<Rightarrow> segment_status \<Rightarrow> segment_status" where
  "append_status ok status = (if ok \<and> status \<noteq> INVALID then VALID else status)"

lemma append_status_record:
  "(let st' = st\<lparr>ss_HeadBlock := r\<rparr> in if ok \<and> ss_Status st' \<noteq> INVALID then st'\<lparr>ss_Status := VALID\<rparr> else st') =
     st\<lparr>ss_HeadBlock := r, ss_Status := append_status ok (ss_Status st)\<rparr>"
  by (cases st) (simp add: Let_def append_status_def)

lemma read_slot_Ok: "fst (read_slot X c h k old w) = Ok v \<Longrightarrow> read_slot X c h k old w = (Ok v, w)"
  by (metis prod.collapse read_slot_pure)

lemma AppendBlock_linked_state:
  assumes X: "store_ok X"
    and paths: "block_path p \<noteq> block_path b" "block_path p \<noteq> segment_path sdb (seg_state X sid w)"
      "block_path b \<noteq> segment_path sdb (seg_state X sid w)"
    and unlinked: "bs_NextBlock (b_State p) = None"
    and run: "AppendBlock X sdb sid r b p v s w = (Ok (), w')"
  shows "\<exists>ok. validator_verdict v b p = Ok ok \<and> valid_child X (ext w) p b \<and>
    seg_state X sid w' = (seg_state X sid w)
      \<lparr>ss_HeadBlock := r, ss_Status := append_status ok (ss_Status (seg_state X sid w))\<rparr> \<and>
    (\<forall>st. Block_ReadState X (p\<lparr>b_State := st\<rparr>) w' =
      (Ok (p\<lparr>b_State := (b_State p)\<lparr>bs_NextBlock := r\<rparr>\<rparr>), w')) \<and>
    (\<forall>st. Block_ReadState X (b\<lparr>b_State := st\<rparr>) w' =
      (Ok (b\<lparr>b_State := (b_State b)\<lparr>bs_SegmentId := bs_SegmentId (b_State p)\<rparr>\<rparr>), w')) \<and>
    (\<forall>st. ss_Id st = ss_Id (seg_state X sid w) \<longrightarrow> Segment_readState X sdb st w' = (Ok (seg_state X sid w'), w'))"
proof -
  note ok = X [unfolded store_ok_def]
  let ?p = "p\<lparr>b_State := (b_State p)\<lparr>bs_NextBlock := r\<rparr>\<rparr>"
  let ?b = "b\<lparr>b_State := (b_State b)\<lparr>bs_SegmentId := bs_SegmentId (b_State p)\<rparr>\<rparr>"
  from unlinked run obtain m w1 w2 where val: "ValidateChild X p b v w = (Ok m, w)"
    and w1: "Block_WriteState X ?p w = (Ok (), w1)" and w2: "Block_WriteState X ?b w1 = (Ok (), w2)"
    and ws: "Segment_writeState X sdb sid (w2\<lparr>segmentMap := (segmentMap w2)(sid \<mapsto>
       (let st' = (seg_state X sid w2)\<lparr>ss_HeadBlock := r\<rparr> in
        if m \<and> ss_Status st' \<noteq> INVALID then st'\<lparr>ss_Status := VALID\<rparr> else st'))\<rparr>) = (Ok (), w')"
    by (rule AppendBlock_unlinked)
  have st2: "seg_state X sid w2 = seg_state X sid w"
    using w1 w2 Block_WriteState_seg_state by metis
  let ?st = "(seg_state X sid w)\<lparr>ss_HeadBlock := r, ss_Status := append_status m (ss_Status (seg_state X sid w))\<rparr>"
  let ?w3 = "w2\<lparr>segmentMap := (segmentMap w2)(sid \<mapsto> ?st)\<rparr>"
  have ws: "Segment_writeState X sdb sid ?w3 = (Ok (), w')"
    using ws by (simp only: append_status_record st2)
  have st: "seg_state X sid w' = ?st" using Segment_writeState_seg_state [OF ws] by simp
  have seg: "Segment_readState X sdb t w' = (Ok (seg_state X sid w'), w')" if "ss_Id t = ss_Id (seg_state X sid w)" for t
    using Segment_reads_written [OF _ _ ws, of t] ok st that by simp
  have other: "fst (read_slot X (pb_block_state X) h k old w') = fst (read_slot X (pb_block_state X) h k old w2)"
    if "concat h @ k \<noteq> segment_path sdb (seg_state X sid w)" for h k old
    by (rule Segment_commit_other [OF _ ws]) (use ok that in \<open>simp_all add: segment_path_def Segment_dbKey_def\<close>)
  have rb: "fst (read_slot X (pb_block_state X) (b_dbm b) (b_dbKey b) old w') = Ok (b_State ?b)" for old
    using other [of "b_dbm b" "b_dbKey b"] paths(3) Block_reads_written [OF _ _ w2, of b] ok
    by (simp add: block_path_def)
  have rp: "fst (read_slot X (pb_block_state X) (b_dbm p) (b_dbKey p) old w') = Ok (b_State ?p)" for old
    using other [of "b_dbm p" "b_dbKey p"] paths(1,2) Block_reads_written [OF _ _ w1, of p]
      Block_write_other [OF _ w2, of "b_dbm p" "b_dbKey p" "pb_block_state X"] ok
    by (simp add: block_path_def)
  from val validate_child_rule have "valid_child X (ext w) p b \<and> validator_verdict v b p = Ok m" by blast
  with st seg read_slot_Ok [OF rb] read_slot_Ok [OF rp] show ?thesis
    by (auto simp: Block_ReadState_def GetDbKey_def gbind_def)
qed

text \<open>A successful append of a block to an unlinked parent records the link everywhere. The child
  satisfies the child rule; the segment's head becomes the new block and its status becomes valid
  exactly when the application's validator says so and the segment is not invalid; and re-reading the
  database gives the parent with its next pointer set to the child, the child with the parent's
  segment, and the segment as it is in memory.\<close>

theorem append_block_links:
  assumes "store_ok X"
    and "block_path p \<noteq> block_path b" "block_path p \<noteq> segment_path sdb (seg_state X sid w)"
      "block_path b \<noteq> segment_path sdb (seg_state X sid w)"
    and "bs_NextBlock (b_State p) = None"
    and "AppendBlock X sdb sid r b p v s w = (Ok (), w')"
  shows "\<exists>ok. validator_verdict v b p = Ok ok \<and> valid_child X (ext w) p b \<and>
    seg_state X sid w' = (seg_state X sid w)
      \<lparr>ss_HeadBlock := r, ss_Status := append_status ok (ss_Status (seg_state X sid w))\<rparr> \<and>
    (\<forall>st. Block_ReadState X (p\<lparr>b_State := st\<rparr>) w' =
      (Ok (p\<lparr>b_State := (b_State p)\<lparr>bs_NextBlock := r\<rparr>\<rparr>), w')) \<and>
    (\<forall>st. Block_ReadState X (b\<lparr>b_State := st\<rparr>) w' =
      (Ok (b\<lparr>b_State := (b_State b)\<lparr>bs_SegmentId := bs_SegmentId (b_State p)\<rparr>\<rparr>), w')) \<and>
    (\<forall>st. ss_Id st = ss_Id (seg_state X sid w) \<longrightarrow> Segment_readState X sdb st w' = (Ok (seg_state X sid w'), w'))"
  using assms by (rule AppendBlock_linked_state)

text \<open>An append that is refused changes nothing. When the parent already has a next block, or the
  segment already has a next segment, or the block breaks the child rule, the state is left exactly
  as it was, and the call succeeds only if the parent's next block has the same header as the block
  that is being appended.\<close>

theorem append_block_refused:
  assumes "bs_NextBlock (b_State p) \<noteq> None \<or> ss_SegmentNext (seg_state X sid w) \<noteq> '''' \<or>
      \<not> valid_child X (ext w) p b"
    and "AppendBlock X sdb sid r b p v s w = (res, w')"
  shows "w' = w \<and> (res = Ok () \<longrightarrow> (\<exists>pr nb. bs_NextBlock (b_State p) = Some pr \<and>
    FollowBlockRef X (Some pr) s w = (Ok nb, w) \<and>
    ref_equals X (blk_BlockHeaderRef nb) (blk_BlockHeaderRef (b_blk b))))"
proof (cases "bs_NextBlock (b_State p)")
  case (Some pr)
  obtain rf wf where f: "FollowBlockRef X (Some pr) s w = (rf, wf)" by force
  with FollowBlockRef_state have "wf = w" by blast
  with Some f assms(2) show ?thesis
    by (cases rf) (auto simp: AppendBlock_def gbind_def split: if_splits)
next
  case None
  obtain rv wv where val: "ValidateChild X p b v w = (rv, wv)" by force
  with ValidateChild_state have wv: "wv = w" by blast
  show ?thesis
  proof (cases "ss_SegmentNext (seg_state X sid w) = ''''")
    case True
    with None assms(1) have "\<not> valid_child X (ext w) p b" by simp
    with val wv validate_child_rule have "\<And>m. rv \<noteq> Ok m" by metis
    with None True val wv assms(2) show ?thesis
      by (cases rv) (auto simp: AppendBlock_def gbind_def)
  qed (use None assms(2) in \<open>auto simp: AppendBlock_def gbind_def\<close>)
qed

definition rewind_status ::
  "('e, 'x) externals_scheme \<Rightarrow> 'e \<Rightarrow> block_validator option \<Rightarrow> block \<Rightarrow> block \<Rightarrow> segment_status" where
  "rewind_status X e v prev tail =
     (if \<not> valid_child X e prev tail then INVALID
      else case validator_verdict v tail prev of
             Ok ok \<Rightarrow> (if ok then VALID else DISJOINTED)
           | _ \<Rightarrow> INVALID)"

text \<open>The previous block as the rewind writes it: it joins the segment and points to the old tail.\<close>

definition rewound_prev :: "segment_state \<Rightarrow> block \<Rightarrow> block \<Rightarrow> block" where
  "rewound_prev st prev tail =
     prev\<lparr>b_State := (b_State prev)\<lparr>bs_SegmentId := ss_Id st, bs_NextBlock := b_blkRef tail\<rparr>\<rparr>"

definition rewound_state :: "segment_state \<Rightarrow> block \<Rightarrow> block \<Rightarrow> segment_status \<Rightarrow> segment_state" where
  "rewound_state st prev tail status =
     st\<lparr>ss_TailBlock := hdr_LastBlockRef (b_header tail),
       ss_TailBlockRound := hdr_RoundInfo (b_header prev), ss_Status := status\<rparr>"

lemma valid_child_objects:
  assumes "objects_ok X" "Block_WriteState X b w = (r, w')"
  shows "valid_child X (ext w') (rewound_prev st prev tail) tail = valid_child X (ext w) prev tail"
proof -
  note same = write_slot_objects(3,4) [OF assms(1) assms(2) [unfolded Block_WriteState_def]]
  have "chain_config_of X (ext w') = chain_config_of X (ext w)"
    "validator_set_of X (ext w') = validator_set_of X (ext w)"
    by (simp_all add: fun_eq_iff chain_config_of_def validator_set_of_def same split: res.split)
  then show ?thesis
    by (simp add: valid_child_def expected_proposer_def block_time_def block_height_def rewound_prev_def)
qed

lemma GetBlock_parts:
  assumes "GetBlock X s h ref w = (Ok b, w)"
  shows "FollowBlockRef X ref s w = (Ok (b_blk b), w)"
    "FollowBlockHeaderRef X (blk_BlockHeaderRef (b_blk b)) s w = (Ok (b_header b), w)"
  using assms by (auto simp: GetBlock_split)

lemma ValidateChild_status:
  assumes "ValidateChild X p t v w = (r, w1)" "r \<noteq> Panic"
  shows "rewind_status X (ext w) v p t =
    (case r of Ok ok \<Rightarrow> (if ok then VALID else DISJOINTED) | _ \<Rightarrow> INVALID)"
proof (cases r)
  case (Ok m)
  with assms(1) validate_child_rule have "valid_child X (ext w) p t \<and> validator_verdict v t p = Ok m"
    by blast
  with Ok show ?thesis by (simp add: rewind_status_def)
next
  case (Err e)
  with assms(1) have "\<not> (valid_child X (ext w) p t \<and> validator_verdict v t p = Ok m)" for m
    using validate_child_rule [of X p t v w m w] by auto
  with Err show ?thesis by (auto simp: rewind_status_def split: res.splits)
qed (use assms in simp)

lemma valid_child_rewound [simp]: "valid_child X e (rewound_prev st prev tail) tail = valid_child X e prev tail"
  by (simp add: valid_child_def expected_proposer_def block_time_def block_height_def rewound_prev_def)

lemma disjointed_again:
  "ss_Status st = DISJOINTED \<Longrightarrow>
     st\<lparr>ss_TailBlock := a, ss_TailBlockRound := r, ss_Status := DISJOINTED\<rparr> =
     st\<lparr>ss_TailBlock := a, ss_TailBlockRound := r\<rparr>"
  by (cases st) simp

lemma RewindOnce_include:
  assumes st: "ss_Status (seg_state X sid w) = DISJOINTED"
    and tail: "GetBlock X s h (ss_TailBlock (seg_state X sid w)) w = (Ok tb, w)"
    and prev: "GetBlock X s h (hdr_LastBlockRef (b_header tb)) w = (Ok pb, w)"
    and free: "bs_SegmentId (b_State pb) = ''''" and obj: "objects_ok X"
    and run: "Segment_RewindOnce X sdb sid s v h w = (Ok (), w')"
  obtains w1 where
    "Block_WriteState X (rewound_prev (seg_state X sid w) pb tb) w = (Ok (), w1)"
    "Segment_writeState X sdb sid (w1\<lparr>segmentMap := (segmentMap w1)(sid \<mapsto>
       rewound_state (seg_state X sid w) pb tb
         (rewind_status X (ext w) v (rewound_prev (seg_state X sid w) pb tb) tb))\<rparr>) = (Ok (), w')"
proof -
  let ?st = "seg_state X sid w"
  let ?pb = "rewound_prev ?st pb tb"
  note parts = GetBlock_parts [OF tail]
  obtain r1 w1 where wr: "Block_WriteState X ?pb w = (r1, w1)" by force
  have pb: "pb\<lparr>b_State := (b_State pb)\<lparr>bs_SegmentId := ss_Id ?st, bs_NextBlock := b_blkRef tb\<rparr>\<rparr> = ?pb"
    by (simp add: rewound_prev_def)
  have hd: "b_header ?pb = b_header pb" by (simp add: rewound_prev_def)
  have "r1 = Ok ()"
    using run st tail prev free parts wr
    by (cases r1) (auto simp: Segment_RewindOnce_def Let_def gbind_def pb)
  with wr have wr: "Block_WriteState X ?pb w = (Ok (), w1)" by simp
  have st1: "seg_state X sid w1 = ?st" using Block_WriteState_seg_state [OF wr] .
  let ?w2 = "w1\<lparr>segmentMap := (segmentMap w1)(sid \<mapsto> ?st\<lparr>ss_TailBlock := hdr_LastBlockRef (b_header tb),
    ss_TailBlockRound := hdr_RoundInfo (b_header ?pb)\<rparr>)\<rparr>"
  obtain rv wv where val: "ValidateChild X ?pb tb v ?w2 = (rv, wv)" by force
  have wv: "wv = ?w2" using val by (rule ValidateChild_state)
  have fin: "rv \<noteq> Panic \<and> Segment_writeState X sdb sid (w1\<lparr>segmentMap := (segmentMap w1)(sid \<mapsto>
      rewound_state ?st pb tb (case rv of Ok ok \<Rightarrow> (if ok then VALID else DISJOINTED) | _ \<Rightarrow> INVALID))\<rparr>)
      = (Ok (), w')"
    using run st tail prev free parts wr val wv st1
    by (cases rv) (auto simp: Segment_RewindOnce_def Let_def gbind_def pb hd rewound_state_def disjointed_again)
  have "rewind_status X (ext w) v ?pb tb = rewind_status X (ext ?w2) v ?pb tb"
    using valid_child_objects [OF obj wr, of ?st pb tb] by (simp add: rewind_status_def)
  with fin ValidateChild_status [OF val] that [OF wr] show thesis by simp
qed

text \<open>C23: rewinding a disjointed segment whose previous block belongs to no segment moves the tail
  back by one block. Afterwards the tail is the old tail's last block reference with that block's
  round; the status is invalid when the old tail breaks the child rule or the application rejects it,
  valid when the application accepts it, and disjointed otherwise; the previous block, loaded again,
  carries the segment's identifier and points to the old tail; and the database holds the segment as
  it is in memory.\<close>

theorem rewind_extends_tail:
  assumes X: "store_ok X" and st: "ss_Status (seg_state X sid w) = DISJOINTED"
    and tail: "GetBlock X s h (ss_TailBlock (seg_state X sid w)) w = (Ok tb, w)"
    and prev: "GetBlock X s h (hdr_LastBlockRef (b_header tb)) w = (Ok pb, w)"
    and free: "bs_SegmentId (b_State pb) = ''''"
    and path: "block_path pb \<noteq> segment_path sdb (seg_state X sid w)"
    and run: "Segment_RewindOnce X sdb sid s v h w = (Ok (), w')"
  shows "seg_state X sid w' = rewound_state (seg_state X sid w) pb tb
        (rewind_status X (ext w) v (rewound_prev (seg_state X sid w) pb tb) tb) \<and>
    fst (Block_ReadState X pb w') = Ok (rewound_prev (seg_state X sid w) pb tb) \<and>
    Segment_readState X sdb (seg_state X sid w) w' = (Ok (seg_state X sid w'), w')"
proof -
  note ok = X [unfolded store_ok_def]
  let ?st = "seg_state X sid w"
  let ?pb = "rewound_prev ?st pb tb"
  let ?st' = "rewound_state ?st pb tb (rewind_status X (ext w) v ?pb tb)"
  from ok have "objects_ok X" by simp
  from RewindOnce_include [OF st tail prev free this run] obtain w1 where
    wr: "Block_WriteState X ?pb w = (Ok (), w1)" and
    ws: "Segment_writeState X sdb sid (w1\<lparr>segmentMap := (segmentMap w1)(sid \<mapsto> ?st')\<rparr>) = (Ok (), w')" .
  have st': "seg_state X sid w' = ?st'" using Segment_writeState_seg_state [OF ws] by simp
  have path': "concat (b_dbm pb) @ b_dbKey pb \<noteq>
      segment_path sdb (seg_state X sid (w1\<lparr>segmentMap := (segmentMap w1)(sid \<mapsto> ?st')\<rparr>))"
    using path by (simp add: block_path_def segment_path_def Segment_dbKey_def rewound_state_def)
  have "block_path pb = block_path ?pb" by (simp add: block_path_def rewound_prev_def)
  then have rd: "fst (read_slot X (pb_block_state X) (b_dbm pb) (b_dbKey pb) (b_State pb) w') = Ok (b_State ?pb)"
    using Segment_commit_other [OF _ ws path', of "pb_block_state X" "b_State pb"]
      Block_reads_written [OF _ _ wr, of pb] ok by simp
  have "pb\<lparr>b_State := b_State ?pb\<rparr> = ?pb" by (simp add: rewound_prev_def)
  with read_slot_Ok [OF rd] show ?thesis
    using st' Segment_reads_written [OF _ _ ws, of ?st] ok
    by (auto simp: Block_ReadState_def GetDbKey_def gbind_def rewound_state_def)
qed

text \<open>A disjointed segment whose tail is a block without a last block reference, such as the
  genesis block, cannot be rewound: the attempt panics on the slice of an empty digest, before
  anything is written. \<open>NewChain\<close> queues exactly such a segment.\<close>

theorem rewind_at_genesis_panics:
  assumes "ss_Status (seg_state X sid w) = DISJOINTED"
    and "GetBlock X s h (ss_TailBlock (seg_state X sid w)) w = (Ok tb, w)"
    and "hdr_LastBlockRef (b_header tb) = None"
  shows "Segment_RewindOnce X sdb sid s v h w = (Panic, w)"
  using assms GetBlock_parts [OF assms(2)]
  by (simp add: Segment_RewindOnce_def Let_def gbind_def GetBlock_short_digest)

lemma AppendSegment_run:
  assumes ne: "sid \<noteq> next" and st: "ss_Status (seg_state X next w) = DISJOINTED"
    and tail: "GetBlock X s h (ss_TailBlock (seg_state X next w)) w = (Ok tb, w)"
    and head: "GetBlock X s h (ss_HeadBlock (seg_state X sid w)) w = (Ok hb, w)"
    and val: "ValidateChild X hb tb v w = (r, w)" "r \<noteq> Panic"
  shows "AppendSegment X sdb sid next s v h w =
    (case r of
       Ok m \<Rightarrow> gbind (Segment_writeState X sdb next) (\<lambda>_.
         gbind (gasks (\<lambda>w. ss_Id (seg_state X next w))) (\<lambda>nextId.
         gbind (seg_update X sid (\<lambda>s. s\<lparr>ss_SegmentNext := nextId\<rparr>)) (\<lambda>_. Segment_writeState X sdb sid)))
         (w\<lparr>segmentMap := (segmentMap w)(next \<mapsto> (seg_state X next w)
            \<lparr>ss_Status := ss_Status (seg_state X sid w), ss_SegmentPrev := ss_Id (seg_state X sid w)\<rparr>)\<rparr>)
     | _ \<Rightarrow> Segment_writeState X sdb next
         (w\<lparr>segmentMap := (segmentMap w)(next \<mapsto> (seg_state X next w)\<lparr>ss_Status := INVALID\<rparr>)\<rparr>))"
proof (cases r)
  case (Ok m)
  have "(if m then (seg_state X next w)\<lparr>ss_Status := VALID\<rparr> else seg_state X next w)
      \<lparr>ss_Status := status, ss_SegmentPrev := i\<rparr> =
      (seg_state X next w)\<lparr>ss_Status := status, ss_SegmentPrev := i\<rparr>" for status i by simp
  with Ok assms show ?thesis by (simp add: AppendSegment_def gbind_def)
qed (use assms in \<open>simp_all add: AppendSegment_def gbind_def\<close>)

text \<open>C24: joining a disjointed segment to the segment before it. When its tail breaks the child rule
  with respect to the other segment's head, or the application rejects it, the segment is marked
  invalid and the other one is untouched. Otherwise the two are linked in both directions and the
  joined segment takes the status of the segment before it, whatever the verdict of the application's
  validator was: a positive verdict does not make it valid.\<close>

theorem append_segment_joins:
  assumes "sid \<noteq> next" "ss_Status (seg_state X next w) = DISJOINTED"
    and "GetBlock X s h (ss_TailBlock (seg_state X next w)) w = (Ok tb, w)"
    and "GetBlock X s h (ss_HeadBlock (seg_state X sid w)) w = (Ok hb, w)"
    and run: "AppendSegment X sdb sid next s v h w = (Ok (), w')"
  shows "if valid_child X (ext w) hb tb \<and> (\<exists>m. validator_verdict v tb hb = Ok m)
    then seg_state X next w' = (seg_state X next w)
           \<lparr>ss_Status := ss_Status (seg_state X sid w), ss_SegmentPrev := ss_Id (seg_state X sid w)\<rparr> \<and>
         seg_state X sid w' = (seg_state X sid w)\<lparr>ss_SegmentNext := ss_Id (seg_state X next w)\<rparr>
    else seg_state X next w' = (seg_state X next w)\<lparr>ss_Status := INVALID\<rparr> \<and>
         seg_state X sid w' = seg_state X sid w"
proof -
  obtain r w1 where val: "ValidateChild X hb tb v w = (r, w1)" by force
  with ValidateChild_state have val: "ValidateChild X hb tb v w = (r, w)" by blast
  have np: "r \<noteq> Panic" using assms val by (auto simp: AppendSegment_def gbind_def gtry_def)
  have iff: "(valid_child X (ext w) hb tb \<and> (\<exists>m. validator_verdict v tb hb = Ok m)) = (\<exists>m. r = Ok m)"
    using validate_child_rule [of X hb tb v w] val by (metis prod.inject)
  note run = run [unfolded AppendSegment_run [OF assms(1-4) val np]]
  show ?thesis
  proof (cases r)
    case (Ok m)
    with iff have "valid_child X (ext w) hb tb \<and> (\<exists>m. validator_verdict v tb hb = Ok m)" by simp
    with run Ok assms(1) show ?thesis
      by (auto simp: gbind_Ok_iff dest!: Segment_writeState_all)
  next
    case (Err e)
    with iff have "\<not> (valid_child X (ext w) hb tb \<and> (\<exists>m. validator_verdict v tb hb = Ok m))" by simp
    with run Err assms(1) show ?thesis by (auto dest!: Segment_writeState_all)
  qed (use np in simp)
qed

end
