(* ===== verification/Validators.thy ===== *)
theory Validators
  imports Blocks
begin

text \<open>
  Package \<^verbatim>\<open>validators\<close>: the block validators that can be chosen by name. Each is a value of the
  interface \<open>block.Validator\<close>; the name \<open>none\<close> stands for a nil validator.
\<close>

definition AllowAll_ValidateBlock :: block_validator where
  "AllowAll_ValidateBlock proposedBlk parentBlk = Ok False"

definition DenyAll_ValidateBlock :: block_validator where
  "DenyAll_ValidateBlock proposedBlk parentBlk =
     Err (Errorf ''deny policy set, rejecting all block proposals'')"

definition ImmutableValidatorSet_ValidateBlock :: block_validator where
  "ImmutableValidatorSet_ValidateBlock proposedBlk parentBlk =
     (case parentBlk of None \<Rightarrow> Ok False | Some _ \<Rightarrow> Ok False)"

definition builtInValidators :: "string \<rightharpoonup> block_validator option" where
  "builtInValidators =
     [''none'' \<mapsto> None,
      ''allow'' \<mapsto> Some AllowAll_ValidateBlock,
      ''deny'' \<mapsto> Some DenyAll_ValidateBlock,
      ''immutable-validator-set'' \<mapsto> Some ImmutableValidatorSet_ValidateBlock]"

definition GetBuiltInValidator :: "string \<Rightarrow> block_validator option res" where
  "GetBuiltInValidator name =
     (case builtInValidators name of
        None \<Rightarrow> Err (Errorf ''validator type %s not known'')
      | Some v \<Rightarrow> Ok v)"

lemma builtin_cases:
  "GetBuiltInValidator name = Ok v \<Longrightarrow>
     v \<in> {None, Some AllowAll_ValidateBlock, Some DenyAll_ValidateBlock,
          Some ImmutableValidatorSet_ValidateBlock}"
  by (auto simp: GetBuiltInValidator_def builtInValidators_def split: if_splits)

lemma builtin_verdict:
  assumes "GetBuiltInValidator name = Ok v"
  shows "validator_verdict v child parent =
    (if name = ''deny'' then Err (Errorf ''deny policy set, rejecting all block proposals'') else Ok False)"
  using assms
  by (auto simp: GetBuiltInValidator_def builtInValidators_def validator_verdict_def
      AllowAll_ValidateBlock_def DenyAll_ValidateBlock_def ImmutableValidatorSet_ValidateBlock_def
      split: if_splits)

text \<open>The built-in validators never vouch for a block. A validator selected by one of the known
  names never answers that the block should be trusted; with every name but \<open>deny\<close> a block passes
  \<open>ValidateChild\<close> exactly when it satisfies the child rule, and with \<open>deny\<close> no block passes.\<close>

theorem builtin_validators_decide:
  assumes "GetBuiltInValidator name = Ok v"
  shows "ValidateChild X b child v w = (Ok m, w') \<longleftrightarrow>
    w' = w \<and> valid_child X (ext w) b child \<and> \<not> m \<and> name \<noteq> ''deny''"
  using builtin_verdict [OF assms] by (auto simp: validate_child_rule)

end
