(* ===== verification/Chain.thy ===== *)
theory Chain
  imports Segments Validators
begin

text \<open>
  \<^verbatim>\<open>chain/chain.go\<close>, \<^verbatim>\<open>chain/chain_state.go\<close> and \<^verbatim>\<open>chain/state/state.go\<close>: the chain object. It
  keeps the head block and the persisted chain state, reacts to block commits and to segment updates,
  computes the current height and round from the clock, and publishes state snapshots to subscribers.

  The immutable fields of the Go struct are the record \<open>chain\<close>; the mutable ones extend the state.
  Every reading of the clock and every random identifier is an argument of the operation.
\<close>

section \<open>State\<close>

record snapshot =
  sn_Context :: nat
  sn_RoundStarted :: bool
  sn_BlockRoundInfo :: round_info
  sn_LastBlockHeader :: "block_header option"
  sn_LastBlockRef :: sref
  sn_CurrentProposer :: "validator option"
  sn_RoundEndTime :: time
  sn_RoundStartTime :: time
  sn_NextRoundStartTime :: time
  sn_TotalVotingPower :: int
  sn_ChainConfig :: chain_config
  sn_ValidatorSet :: validator_set

record chain =
  c_dbm :: db_view
  c_GenesisRef :: sref
  c_genesis :: genesis
  c_encStrat :: strategy
  c_pubsubTopic :: string
  c_blockValidator :: "block_validator option"

record 'e chain_world = "'e seg_world" +
  ch_state :: chain_state
  recheckStateTrigger :: "unit list"
  stateSnapshotCtx :: "nat option"
  canceledCtxs :: "nat list"
  lastStateSnapshot :: "snapshot option"
  stateSubs :: "int \<rightharpoonup> snapshot list"
  pendingSubs :: "int \<rightharpoonup> snapshot list"
  lastHeadDigest :: bytes
  lastBlock :: "block option"
  lastBlockHeader :: "block_header option"
  lastBlockRef :: sref

section \<open>Accessors and database views\<close>

definition GetBlockDbm :: "chain \<Rightarrow> db_view" where
  "GetBlockDbm c = WithPrefix (c_dbm c) ''/blocks''"

definition segStoreDbm :: "chain \<Rightarrow> db_view" where
  "segStoreDbm c = WithPrefix (c_dbm c) (''/chain/'' @ gen_ChainId (c_genesis c) @ ''/segments'')"

definition Chain_dbKey :: "chain \<Rightarrow> string" where
  "Chain_dbKey c = ''/chain/'' @ gen_ChainId (c_genesis c)"

definition SetBlockValidator :: "block_validator option \<Rightarrow> chain \<Rightarrow> chain" where
  "SetBlockValidator bv c = c\<lparr>c_blockValidator := bv\<rparr>"

definition ValidateGenesisRef :: "('e, 'x) externals_scheme \<Rightarrow> chain \<Rightarrow> sref \<Rightarrow> unit res" where
  "ValidateGenesisRef X c ref =
     (if \<not> ref_equals X ref (c_GenesisRef c)
      then Err (Errorf ''genesis references do not match: %s (expected) != %s (actual)'')
      else Ok ())"

definition computePubsubTopic :: "chain \<Rightarrow> chain" where
  "computePubsubTopic c = c\<lparr>c_pubsubTopic := b64_encode (GetObjectDigest (c_GenesisRef c))\<rparr>"

text \<open>The type switch on the object decides which encryption configuration is used, if any.\<close>

datatype obj_kind = ValidatorSetObj | ChainConfigObj | BlockHeaderObj | OtherObj

definition GetEncryptContextWithDigest :: "chain \<Rightarrow> bytes \<Rightarrow> obj_kind \<Rightarrow> enc_conf option res" where
  "GetEncryptContextWithDigest c digest obj =
     (case obj of
        ValidatorSetObj \<Rightarrow> rbind (GetBlockEncryptionConfigWithDigest (c_encStrat c) digest) (\<lambda>e. Ok (Some e))
      | ChainConfigObj \<Rightarrow> rbind (GetBlockEncryptionConfigWithDigest (c_encStrat c) digest) (\<lambda>e. Ok (Some e))
      | BlockHeaderObj \<Rightarrow> rbind (GetBlockEncryptionConfigWithDigest (c_encStrat c) digest) (\<lambda>e. Ok (Some e))
      | OtherObj \<Rightarrow> Ok None)"

definition GetEncryptContext ::
  "('e, 'x) externals_scheme \<Rightarrow> chain \<Rightarrow> obj_kind \<Rightarrow> enc_conf option" where
  "GetEncryptContext X c obj =
     (case obj of
        ValidatorSetObj \<Rightarrow> Some (GetBlockEncryptionConfig X (c_encStrat c))
      | ChainConfigObj \<Rightarrow> Some (GetBlockEncryptionConfig X (c_encStrat c))
      | BlockHeaderObj \<Rightarrow> Some (GetBlockEncryptionConfig X (c_encStrat c))
      | OtherObj \<Rightarrow> None)"

section \<open>The persisted chain state\<close>

definition triggerStateRecheck :: "(('e, 'z) chain_world_scheme, unit) go" where
  "triggerStateRecheck =
     gmodify (\<lambda>w. w\<lparr>recheckStateTrigger := try_send 1 () (recheckStateTrigger w)\<rparr>)"

text \<open>The deferred recheck runs whether or not the write succeeds.\<close>

definition Chain_writeState ::
  "('e, 'x) externals_scheme \<Rightarrow> chain \<Rightarrow> (('e, 'z) chain_world_scheme, unit) go" where
  "Chain_writeState X c =
     gbind (gasks ch_state) (\<lambda>st.
     gbind (gtry (write_slot X (pb_chain_state X) (c_dbm c) (Chain_dbKey c) st)) (\<lambda>r.
     gbind triggerStateRecheck (\<lambda>_. gres (res_of r))))"

definition Chain_readState ::
  "('e, 'x) externals_scheme \<Rightarrow> chain \<Rightarrow> (('e, 'z) chain_world_scheme, unit) go" where
  "Chain_readState X c =
     gbind (gasks ch_state) (\<lambda>st.
     gbind (read_slot X (pb_chain_state X) (c_dbm c) (Chain_dbKey c) st) (\<lambda>st'.
     gmodify (\<lambda>w. w\<lparr>ch_state := st'\<rparr>)))"

section \<open>State subscriptions\<close>

text \<open>
  \<open>subID\<close> is the random identifier of the subscription. No lock is held between the reading of the last snapshot,
  which puts it into the new channel, and the storing of the channel; \<open>pendingSubs\<close> holds the channels of the calls that
  are between the two. \<open>SubscribeState\<close> is a call that nothing interrupts.
\<close>

definition SubscribeState_begin :: "int \<Rightarrow> (('e, 'z) chain_world_scheme, unit) go" where
  "SubscribeState_begin subID =
     gbind (gasks lastStateSnapshot) (\<lambda>lst.
     let ch = (case lst of None \<Rightarrow> [] | Some s \<Rightarrow> [s]) in
     gmodify (\<lambda>w. w\<lparr>pendingSubs := (pendingSubs w)(subID \<mapsto> ch)\<rparr>))"

definition SubscribeState_store :: "int \<Rightarrow> (('e, 'z) chain_world_scheme, int) go" where
  "SubscribeState_store subID =
     gbind (gmodify (\<lambda>w. case pendingSubs w subID of
         None \<Rightarrow> w
       | Some ch \<Rightarrow> w\<lparr>stateSubs := (stateSubs w)(subID \<mapsto> ch), pendingSubs := (pendingSubs w)(subID := None)\<rparr>)) (\<lambda>_.
     gret subID)"

definition SubscribeState :: "int \<Rightarrow> (('e, 'z) chain_world_scheme, int) go" where
  "SubscribeState subID = gbind (SubscribeState_begin subID) (\<lambda>_. SubscribeState_store subID)"

definition UnsubscribeState :: "int \<Rightarrow> (('e, 'z) chain_world_scheme, unit) go" where
  "UnsubscribeState subID = gmodify (\<lambda>w. w\<lparr>stateSubs := (stateSubs w)(subID := None)\<rparr>)"

text \<open>The subscriber's receive, \<open>None\<close> when it would block.\<close>

definition ReceiveState :: "int \<Rightarrow> (('e, 'z) chain_world_scheme, snapshot option) go" where
  "ReceiveState subID = (\<lambda>w. case stateSubs w subID of
       Some (s # ch) \<Rightarrow> (Ok (Some s), w\<lparr>stateSubs := (stateSubs w)(subID \<mapsto> ch)\<rparr>)
     | _ \<Rightarrow> (Ok None, w))"

text \<open>
  A context is the number of its creation. Creating the next one cancels the one before.
\<close>

definition nextStateSnapshotCtx :: "(('e, 'z) chain_world_scheme, unit) go" where
  "nextStateSnapshotCtx = gmodify (\<lambda>w. case stateSnapshotCtx w of
       None \<Rightarrow> w\<lparr>stateSnapshotCtx := Some 0\<rparr>
     | Some n \<Rightarrow> w\<lparr>canceledCtxs := n # canceledCtxs w, stateSnapshotCtx := Some (Suc n)\<rparr>)"

definition emit_to :: "snapshot \<Rightarrow> snapshot list \<Rightarrow> snapshot list" where
  "emit_to val ch = (case enqueue_loop 1 val ch of Some ch' \<Rightarrow> ch' | None \<Rightarrow> ch)"

definition emitNextChainState :: "snapshot \<Rightarrow> (('e, 'z) chain_world_scheme, unit) go" where
  "emitNextChainState snap =
     gbind nextStateSnapshotCtx (\<lambda>_.
     gbind (gasks stateSnapshotCtx) (\<lambda>ctx.
     let snap' = snap\<lparr>sn_Context := the ctx\<rparr> in
     gmodify (\<lambda>w. w\<lparr>lastStateSnapshot := Some snap',
       stateSubs := (\<lambda>k. map_option (emit_to snap') (stateSubs w k))\<rparr>)))"

section \<open>The head block and the state snapshot\<close>

definition setHeadBlock ::
  "('e, 'x) externals_scheme \<Rightarrow> chain \<Rightarrow> block \<Rightarrow> (('e, 'z) chain_world_scheme, unit) go" where
  "setHeadBlock X c headBlock =
     gbind (gmodify (\<lambda>w. w\<lparr>lastBlock := Some headBlock,
       lastBlockHeader := Some (b_header headBlock),
       lastBlockRef := b_blkRef headBlock,
       lastHeadDigest := GetObjectDigest (b_blkRef headBlock),
       ch_state := \<lparr>cs_StateSegment = bs_SegmentId (b_State headBlock),
         cs_LastHeight = GetHeight (hdr_RoundInfo (b_header headBlock)) + 1,
         cs_LastRound = 0\<rparr>\<rparr>)) (\<lambda>_.
     Chain_writeState X c)"

text \<open>\<open>Time.Sub\<close> saturates at the range of a duration; products of durations wrap.\<close>

definition time_Sub :: "time \<Rightarrow> time \<Rightarrow> duration" where
  "time_Sub t u = max (- (2 ^ 63)) (min (2 ^ 63 - 1) (t - u))"

definition duration_ms :: "int \<Rightarrow> duration" where
  "duration_ms n = i64 (millisecond * i64 n)"

definition expectedRoundCount :: "duration \<Rightarrow> duration \<Rightarrow> u64" where
  "expectedRoundCount sinceLastBlock roundDuration = word_of_int (go_div sinceLastBlock roundDuration)"

definition roundStart :: "time \<Rightarrow> duration \<Rightarrow> duration \<Rightarrow> u64 \<Rightarrow> time" where
  "roundStart lastBlockTs roundStartDuration roundDuration currRound =
     lastBlockTs + i64 (roundStartDuration + i64 (roundDuration * sint currRound))"

definition snapshot_changed :: "snapshot \<Rightarrow> snapshot \<Rightarrow> bool" where
  "snapshot_changed lastSnap currentSnap \<longleftrightarrow>
     Round (sn_BlockRoundInfo lastSnap) \<noteq> Round (sn_BlockRoundInfo currentSnap) \<or>
     Height (sn_BlockRoundInfo lastSnap) \<noteq> Height (sn_BlockRoundInfo currentSnap) \<or>
     sn_RoundEndTime lastSnap \<noteq> sn_RoundEndTime currentSnap \<or>
     sn_RoundStartTime lastSnap \<noteq> sn_RoundStartTime currentSnap \<or>
     sn_RoundStarted currentSnap \<noteq> sn_RoundStarted lastSnap \<or>
     sn_CurrentProposer lastSnap = None \<or>
     GetPubKey (sn_CurrentProposer lastSnap) \<noteq> GetPubKey (sn_CurrentProposer currentSnap)"

text \<open>
  \<open>computeEmitSnapshot\<close> in its two parts. The first settles the height and round of the state from
  the head block and the clock; the second builds the snapshot of that round and publishes it when it
  differs from the last one. \<open>nowTs\<close> and \<open>nowTs2\<close> are the two readings of the clock.
\<close>

definition computeRound ::
  "('e, 'x) externals_scheme \<Rightarrow> chain \<Rightarrow> block_header \<Rightarrow> time \<Rightarrow>
     (('e, 'z) chain_world_scheme, chain_config \<times> duration \<times> u64) go" where
  "computeRound X c hdr nowTs =
     gbind (gasks (\<lambda>w. cs_LastHeight (ch_state w))) (\<lambda>lastHeight.
     let lastRoundInfo = hdr_RoundInfo hdr in
     gbind (if GetHeight lastRoundInfo + 1 > lastHeight
            then gmodify (\<lambda>w. w\<lparr>ch_state := (ch_state w)
              \<lparr>cs_LastHeight := GetHeight lastRoundInfo + 1, cs_LastRound := 0\<rparr>\<rparr>)
            else gret ()) (\<lambda>_.
     let lastBlockTs = ts_to_time X (hdr_BlockTs hdr) in
     if lastBlockTs > nowTs then gfail (Errorf ''last block was in the future'')
     else
     let sinceLastBlock = time_Sub nowTs lastBlockTs;
         confRef = hdr_NextChainConfigRef hdr in
     gbind (gres (GetEncryptContextWithDigest c (GetObjectDigest confRef) ChainConfigObj)) (\<lambda>subCtx.
     gbind (gext (\<lambda>e. follow_chain_config X e confRef subCtx [])) (\<lambda>chainConfig.
     let roundDuration = duration_ms (GetRoundLength (cc_TimingConfig chainConfig)) in
     if roundDuration < second then gfail (Errorf ''configured round duration too short: %s'')
     else
     gbind (gasks (\<lambda>w. cs_LastRound (ch_state w))) (\<lambda>lastRound.
     let currRound = (if expectedRoundCount sinceLastBlock roundDuration > lastRound
           then expectedRoundCount sinceLastBlock roundDuration else lastRound) in
     gbind (gmodify (\<lambda>w. w\<lparr>ch_state := (ch_state w)\<lparr>cs_LastRound := currRound\<rparr>\<rparr>)) (\<lambda>_.
     gret (chainConfig, roundDuration, currRound)))))))"

definition currentSnapshot ::
  "('e, 'x) externals_scheme \<Rightarrow> block_header \<Rightarrow> chain_config \<Rightarrow> duration \<Rightarrow> u64 \<Rightarrow> time \<Rightarrow>
     validator_set \<Rightarrow> ('e, 'z) chain_world_scheme \<Rightarrow> snapshot" where
  "currentSnapshot X hdr chainConfig roundDuration currRound nowTs2 vs w =
     (let lastBlockTs = ts_to_time X (hdr_BlockTs hdr);
          roundStartDuration = duration_ms (GetMinProposeAfterBlock (cc_TimingConfig chainConfig));
          roundStartTime = roundStart lastBlockTs roundStartDuration roundDuration currRound;
          roundEndTime = roundStartTime + roundDuration;
          nextRoundStartTime = roundEndTime + roundDuration;
          currRoundInfo = \<lparr>Height = cs_LastHeight (ch_state w), Round = currRound\<rparr>;
          validatorSet = sort_validators X vs;
          (proposer, powerSum) = select_proposer X validatorSet (lastHeadDigest w)
            (Height currRoundInfo) (Round currRoundInfo) in
      \<lparr>sn_Context = 0, sn_RoundStarted = roundStartTime < nowTs2,
       sn_BlockRoundInfo = currRoundInfo, sn_LastBlockHeader = lastBlockHeader w,
       sn_LastBlockRef = lastBlockRef w, sn_CurrentProposer = proposer,
       sn_RoundEndTime = roundEndTime, sn_RoundStartTime = roundStartTime,
       sn_NextRoundStartTime = nextRoundStartTime, sn_TotalVotingPower = powerSum,
       sn_ChainConfig = chainConfig, sn_ValidatorSet = validatorSet\<rparr>)"

definition emitRound ::
  "('e, 'x) externals_scheme \<Rightarrow> chain \<Rightarrow> block_header \<Rightarrow> chain_config \<Rightarrow> duration \<Rightarrow> u64 \<Rightarrow> time \<Rightarrow>
     (('e, 'z) chain_world_scheme, unit) go" where
  "emitRound X c hdr chainConfig roundDuration currRound nowTs2 =
     (let vsRef = cc_ValidatorSetRef chainConfig in
     gbind (gres (GetEncryptContextWithDigest c (GetObjectDigest vsRef) ValidatorSetObj)) (\<lambda>subCtx.
     gbind (gext (\<lambda>e. follow_validator_set X e vsRef subCtx [])) (\<lambda>vs.
     gbind (gasks (currentSnapshot X hdr chainConfig roundDuration currRound nowTs2 vs)) (\<lambda>currentSnap.
     gbind (gasks lastStateSnapshot) (\<lambda>lastSnap.
     if (case lastSnap of None \<Rightarrow> True | Some l \<Rightarrow> snapshot_changed l currentSnap)
     then emitNextChainState currentSnap
     else gret ())))))"

definition computeEmitSnapshot ::
  "('e, 'x) externals_scheme \<Rightarrow> chain \<Rightarrow> time \<Rightarrow> time \<Rightarrow> (('e, 'z) chain_world_scheme, unit) go" where
  "computeEmitSnapshot X c nowTs nowTs2 =
     gbind (gasks lastBlockHeader) (\<lambda>lbh. case lbh of None \<Rightarrow> gret () | Some hdr \<Rightarrow>
     gbind (computeRound X c hdr nowTs) (\<lambda>(chainConfig, roundDuration, currRound).
     emitRound X c hdr chainConfig roundDuration currRound nowTs2))"

text \<open>\<open>manageStateOnce\<close> first settles on a segment, moving on to the next one if there is one, and then
  adopts that segment's head block.\<close>

definition stateSegment ::
  "('e, 'x) externals_scheme \<Rightarrow> chain \<Rightarrow> string \<Rightarrow> (('e, 'z) chain_world_scheme, string) go" where
  "stateSegment X c stateSegmentID =
     gbind (GetSegmentById X (segStoreDbm c) stateSegmentID) (\<lambda>seg.
     gbind (gasks (\<lambda>w. ss_SegmentNext (seg_state X seg w))) (\<lambda>nextSegmentID.
     if nextSegmentID \<noteq> '''' then
       gbind (GetSegmentById X (segStoreDbm c) nextSegmentID) (\<lambda>nextSegment.
       gbind (gmodify (\<lambda>w. w\<lparr>ch_state := (ch_state w)\<lparr>cs_StateSegment := nextSegmentID\<rparr>\<rparr>)) (\<lambda>_.
       gbind (Chain_writeState X c) (\<lambda>_. gret nextSegment)))
     else gret seg))"

definition adoptHead ::
  "('e, 'x) externals_scheme \<Rightarrow> chain \<Rightarrow> time \<Rightarrow> time \<Rightarrow> string \<Rightarrow> (('e, 'z) chain_world_scheme, unit) go" where
  "adoptHead X c nowTs nowTs2 seg =
     gbind (gasks (\<lambda>w. ss_HeadBlock (seg_state X seg w))) (\<lambda>headBlockRef.
     gbind (gtry (GetBlock X (c_encStrat c) (GetBlockDbm c) headBlockRef)) (\<lambda>r.
     case r of
       Inl e \<Rightarrow> gfail (Wrapped ''lookup head block'' e)
     | Inr headBlock \<Rightarrow>
         gbind (gasks lastHeadDigest) (\<lambda>lastDigest.
         gbind (if GetObjectDigest headBlockRef \<noteq> lastDigest
                then setHeadBlock X c headBlock else gret ()) (\<lambda>_.
         computeEmitSnapshot X c nowTs nowTs2))))"

definition manageStateOnce ::
  "('e, 'x) externals_scheme \<Rightarrow> chain \<Rightarrow> time \<Rightarrow> time \<Rightarrow> (('e, 'z) chain_world_scheme, unit) go" where
  "manageStateOnce X c nowTs nowTs2 =
     gbind (gasks (\<lambda>w. cs_StateSegment (ch_state w))) (\<lambda>stateSegmentID.
     if stateSegmentID = '''' then gfail (Errorf ''no current state segment'')
     else gbind (stateSegment X c stateSegmentID) (adoptHead X c nowTs nowTs2))"

text \<open>
  The time of the next unprompted check in the loop of \<open>manageState\<close>: at most ten seconds away, and
  brought forward to each of the snapshot's instants that lies ahead.
\<close>

definition nextCheckTime :: "time \<Rightarrow> time \<Rightarrow> snapshot option \<Rightarrow> time" where
  "nextCheckTime lastNextCheckTime now state =
     (let t0 = (if \<not> lastNextCheckTime > now then now + 10 * second else lastNextCheckTime) in
      case state of None \<Rightarrow> t0 | Some s \<Rightarrow>
        let t1 = (if t0 > sn_RoundEndTime s \<and> sn_RoundEndTime s > now then sn_RoundEndTime s else t0);
            t2 = (if t1 > sn_NextRoundStartTime s \<and> sn_NextRoundStartTime s > now
                  then sn_NextRoundStartTime s else t1) in
        if t2 > sn_RoundStartTime s \<and> sn_RoundStartTime s > now then sn_RoundStartTime s else t2)"

text \<open>
  The timer of the loop. \<open>nextCheckListen\<close> is false while the variable \<open>nextCheckCh\<close> is nil, when the \<open>select\<close>
  statement does not listen to the timer. One iteration checks the state, whatever the outcome, and sets the timer only
  if the time of the next check has changed. The tick of a timer that was not stopped in time is drained only from a
  channel the loop listens to. \<open>now\<close> and \<open>reset\<close> are the readings of the clock before and at the call of \<open>Reset\<close>.
\<close>

record check_timer =
  lastNextCheckTime :: time
  nextCheckTimer :: go_timer
  nextCheckListen :: bool

definition manageState_begin :: "time \<Rightarrow> time \<Rightarrow> check_timer" where
  "manageState_begin now now2 =
     \<lparr>lastNextCheckTime = now + 5 * second, nextCheckTimer = NewTimer now2 (5 * second), nextCheckListen = False\<rparr>"

definition resetTimer :: "time \<Rightarrow> time \<Rightarrow> snapshot option \<Rightarrow> check_timer \<Rightarrow> check_timer" where
  "resetTimer now reset state ct =
     (let next = nextCheckTime (lastNextCheckTime ct) now state in
      if next \<noteq> lastNextCheckTime ct
      then
        let (active, tm) = timer_Stop (nextCheckTimer ct);
            tm' = (if \<not> active \<and> nextCheckListen ct then tm\<lparr>tm_C := tl (tm_C tm)\<rparr> else tm) in
        \<lparr>lastNextCheckTime = next, nextCheckTimer = timer_Reset reset (time_Sub next now) tm', nextCheckListen = True\<rparr>
      else ct)"

definition manageState_iter ::
  "('e, 'x) externals_scheme \<Rightarrow> chain \<Rightarrow> time \<Rightarrow> time \<Rightarrow> time \<Rightarrow> time \<Rightarrow> check_timer \<Rightarrow>
     (('e, 'z) chain_world_scheme, check_timer) go" where
  "manageState_iter X c nowTs nowTs2 now reset ct =
     gbind (gtry (manageStateOnce X c nowTs nowTs2)) (\<lambda>_.
     gbind (gasks lastStateSnapshot) (\<lambda>state. gret (resetTimer now reset state ct)))"

text \<open>What the \<open>select\<close> receives, and where it leaves the loop: waiting when the case is not ready, at the start of the
  next iteration, or returned.\<close>

datatype state_wake = StateDone | Recheck | CheckTick
datatype state_phase = LoopWaiting | LoopChecking | LoopReturned

fun manageState_select ::
  "state_wake \<Rightarrow> check_timer \<Rightarrow> (('e, 'z) chain_world_scheme, state_phase \<times> check_timer) go" where
  "manageState_select StateDone ct = gret (LoopReturned, ct)"
| "manageState_select Recheck ct = (\<lambda>w.
     case recheckStateTrigger w of
       [] \<Rightarrow> (Ok (LoopWaiting, ct), w)
     | _ # rest \<Rightarrow> (Ok (LoopChecking, ct), w\<lparr>recheckStateTrigger := rest\<rparr>))"
| "manageState_select CheckTick ct =
     (if nextCheckListen ct \<and> tm_C (nextCheckTimer ct) \<noteq> []
      then gret (LoopChecking, ct\<lparr>nextCheckTimer := (nextCheckTimer ct)\<lparr>tm_C := tl (tm_C (nextCheckTimer ct))\<rparr>\<rparr>)
      else gret (LoopWaiting, ct))"

text \<open>The runtime fires the timer, at some time not before it is due.\<close>

definition timer_fires :: "time \<Rightarrow> check_timer \<Rightarrow> check_timer" where
  "timer_fires t ct = ct\<lparr>nextCheckTimer := timer_fire t (nextCheckTimer ct)\<rparr>"

section \<open>Block commits and segment updates\<close>

text \<open>The peer and the decoded block that the handler receives are not used. \<open>uid\<close> is the identifier
  drawn when a new segment is needed.\<close>

definition HandleBlockCommit ::
  "('e, 'x) externals_scheme \<Rightarrow> chain \<Rightarrow> string \<Rightarrow> sref \<Rightarrow> (('e, 'z) chain_world_scheme, unit) go" where
  "HandleBlockCommit X c uid blkRef =
     gbind (GetBlock X (c_encStrat c) (GetBlockDbm c) blkRef) (\<lambda>blkObj.
     if bs_SegmentId (b_State blkObj) \<noteq> '''' then gret ()
     else
     gbind (GetBlock X (c_encStrat c) (GetBlockDbm c) (hdr_LastBlockRef (b_header blkObj))) (\<lambda>blkParentObj.
     let blkParentSegmentID = bs_SegmentId (b_State blkParentObj) in
     if blkParentSegmentID \<noteq> '''' then
       gbind (GetSegmentById X (segStoreDbm c) blkParentSegmentID) (\<lambda>blkParentSeg.
       gbind (AppendBlock X (segStoreDbm c) blkParentSeg blkRef blkObj blkParentObj
                (c_blockValidator c) (c_encStrat c)) (\<lambda>_.
       triggerStateRecheck))
     else
       gbind (NewSegment X (segStoreDbm c) uid blkObj blkRef) (\<lambda>_. gret ())))"

definition markAsHead ::
  "('e, 'x) externals_scheme \<Rightarrow> chain \<Rightarrow> string \<Rightarrow> block \<Rightarrow> (('e, 'z) chain_world_scheme, unit) go" where
  "markAsHead X c seg headBlkObj =
     gbind (gtry (MarkValid X (segStoreDbm c) seg)) (\<lambda>r.
     case r of
       Inl _ \<Rightarrow> gret ()
     | Inr _ \<Rightarrow> gbind (gtry (setHeadBlock X c headBlkObj)) (\<lambda>_. gret ()))"

definition HandleSegmentUpdated ::
  "('e, 'x) externals_scheme \<Rightarrow> chain \<Rightarrow> string \<Rightarrow> (('e, 'z) chain_world_scheme, unit) go" where
  "HandleSegmentUpdated X c seg =
     gbind (gasks (seg_state X seg)) (\<lambda>st.
     gbind (gasks lastBlock) (\<lambda>headBlockObj.
     if ss_Status st \<noteq> DISJOINTED \<or> headBlockObj \<noteq> None then gret ()
     else
     let tailRoundGenesis = (GetHeight (ss_TailBlockRound st) = 0) in
     gbind (gtry (GetBlock X (c_encStrat c) (GetBlockDbm c) (ss_HeadBlock st))) (\<lambda>hb.
     case hb of Inl _ \<Rightarrow> gret () | Inr headBlkObj \<Rightarrow>
     gbind (gtry (GetBlock X (c_encStrat c) (GetBlockDbm c) (ss_TailBlock st))) (\<lambda>tb.
     case tb of Inl _ \<Rightarrow> gret () | Inr tailBlkObj \<Rightarrow>
     let chainConfMatches = ref_equals X (hdr_ChainConfigRef (b_header tailBlkObj))
           (gen_InitChainConfigRef (c_genesis c)) in
     if tailRoundGenesis then
       (if chainConfMatches then markAsHead X c seg headBlkObj else gret ())
     else if chainConfMatches then markAsHead X c seg headBlkObj
     else
     gbind (gtry (gext (\<lambda>e. follow_chain_config X e (gen_InitChainConfigRef (c_genesis c)) None []))) (\<lambda>ic.
     case ic of Inl _ \<Rightarrow> gret () | Inr initChainConf \<Rightarrow>
     gbind (gtry (gext (\<lambda>e. follow_chain_config X e (hdr_ChainConfigRef (b_header headBlkObj)) None []))) (\<lambda>bc.
     case bc of Inl _ \<Rightarrow> gret () | Inr blkChainConf \<Rightarrow>
     if ref_equals X (cc_ValidatorSetRef initChainConf) (cc_ValidatorSetRef blkChainConf)
     then markAsHead X c seg headBlkObj else gret ()))))))"

text \<open>One iteration of the rewind loop, with the chain as the store's handler.\<close>

definition manageSegmentRewindOnce ::
  "('e, 'x) externals_scheme \<Rightarrow> chain \<Rightarrow> (('e, 'z) chain_world_scheme, bool) go" where
  "manageSegmentRewindOnce X c =
     SegmentStore_RewindOnce X (segStoreDbm c) (Some (HandleSegmentUpdated X c)) (c_encStrat c)
       (c_blockValidator c) (GetBlockDbm c)"

section \<open>Creating and loading a chain\<close>

record 'w chain_conf =
  conf_GenesisRef :: sref
  conf_EncryptionStrategy :: encryption_strategy
  conf_EncryptionArgs :: "'w option"

text \<open>The mutable fields of a chain object just allocated, with a new segment store.\<close>

definition fresh_chain :: "('e, 'z) chain_world_scheme \<Rightarrow> ('e, 'z) chain_world_scheme" where
  "fresh_chain w = w\<lparr>segmentMap := Map.empty, segmentQueue := NewSegmentQueue (\<lambda>_. 0),
     ch_state := \<lparr>cs_StateSegment = '''', cs_LastHeight = 0, cs_LastRound = 0\<rparr>,
     recheckStateTrigger := [], stateSnapshotCtx := None, canceledCtxs := [],
     lastStateSnapshot := None, stateSubs := Map.empty, pendingSubs := Map.empty, lastHeadDigest := [], lastBlock := None,
     lastBlockHeader := None, lastBlockRef := None\<rparr>"

definition genesisValidatorSet :: "bytes \<Rightarrow> validator_set" where
  "genesisValidatorSet validatorPubBytes =
     \<lparr>Validators = [\<lparr>val_PubKey = validatorPubBytes, val_VotingPower = 10,
        val_OperationMode = OPERATING\<rparr>]\<rparr>"

definition genesisChainConfig :: "sref \<Rightarrow> chain_config" where
  "genesisChainConfig vsRef =
     \<lparr>cc_TimingConfig = Some \<lparr>tc_MinProposeAfterBlock = 500, tc_RoundLength = 3000\<rparr>,
      cc_ValidatorSetRef = vsRef\<rparr>"

definition firstBlockHeader ::
  "sref \<Rightarrow> sref \<Rightarrow> timestamp \<Rightarrow> string \<Rightarrow> sref \<Rightarrow> block_header" where
  "firstBlockHeader genesisRef confRef nowTs validatorID genesisStateRef =
     \<lparr>hdr_GenesisRef = genesisRef, hdr_ChainConfigRef = confRef, hdr_NextChainConfigRef = confRef,
      hdr_LastBlockRef = None, hdr_RoundInfo = Some \<lparr>Height = 0, Round = 0\<rparr>,
      hdr_BlockTs = Some nowTs, hdr_ProposerId = validatorID, hdr_StateRef = genesisStateRef\<rparr>"

text \<open>
  \<open>NewChain\<close> in its three parts: storing the genesis objects, building the chain object, and minting
  the first block. \<open>rnd\<close> is the random key of the new strategy, \<open>wrap\<close> the object wrapper for its
  arguments, \<open>genesisTs\<close> and \<open>nowTs\<close> the two timestamps, \<open>uid0\<close> and \<open>uid\<close> the two identifiers drawn.
\<close>

definition mintGenesis ::
  "('e, 'x) externals_scheme \<Rightarrow> string \<Rightarrow> priv_key \<Rightarrow> (go_error + bytes) \<Rightarrow> (bytes \<Rightarrow> go_error + 'w) \<Rightarrow>
     timestamp \<Rightarrow> (('e, 'z) chain_world_scheme, strategy \<times> 'w \<times> peer_id \<times> genesis \<times> sref) go" where
  "mintGenesis X chainID validatorPriv rnd wrap genesisTs =
     gbind (gres (NewConvergentImmutableStrategy rnd)) (\<lambda>strat.
     gbind (gres (BuildArgs wrap strat)) (\<lambda>args.
     let validatorPub = priv_public X validatorPriv; encConf = GetBlockEncryptionConfig X strat in
     gbind (gres (res_of (pub_bytes X validatorPub))) (\<lambda>validatorPubBytes.
     case id_from_pub X validatorPub of (validatorID, err) \<Rightarrow>
     gbind (case err of Some e \<Rightarrow> gfail e | None \<Rightarrow> gret ()) (\<lambda>_.
     gbind (gcall (\<lambda>e. store_validator_set X e (genesisValidatorSet validatorPubBytes) encConf)) (\<lambda>vsRef.
     gbind (gcall (\<lambda>e. store_chain_config X e (genesisChainConfig vsRef) encConf)) (\<lambda>confRef.
     let gen = \<lparr>gen_ChainId = chainID, gen_Timestamp = Some genesisTs,
           gen_EncStrategy = GetEncryptionStrategyType strat, gen_InitChainConfigRef = confRef\<rparr> in
     gbind (gcall (\<lambda>e. store_genesis X e gen (GetGenesisEncryptionConfig X strat))) (\<lambda>genesisRef.
     gret (strat, args, validatorID, gen, genesisRef))))))))"

definition mintFirstBlock ::
  "('e, 'x) externals_scheme \<Rightarrow> chain \<Rightarrow> priv_key \<Rightarrow> peer_id \<Rightarrow> sref \<Rightarrow> timestamp \<Rightarrow> string \<Rightarrow> string \<Rightarrow>
     (('e, 'z) chain_world_scheme, unit) go" where
  "mintFirstBlock X ch validatorPriv validatorID genesisStateRef nowTs uid0 uid =
     (let strat = c_encStrat ch;
          encConf = (GetBlockEncryptionConfig X strat)\<lparr>SignerKeys := [validatorPriv]\<rparr>;
          header = firstBlockHeader (c_GenesisRef ch) (gen_InitChainConfigRef (c_genesis ch)) nowTs
            (pretty_id X validatorID) genesisStateRef in
      gbind (gcall (\<lambda>e. store_header X e header encConf)) (\<lambda>headerRef.
      gbind (gcall (\<lambda>e. store_vote X e \<lparr>vote_BlockHeaderRef = headerRef\<rparr>
               (GetNodeMessageEncryptionConfig X strat validatorPriv))) (\<lambda>voteRef.
      gbind (gcall (\<lambda>e. store_block X e
               \<lparr>blk_BlockHeaderRef = headerRef, blk_VoteRefs = [voteRef]\<rparr> encConf)) (\<lambda>blockRef.
      gbind (gcall (\<lambda>e. store_local_segment X e ((zero_segment X)\<lparr>ss_Id := uid0, ss_Status := VALID,
               ss_HeadBlock := blockRef, ss_TailBlock := blockRef\<rparr>))) (\<lambda>_.
      gbind (GetBlock X strat (GetBlockDbm ch) blockRef) (\<lambda>firstBlk.
      gbind (NewSegment X (segStoreDbm ch) uid firstBlk blockRef) (\<lambda>(seg, firstBlk').
      gbind (gasks (\<lambda>w. ss_Id (seg_state X seg w))) (\<lambda>segId.
      let firstBlk'' = firstBlk'\<lparr>b_State := (b_State firstBlk')\<lparr>bs_SegmentId := segId\<rparr>\<rparr> in
      gbind (Block_WriteState X firstBlk'') (\<lambda>_.
      gbind (gmodify (\<lambda>w. w\<lparr>ch_state := \<lparr>cs_StateSegment = segId, cs_LastHeight = 0, cs_LastRound = 0\<rparr>\<rparr>)) (\<lambda>_.
      gbind (Chain_writeState X ch) (\<lambda>_.
      gmodify (\<lambda>w. w\<lparr>lastBlockHeader := Some header, lastBlockRef := blockRef,
        lastBlock := Some firstBlk'', lastHeadDigest := GetObjectDigest blockRef\<rparr>))))))))))))"

definition NewChain ::
  "('e, 'x) externals_scheme \<Rightarrow> db_view \<Rightarrow> string \<Rightarrow> priv_key \<Rightarrow> block_validator option \<Rightarrow> sref \<Rightarrow>
     (go_error + bytes) \<Rightarrow> (bytes \<Rightarrow> go_error + 'w) \<Rightarrow> timestamp \<Rightarrow> timestamp \<Rightarrow> string \<Rightarrow> string \<Rightarrow>
     (('e, 'z) chain_world_scheme, chain \<times> 'w chain_conf) go" where
  "NewChain X dbm chainID validatorPriv blockValidator genesisStateRef rnd wrap genesisTs nowTs uid0 uid =
     (if chainID = '''' then gfail (Errorf ''chain id must be set'')
      else
      gbind (mintGenesis X chainID validatorPriv rnd wrap genesisTs)
        (\<lambda>(strat, args, validatorID, gen, genesisRef).
      let conf = \<lparr>conf_GenesisRef = genesisRef, conf_EncryptionStrategy = GetEncryptionStrategyType strat,
            conf_EncryptionArgs = Some args\<rparr>;
          ch = computePubsubTopic \<lparr>c_dbm = dbm, c_GenesisRef = genesisRef, c_genesis = gen,
            c_encStrat = strat, c_pubsubTopic = '''', c_blockValidator = blockValidator\<rparr> in
      gbind (gmodify fresh_chain) (\<lambda>_.
      gbind (mintFirstBlock X ch validatorPriv validatorID genesisStateRef nowTs uid0 uid) (\<lambda>_.
      gret (ch, conf)))))"

definition FromConfig ::
  "('e, 'x) externals_scheme \<Rightarrow> (encryption_strategy \<Rightarrow> bool) \<Rightarrow> 'w option ctor_registry \<Rightarrow> db_view \<Rightarrow>
     'w chain_conf \<Rightarrow> block_validator option \<Rightarrow> (('e, 'z) chain_world_scheme, chain) go" where
  "FromConfig X known reg dbm conf blockValidator =
     gbind (gres (BuildEncryptionStrategy known reg (conf_EncryptionStrategy conf) (conf_EncryptionArgs conf)))
       (\<lambda>encStrat.
     let ref = conf_GenesisRef conf in
     gbind (gres (GetGenesisEncryptionConfigWithDigest encStrat (GetObjectDigest ref))) (\<lambda>encConf.
     gbind (gtry (gext (\<lambda>e. follow_genesis X e ref (Some encConf) []))) (\<lambda>g.
     case g of
       Inl e \<Rightarrow> gfail (Wrapped ''cannot follow genesis reference'' e)
     | Inr genObj \<Rightarrow>
         let ch = computePubsubTopic \<lparr>c_dbm = dbm, c_GenesisRef = ref, c_genesis = genObj,
               c_encStrat = encStrat, c_pubsubTopic = '''', c_blockValidator = blockValidator\<rparr> in
         gbind (gmodify fresh_chain) (\<lambda>_.
         gbind (gtry (Chain_readState X ch)) (\<lambda>r.
         case r of
           Inl e \<Rightarrow> gfail (Wrapped ''cannot load state from db'' e)
         | Inr _ \<Rightarrow> gret ch)))))"

end
