(* ===== verification/ChainInv.thy ===== *)
theory ChainInv
  imports Chain
begin

text \<open>
  Invariants of the chain. The operations of \<open>Chain\<close> are the steps of a transition system; the
  reachable states satisfy \<open>chain_inv\<close>, and a settled segment status is final along every run.
\<close>

section \<open>Assertions that segment operations cannot touch\<close>

definition seg_free :: "(('e, 'z) seg_world_scheme \<Rightarrow> bool) \<Rightarrow> bool" where
  "seg_free P \<longleftrightarrow> (\<forall>w e m q. P w \<longrightarrow> P (w\<lparr>ext := e\<rparr>) \<and> P (w\<lparr>segmentMap := m\<rparr>) \<and> P (w\<lparr>segmentQueue := q\<rparr>))"

lemma seg_freeD:
  "seg_free P \<Longrightarrow> P w \<Longrightarrow> P (w\<lparr>ext := e\<rparr>)"
  "seg_free P \<Longrightarrow> P w \<Longrightarrow> P (w\<lparr>segmentMap := m\<rparr>)"
  "seg_free P \<Longrightarrow> P w \<Longrightarrow> P (w\<lparr>segmentQueue := q\<rparr>)"
  unfolding seg_free_def by blast+

lemma seg_free_seg_update: "seg_free P \<Longrightarrow> keeps P (seg_update X sid f)"
  by (intro keeps_intros) (auto intro: seg_freeD)

lemma seg_free_GetSegmentById: "seg_free P \<Longrightarrow> keeps P (GetSegmentById X sdb sid)"
  by (rule keeps_GetSegmentById) (auto intro: seg_freeD)

lemma seg_free_AppendBlock: "seg_free P \<Longrightarrow> keeps P (AppendBlock X sdb sid r b p v s)"
  unfolding AppendBlock_def Let_def by (intro keeps_intros) (auto intro: seg_freeD)

lemma seg_free_AppendSegment: "seg_free P \<Longrightarrow> keeps P (AppendSegment X sdb sid n s v h)"
  unfolding AppendSegment_def by (intro keeps_intros) (auto intro: seg_freeD)

lemma seg_free_MarkValid: "seg_free P \<Longrightarrow> keeps P (MarkValid X sdb sid)"
  unfolding MarkValid_def by (intro keeps_intros) (auto intro: seg_freeD)

lemma seg_free_RewindOnce: "seg_free P \<Longrightarrow> keeps P (Segment_RewindOnce X sdb sid s v h)"
  unfolding Segment_RewindOnce_def Let_def
  by (intro keeps_intros seg_free_GetSegmentById seg_free_AppendSegment) (auto intro: seg_freeD)

lemma seg_free_NewSegment: "seg_free P \<Longrightarrow> keeps P (NewSegment X sdb uid b r)"
  unfolding NewSegment_def Let_def
  by (intro keeps_intros seg_free_GetSegmentById) (auto intro: seg_freeD)

lemma seg_free_store_RewindOnce:
  assumes "seg_free P" and "\<And>n. keeps P (h n)"
  shows "keeps P (SegmentStore_RewindOnce X sdb (Some h) s v d)"
  unfolding SegmentStore_RewindOnce_def
  by (intro keeps_intros seg_free_GetSegmentById seg_free_RewindOnce assms)
     (auto intro: seg_freeD assms simp: option.case_eq_if)

lemmas seg_free_rules =
  seg_free_seg_update seg_free_GetSegmentById seg_free_AppendBlock seg_free_MarkValid
  seg_free_NewSegment seg_free_store_RewindOnce

section \<open>Assertions on the segments only\<close>

definition chain_free :: "(('e, 'z) chain_world_scheme \<Rightarrow> bool) \<Rightarrow> bool" where
  "chain_free P \<longleftrightarrow>
     (\<forall>w w'. segmentMap w' = segmentMap w \<longrightarrow> segmentQueue w' = segmentQueue w \<longrightarrow> P w \<longrightarrow> P w')"

lemma chain_freeD:
  "chain_free P \<Longrightarrow> P w \<Longrightarrow> segmentMap w' = segmentMap w \<Longrightarrow> segmentQueue w' = segmentQueue w \<Longrightarrow> P w'"
  unfolding chain_free_def by blast

lemma chain_free_trigger: "chain_free P \<Longrightarrow> keeps P triggerStateRecheck"
  unfolding triggerStateRecheck_def by (intro keeps_intros) (erule chain_freeD, simp_all)

lemma chain_free_writeState: "chain_free P \<Longrightarrow> keeps P (Chain_writeState X c)"
  unfolding Chain_writeState_def
  by (intro keeps_intros chain_free_trigger) (erule chain_freeD, simp_all)

lemma chain_free_setHeadBlock: "chain_free P \<Longrightarrow> keeps P (setHeadBlock X c b)"
  unfolding setHeadBlock_def
  by (intro keeps_intros chain_free_writeState) (erule chain_freeD, simp_all)

lemma chain_free_emit: "chain_free P \<Longrightarrow> keeps P (emitNextChainState snap)"
  unfolding emitNextChainState_def nextStateSnapshotCtx_def Let_def
  by (intro keeps_intros) ((erule (1) chain_freeD; simp split: option.split)+)

lemma chain_free_compute: "chain_free P \<Longrightarrow> keeps P (computeEmitSnapshot X c t t2)"
  unfolding computeEmitSnapshot_def computeRound_def emitRound_def Let_def
  by (intro keeps_intros chain_free_emit) ((erule (1) chain_freeD; simp)+)

lemma chain_free_segments:
  "chain_free queue_inv" "chain_free (settled t v)" "chain_free (loaded t)"
  by (simp_all add: chain_free_def queue_inv_def settled_def loaded_def)

lemmas chain_free_rules =
  chain_free_trigger chain_free_writeState chain_free_setHeadBlock chain_free_emit chain_free_compute

lemma MarkValid_keeps_queue: "keeps queue_inv (MarkValid X sdb sid)"
  unfolding MarkValid_def by (intro keeps_intros) (auto intro: queue_inv_rules)

lemma MarkValid_keeps_loaded: "keeps (loaded t) (MarkValid X sdb sid)"
  unfolding MarkValid_def by (intro keeps_intros) auto

lemma markAsHead_keeps:
  assumes "chain_free P" "keeps P (MarkValid X (segStoreDbm c) seg)"
  shows "keeps P (markAsHead X c seg b)"
  unfolding markAsHead_def using assms by (intro keeps_intros chain_free_rules) simp_all

lemma HandleSegmentUpdated_keeps:
  assumes "chain_free P" "keeps P (MarkValid X (segStoreDbm c) seg)"
  shows "keeps P (HandleSegmentUpdated X c seg)"
  unfolding HandleSegmentUpdated_def Let_def
  by (intro keeps_intros markAsHead_keeps assms)

lemma HandleSegmentUpdated_handler_ok: "handler_ok (Some (HandleSegmentUpdated X c))"
  by (auto simp: handler_ok_def intro!: HandleSegmentUpdated_keeps chain_free_segments
      MarkValid_keeps_queue MarkValid_keeps_loaded)

text \<open>The handler marks a segment valid only when it is disjointed, so it never revises a verdict.\<close>

lemma HandleSegmentUpdated_keeps_settled: "keeps (settled t v) (HandleSegmentUpdated X c seg)"
proof (cases "t = seg")
  case False
  have "keeps (settled t v) (MarkValid X (segStoreDbm c) seg)"
    unfolding MarkValid_def using False by (intro keeps_intros) (auto intro!: settled_upd)
  then show ?thesis by (intro HandleSegmentUpdated_keeps chain_free_segments)
next
  case True
  then show ?thesis
    by (intro keepsI) (simp add: HandleSegmentUpdated_def gbind_def settled_state)
qed

lemma manageStateOnce_keeps:
  assumes "chain_free P" "\<And>sid. keeps P (GetSegmentById X (segStoreDbm c) sid)"
  shows "keeps P (manageStateOnce X c t t2)"
  unfolding manageStateOnce_def stateSegment_def adoptHead_def
  by (intro keeps_intros chain_free_rules assms) (use assms(1) in \<open>erule chain_freeD, simp_all\<close>)

lemma HandleBlockCommit_keeps:
  assumes "chain_free P" "\<And>sid. keeps P (GetSegmentById X (segStoreDbm c) sid)"
    and "\<And>sid b p. keeps P (AppendBlock X (segStoreDbm c) sid r b p (c_blockValidator c) (c_encStrat c))"
    and "\<And>b. keeps P (NewSegment X (segStoreDbm c) uid b r)"
  shows "keeps P (HandleBlockCommit X c uid r)"
  unfolding HandleBlockCommit_def Let_def
  by (intro keeps_gbind keeps_GetBlock keeps_if keeps_gret assms chain_free_trigger)

section \<open>Published snapshots and the head block\<close>

text \<open>What waits in a subscriber's channel is at most one snapshot: the latest one, or one whose context is cancelled.\<close>

definition fresh_or_cancelled :: "('e, 'z) chain_world_scheme \<Rightarrow> snapshot list \<Rightarrow> bool" where
  "fresh_or_cancelled w ch \<longleftrightarrow>
     ch = [] \<or> (\<exists>s. ch = [s] \<and> (lastStateSnapshot w = Some s \<or> sn_Context s \<in> set (canceledCtxs w)))"

definition subs_inv :: "('e, 'z) chain_world_scheme \<Rightarrow> bool" where
  "subs_inv w \<longleftrightarrow> (\<forall>k ch. stateSubs w k = Some ch \<or> pendingSubs w k = Some ch \<longrightarrow> fresh_or_cancelled w ch)"

definition ctx_inv :: "('e, 'z) chain_world_scheme \<Rightarrow> bool" where
  "ctx_inv w \<longleftrightarrow>
     (stateSnapshotCtx w = None \<longrightarrow> lastStateSnapshot w = None \<and> canceledCtxs w = []) \<and>
     (\<forall>n. stateSnapshotCtx w = Some n \<longrightarrow>
        canceledCtxs w = rev [0..<n] \<and> map_option sn_Context (lastStateSnapshot w) = Some n)"

definition head_inv :: "('e, 'z) chain_world_scheme \<Rightarrow> bool" where
  "head_inv w \<longleftrightarrow> (lastBlock w = None \<longleftrightarrow> lastBlockHeader w = None) \<and>
     (\<forall>b. lastBlock w = Some b \<longrightarrow>
        lastBlockRef w = b_blkRef b \<and> lastHeadDigest w = GetObjectDigest (b_blkRef b))"

definition object_inv :: "('e, 'z) chain_world_scheme \<Rightarrow> bool" where
  "object_inv w \<longleftrightarrow> subs_inv w \<and> ctx_inv w \<and> head_inv w"

lemmas object_inv_defs = object_inv_def subs_inv_def ctx_inv_def head_inv_def fresh_or_cancelled_def

lemma emit_to_last [simp]: "emit_to s = (\<lambda>_. [s])"
  by (simp add: fun_eq_iff emit_to_def enqueue_loop_eq)

lemma object_inv_seg_free: "seg_free object_inv"
  by (simp add: seg_free_def object_inv_defs)

lemma object_inv_frame [simp]:
  "object_inv (w\<lparr>ch_state := s\<rparr>) = object_inv w"
  "object_inv (w\<lparr>recheckStateTrigger := t\<rparr>) = object_inv w"
  "object_inv (w\<lparr>ext := e\<rparr>) = object_inv w"
  by (simp_all add: object_inv_defs)

lemma emitNextChainState_apply:
  "emitNextChainState snap w =
     (let n = (case stateSnapshotCtx w of None \<Rightarrow> 0 | Some n \<Rightarrow> Suc n); s = snap\<lparr>sn_Context := n\<rparr> in
      (Ok (), w\<lparr>canceledCtxs := (case stateSnapshotCtx w of None \<Rightarrow> [] | Some m \<Rightarrow> [m]) @ canceledCtxs w,
        stateSnapshotCtx := Some n,
        lastStateSnapshot := Some s,
        stateSubs := (\<lambda>k. map_option (\<lambda>_. [s]) (stateSubs w k))\<rparr>))"
  by (cases "stateSnapshotCtx w")
     (simp_all add: emitNextChainState_def nextStateSnapshotCtx_def gbind_def Let_def)

lemma emit_cancels:
  assumes "ctx_inv w" "fresh_or_cancelled w ch"
  shows "fresh_or_cancelled (snd (emitNextChainState snap w)) ch"
  using assms by (cases "stateSnapshotCtx w") (auto simp: emitNextChainState_apply ctx_inv_def fresh_or_cancelled_def Let_def)

lemma emit_keeps_object: "keeps object_inv (emitNextChainState snap)"
proof (rule keepsI)
  fix w :: "('a, 'b) chain_world_scheme" assume inv: "object_inv w"
  let ?w = "snd (emitNextChainState snap w)"
  have "fresh_or_cancelled ?w ch" if "stateSubs ?w k = Some ch \<or> pendingSubs ?w k = Some ch" for k ch
  proof (cases "pendingSubs ?w k = Some ch")
    case True
    then have "pendingSubs w k = Some ch" by (simp add: emitNextChainState_apply Let_def)
    with inv show ?thesis by (intro emit_cancels) (auto simp: object_inv_def subs_inv_def)
  next
    case False
    with that show ?thesis by (auto simp: emitNextChainState_apply Let_def fresh_or_cancelled_def)
  qed
  then have "subs_inv ?w" by (simp add: subs_inv_def)
  moreover have "ctx_inv ?w" "head_inv ?w"
    using inv by (auto simp: emitNextChainState_apply object_inv_def ctx_inv_def head_inv_def Let_def split: option.splits)
  ultimately show "object_inv ?w" by (simp add: object_inv_def)
qed

lemma trigger_keeps_object: "keeps object_inv triggerStateRecheck"
  unfolding triggerStateRecheck_def by (intro keeps_intros) simp

lemma writeState_keeps_object: "keeps object_inv (Chain_writeState X c)"
  unfolding Chain_writeState_def by (intro keeps_intros trigger_keeps_object) simp

lemma setHeadBlock_keeps_object: "keeps object_inv (setHeadBlock X c b)"
  unfolding setHeadBlock_def
  by (intro keeps_intros writeState_keeps_object) (simp add: object_inv_defs)

lemma compute_keeps_object: "keeps object_inv (computeEmitSnapshot X c t t2)"
  unfolding computeEmitSnapshot_def computeRound_def emitRound_def Let_def by (intro keeps_intros emit_keeps_object) simp_all

lemmas seg_keeps_object = seg_free_rules [OF object_inv_seg_free]

lemma manageStateOnce_keeps_object: "keeps object_inv (manageStateOnce X c t t2)"
  unfolding manageStateOnce_def stateSegment_def adoptHead_def
  by (rule keeps_intros seg_keeps_object setHeadBlock_keeps_object compute_keeps_object
      writeState_keeps_object | simp)+

lemma HandleBlockCommit_keeps_object: "keeps object_inv (HandleBlockCommit X c uid r)"
  unfolding HandleBlockCommit_def Let_def
  by (intro keeps_gbind keeps_GetBlock keeps_if keeps_gret seg_keeps_object trigger_keeps_object)

lemma HandleSegmentUpdated_keeps_object: "keeps object_inv (HandleSegmentUpdated X c seg)"
  unfolding HandleSegmentUpdated_def markAsHead_def Let_def
  by (intro keeps_intros seg_keeps_object setHeadBlock_keeps_object)

lemma rewind_keeps_object: "keeps object_inv (manageSegmentRewindOnce X c)"
  unfolding manageSegmentRewindOnce_def
  by (intro seg_keeps_object HandleSegmentUpdated_keeps_object)

lemma Subscribe_keeps_object:
  "keeps object_inv (SubscribeState_begin k)" "keeps object_inv (SubscribeState_store k)"
  by (rule keepsI; auto simp: SubscribeState_begin_def SubscribeState_store_def gbind_def object_inv_defs split: option.splits)+

lemma UnsubscribeState_keeps_object: "keeps object_inv (UnsubscribeState k)"
  by (rule keepsI) (auto simp: UnsubscribeState_def object_inv_defs split: option.splits)

lemma ReceiveState_keeps_object: "keeps object_inv (ReceiveState k)"
  by (rule keepsI) (auto simp: ReceiveState_def object_inv_defs split: option.splits list.splits)

section \<open>Runs of the chain\<close>

definition chain_inv :: "('e, 'z) chain_world_scheme \<Rightarrow> bool" where
  "chain_inv w \<longleftrightarrow> queue_inv w \<and> object_inv w"

inductive chain_init :: "('e, 'x) externals_scheme \<Rightarrow> chain \<Rightarrow> ('e, 'z) chain_world_scheme \<Rightarrow> bool"
  for X c where
  init_load: "FromConfig X known reg dbm (conf :: bytes chain_conf) bv w0 = (Ok c, w) \<Longrightarrow> chain_init X c w"
| init_new: "NewChain X dbm cid priv bv gs rnd wrap ts ts2 uid0 uid w0 = (Ok (c, conf :: bytes chain_conf), w) \<Longrightarrow>
    chain_init X c w"

inductive chain_step ::
  "('e, 'x) externals_scheme \<Rightarrow> chain \<Rightarrow> ('e, 'z) chain_world_scheme \<Rightarrow> ('e, 'z) chain_world_scheme \<Rightarrow> bool"
  for X c where
  step_commit: "HandleBlockCommit X c uid r w = (res, w') \<Longrightarrow> chain_step X c w w'"
| step_manage: "manageStateOnce X c t t2 w = (res, w') \<Longrightarrow> chain_step X c w w'"
| step_rewind: "manageSegmentRewindOnce X c w = (again, w') \<Longrightarrow> chain_step X c w w'"
| step_subscribe: "SubscribeState_begin k w = (res, w') \<Longrightarrow> chain_step X c w w'"
| step_subscribed: "SubscribeState_store k w = (sub, w') \<Longrightarrow> chain_step X c w w'"
| step_unsubscribe: "UnsubscribeState k w = (res, w') \<Longrightarrow> chain_step X c w w'"
| step_receive: "ReceiveState k w = (snap, w') \<Longrightarrow> chain_step X c w w'"
| step_recheck: "recheckStateTrigger w = u # us \<Longrightarrow> chain_step X c w (w\<lparr>recheckStateTrigger := us\<rparr>)"

inductive chain_reachable ::
  "('e, 'x) externals_scheme \<Rightarrow> chain \<Rightarrow> ('e, 'z) chain_world_scheme \<Rightarrow> bool" for X c where
  reach_init: "chain_init X c w \<Longrightarrow> chain_reachable X c w"
| reach_step: "chain_reachable X c w \<Longrightarrow> chain_step X c w w' \<Longrightarrow> chain_reachable X c w'"

inductive_cases chain_stepE: "chain_step X c w w'"
inductive_cases chain_initE: "chain_init X c w"

lemma Subscribe_keeps_free:
  "chain_free P \<Longrightarrow> keeps P (SubscribeState_begin k)" "chain_free P \<Longrightarrow> keeps P (SubscribeState_store k)"
  unfolding SubscribeState_begin_def SubscribeState_store_def Let_def
  by (intro keeps_intros; (erule (1) chain_freeD; simp split: option.split))+

lemma UnsubscribeState_keeps_free: "chain_free P \<Longrightarrow> keeps P (UnsubscribeState k)"
  unfolding UnsubscribeState_def by (intro keeps_intros) ((erule (1) chain_freeD; simp)+)

lemma ReceiveState_keeps_free: "chain_free P \<Longrightarrow> keeps P (ReceiveState k)"
  by (rule keepsI, erule (1) chain_freeD) (simp_all add: ReceiveState_def split: option.split list.split)

text \<open>A step keeps every assertion on the segments that the operations of the store keep.\<close>

lemma chain_step_keeps:
  assumes step: "chain_step X c w w'" and P: "P w" "chain_free P"
    and store: "\<And>sid. keeps P (GetSegmentById X (segStoreDbm c) sid)"
      "\<And>sid r b p. keeps P (AppendBlock X (segStoreDbm c) sid r b p (c_blockValidator c) (c_encStrat c))"
      "\<And>uid b r. keeps P (NewSegment X (segStoreDbm c) uid b r)"
      "keeps P (manageSegmentRewindOnce X c)"
  shows "P w'"
  using step
proof cases
  case (step_commit uid r res)
  then show ?thesis using HandleBlockCommit_keeps [OF P(2) store(1-3)] P(1) by (metis keepsD)
next
  case (step_manage t t2 res)
  then show ?thesis using manageStateOnce_keeps [OF P(2) store(1)] P(1) by (metis keepsD)
next
  case (step_rewind again)
  then show ?thesis using store(4) P(1) by (metis keepsD)
next
  case (step_recheck u us)
  then show ?thesis using chain_freeD [OF P(2,1)] by simp
next
  case (step_subscribe k res)
  from Subscribe_keeps_free(1) [OF P(2)] this P(1) show ?thesis by (rule keepsD)
next
  case (step_subscribed k sub)
  from Subscribe_keeps_free(2) [OF P(2)] this P(1) show ?thesis by (rule keepsD)
next
  case (step_unsubscribe k res)
  from UnsubscribeState_keeps_free [OF P(2)] this P(1) show ?thesis by (rule keepsD)
next
  case (step_receive k snap)
  from ReceiveState_keeps_free [OF P(2)] this P(1) show ?thesis by (rule keepsD)
qed

lemma rewind_keeps_settled: "keeps (settled t v) (manageSegmentRewindOnce X c)"
  unfolding manageSegmentRewindOnce_def
  by (rule SegmentStore_RewindOnce_keeps_settled) (auto intro: HandleSegmentUpdated_keeps_settled)

lemma rewind_keeps_queue: "keeps queue_inv (manageSegmentRewindOnce X c)"
  unfolding manageSegmentRewindOnce_def
  by (rule SegmentStore_RewindOnce_keeps_queue) (rule HandleSegmentUpdated_handler_ok)

lemma chain_step_settled: "chain_step X c w w' \<Longrightarrow> settled t v w \<Longrightarrow> settled t v w'"
  by (rule chain_step_keeps)
     (auto intro: chain_free_segments AppendBlock_keeps_settled GetSegmentById_keeps_settled
       NewSegment_keeps_settled rewind_keeps_settled)

lemma chain_step_queue: "chain_step X c w w' \<Longrightarrow> queue_inv w \<Longrightarrow> queue_inv w'"
  by (rule chain_step_keeps)
     (auto intro: chain_free_segments AppendBlock_keeps_queue GetSegmentById_keeps_queue
       NewSegment_keeps_queue rewind_keeps_queue)

lemma chain_step_object: "chain_step X c w w' \<Longrightarrow> object_inv w \<Longrightarrow> object_inv w'"
proof (erule chain_stepE)
  fix u us assume "object_inv w" "w' = w\<lparr>recheckStateTrigger := us\<rparr>"
  then show "object_inv w'" by simp
qed (erule keepsD [rotated], assumption, rule HandleBlockCommit_keeps_object
    manageStateOnce_keeps_object rewind_keeps_object Subscribe_keeps_object
    UnsubscribeState_keeps_object ReceiveState_keeps_object)+

lemma fresh_chain_inv: "chain_inv (fresh_chain w)"
  by (simp add: chain_inv_def fresh_chain_def queue_inv_def object_inv_defs NewSegmentQueue_def heap_Init_def)

lemma FromConfig_parts:
  assumes "FromConfig X known reg dbm conf bv w0 = (Ok c, w)"
  shows "Chain_readState X c (fresh_chain w0) = (Ok (), w)" "c_dbm c = dbm"
    "c_GenesisRef c = conf_GenesisRef conf" "c_blockValidator c = bv"
  using assms
  by (auto simp: FromConfig_def Let_def case_fail_Ok_iff gtry_Ok_iff gbind_Ok_iff computePubsubTopic_def)

lemma FromConfig_inv:
  assumes "FromConfig X known reg dbm conf bv w0 = (Ok c, w)"
  shows "chain_inv w"
proof -
  have "keeps chain_inv (Chain_readState X c)"
    unfolding Chain_readState_def by (intro keeps_intros) (simp add: chain_inv_def queue_inv_def)
  from keepsD [OF this FromConfig_parts(1) [OF assms] fresh_chain_inv] show ?thesis .
qed

lemma NewSegment_block:
  "NewSegment X sdb uid b r w = (Ok (seg, b'), w') \<Longrightarrow> b' = b\<lparr>b_State := (b_State b)\<lparr>bs_SegmentId := uid\<rparr>\<rparr>"
  by (auto simp: NewSegment_def Let_def gbind_Ok_iff)

lemma mintFirstBlock_keeps_queue: "keeps queue_inv (mintFirstBlock X ch priv vid gs ts uid0 uid)"
  unfolding mintFirstBlock_def Let_def
  by (intro keeps_gbind keeps_gcall keeps_GetBlock keeps_case_prod NewSegment_keeps_queue keeps_gasks
      keeps_Block_WriteState chain_free_writeState chain_free_segments keeps_gmodify)
     (simp_all add: queue_inv_def)

lemma mintFirstBlock_parts:
  assumes "mintFirstBlock X ch priv vid gs ts uid0 uid w = (Ok (), w')"
  obtains e ref blk seg blk' w2 w3 w4 where
    "GetBlock X (c_encStrat ch) (GetBlockDbm ch) ref (w\<lparr>ext := e\<rparr>) = (Ok blk, w\<lparr>ext := e\<rparr>)"
    "NewSegment X (segStoreDbm ch) uid blk ref (w\<lparr>ext := e\<rparr>) = (Ok (seg, blk'), w2)"
    "Block_WriteState X (blk'\<lparr>b_State := (b_State blk')\<lparr>bs_SegmentId := ss_Id (seg_state X seg w2)\<rparr>\<rparr>) w2 =
       (Ok (), w3)"
    "Chain_writeState X ch (w3\<lparr>ch_state := \<lparr>cs_StateSegment = ss_Id (seg_state X seg w2),
       cs_LastHeight = 0, cs_LastRound = 0\<rparr>\<rparr>) = (Ok (), w4)"
    "w' = w4\<lparr>lastBlockHeader := Some (firstBlockHeader (c_GenesisRef ch)
         (gen_InitChainConfigRef (c_genesis ch)) ts (pretty_id X vid) gs), lastBlockRef := ref,
       lastBlock := Some (blk'\<lparr>b_State := (b_State blk')\<lparr>bs_SegmentId := ss_Id (seg_state X seg w2)\<rparr>\<rparr>),
       lastHeadDigest := GetObjectDigest ref\<rparr>"
  using assms
  by (auto simp: mintFirstBlock_def Let_def gbind_Ok_iff gcall_Ok keeps_all_eq [OF keeps_GetBlock]
      intro: that)

lemma mintFirstBlock_object:
  assumes "object_inv w" "mintFirstBlock X ch priv vid gs ts uid0 uid w = (Ok (), w')"
  shows "object_inv w'"
proof -
  from assms(2) obtain e ref blk seg blk' w2 w3 w4 where
    g: "GetBlock X (c_encStrat ch) (GetBlockDbm ch) ref (w\<lparr>ext := e\<rparr>) = (Ok blk, w\<lparr>ext := e\<rparr>)"
    and n: "NewSegment X (segStoreDbm ch) uid blk ref (w\<lparr>ext := e\<rparr>) = (Ok (seg, blk'), w2)"
    and b: "Block_WriteState X (blk'\<lparr>b_State := (b_State blk')\<lparr>bs_SegmentId := ss_Id (seg_state X seg w2)\<rparr>\<rparr>) w2 =
       (Ok (), w3)"
    and c: "Chain_writeState X ch (w3\<lparr>ch_state := \<lparr>cs_StateSegment = ss_Id (seg_state X seg w2),
       cs_LastHeight = 0, cs_LastRound = 0\<rparr>\<rparr>) = (Ok (), w4)"
    and w': "w' = w4\<lparr>lastBlockHeader := Some (firstBlockHeader (c_GenesisRef ch)
         (gen_InitChainConfigRef (c_genesis ch)) ts (pretty_id X vid) gs), lastBlockRef := ref,
       lastBlock := Some (blk'\<lparr>b_State := (b_State blk')\<lparr>bs_SegmentId := ss_Id (seg_state X seg w2)\<rparr>\<rparr>),
       lastHeadDigest := GetObjectDigest ref\<rparr>"
    by (rule mintFirstBlock_parts)
  have "object_inv w2" by (rule keepsD [OF seg_keeps_object(5) n]) (use assms(1) in simp)
  with b have "object_inv w3" by (auto intro: keepsD [OF keeps_Block_WriteState])
  then have "object_inv w4" by (intro keepsD [OF writeState_keeps_object c]) simp
  moreover have "b_blkRef blk' = ref" using NewSegment_block [OF n] GetBlock_fields [OF g] by simp
  ultimately show ?thesis by (simp add: w' object_inv_defs)
qed

lemma NewChain_parts:
  assumes "NewChain X dbm cid priv bv gs rnd wrap ts ts2 uid0 uid w0 = (Ok (c, conf), w)"
  obtains vid w1 where "mintFirstBlock X c priv vid gs ts2 uid0 uid (fresh_chain w1) = (Ok (), w)"
  using assms by (auto simp: NewChain_def Let_def gbind_Ok_iff split: if_splits intro: that)

lemma NewChain_inv:
  assumes "NewChain X dbm cid priv bv gs rnd wrap ts ts2 uid0 uid w0 = (Ok (c, conf), w)"
  shows "chain_inv w"
proof -
  obtain vid w1 where m: "mintFirstBlock X c priv vid gs ts2 uid0 uid (fresh_chain w1) = (Ok (), w)"
    using assms by (rule NewChain_parts)
  then show ?thesis
    using fresh_chain_inv [of w1] keepsD [OF mintFirstBlock_keeps_queue m] mintFirstBlock_object [OF _ m]
    by (simp add: chain_inv_def)
qed

lemma chain_reachable_inv: "chain_reachable X c w \<Longrightarrow> chain_inv w"
proof (induction rule: chain_reachable.induct)
  case (reach_init w)
  then show ?case by (auto elim!: chain_initE intro: FromConfig_inv NewChain_inv)
next
  case (reach_step w w')
  then show ?case using chain_step_queue chain_step_object by (auto simp: chain_inv_def)
qed

lemma chain_inv_facts:
  assumes "chain_inv w"
  shows "distinct (pq (segmentQueue w)) \<and> set (pq (segmentQueue w)) \<subseteq> dom (segmentMap w) \<and>
    (\<forall>k ch. stateSubs w k = Some ch \<longrightarrow> ch = [] \<or>
       (\<exists>s. ch = [s] \<and> (lastStateSnapshot w = Some s \<or> sn_Context s \<in> set (canceledCtxs w)))) \<and>
    (\<forall>s. lastStateSnapshot w = Some s \<longrightarrow> canceledCtxs w = rev [0..<sn_Context s]) \<and>
    (\<forall>b. lastBlock w = Some b \<longrightarrow>
       lastBlockRef w = b_blkRef b \<and> lastHeadDigest w = GetObjectDigest (b_blkRef b))"
proof -
  have inv: "queue_inv w" "subs_inv w" "ctx_inv w" "head_inv w"
    using assms by (simp_all add: chain_inv_def object_inv_def)
  have "\<forall>s. lastStateSnapshot w = Some s \<longrightarrow> canceledCtxs w = rev [0..<sn_Context s]"
    using inv(3) by (cases "stateSnapshotCtx w") (auto simp: ctx_inv_def)
  moreover have "\<forall>k ch. stateSubs w k = Some ch \<longrightarrow> ch = [] \<or>
       (\<exists>s. ch = [s] \<and> (lastStateSnapshot w = Some s \<or> sn_Context s \<in> set (canceledCtxs w)))"
    using inv(2) by (simp add: subs_inv_def fresh_or_cancelled_def)
  ultimately show ?thesis using inv(1,4) by (simp add: queue_inv_def head_inv_def)
qed

text \<open>In every state a chain can reach, from creation or loading through any sequence of block
  commits, state checks, rewinds, beginnings and ends of subscriptions and receives: the rewind queue holds each segment at
  most once and only segments of the store; what a subscriber has waiting is at most one snapshot, and
  it is the latest or one whose context is cancelled; every snapshot context but the latest one's is cancelled, each
  exactly once; and the head block, its reference and its digest agree. Block commits, state checks and rewinds run to their
  end before another one begins.\<close>

theorem chain_invariant:
  assumes "chain_reachable X c w"
  shows "distinct (pq (segmentQueue w)) \<and> set (pq (segmentQueue w)) \<subseteq> dom (segmentMap w) \<and>
    (\<forall>k ch. stateSubs w k = Some ch \<longrightarrow> ch = [] \<or>
       (\<exists>s. ch = [s] \<and> (lastStateSnapshot w = Some s \<or> sn_Context s \<in> set (canceledCtxs w)))) \<and>
    (\<forall>s. lastStateSnapshot w = Some s \<longrightarrow> canceledCtxs w = rev [0..<sn_Context s]) \<and>
    (\<forall>b. lastBlock w = Some b \<longrightarrow>
       lastBlockRef w = b_blkRef b \<and> lastHeadDigest w = GetObjectDigest (b_blkRef b))"
  by (rule chain_inv_facts [OF chain_reachable_inv [OF assms]])

text \<open>
  A snapshot that is published while a subscription lies between its two halves does not reach the new
  subscriber, whose channel then holds the snapshot before it, although its context is cancelled.
\<close>

theorem subscription_misses_snapshot:
  assumes "chain_inv w" and "lastStateSnapshot w = Some old"
  shows "\<exists>w' s. gbind (SubscribeState_begin k) (\<lambda>_. gbind (emitNextChainState snap) (\<lambda>_. SubscribeState_store k)) w =
      (Ok k, w') \<and>
    stateSubs w' k = Some [old] \<and> sn_Context old \<in> set (canceledCtxs w') \<and>
    lastStateSnapshot w' = Some s \<and> s \<noteq> old \<and> sn_Context s \<notin> set (canceledCtxs w')"
proof -
  have n: "stateSnapshotCtx w = Some (sn_Context old)" "canceledCtxs w = rev [0..<sn_Context old]"
    using assms by (cases "stateSnapshotCtx w"; simp add: chain_inv_def object_inv_def ctx_inv_def)+
  have "snap\<lparr>sn_Context := Suc (sn_Context old)\<rparr> \<noteq> old"
    by (metis n_not_Suc_n snapshot.select_convs(1) snapshot.surjective snapshot.update_convs(1))
  with n assms(2) show ?thesis
    by (simp add: SubscribeState_begin_def SubscribeState_store_def emitNextChainState_apply Let_def gbind_def)
qed

text \<open>A segment's verdict is final between operations that do not overlap. Once a segment of the store is valid or
  invalid it keeps that
  status in every later state of the chain.\<close>

theorem segment_verdict_final:
  assumes "(chain_step X c)\<^sup>*\<^sup>* w w'" and "segmentMap w t = Some st" and "ss_Status st \<noteq> DISJOINTED"
  shows "\<exists>st'. segmentMap w' t = Some st' \<and> ss_Status st' = ss_Status st"
proof -
  have "settled t (ss_Status st) w" using assms(2,3) by (simp add: settled_def)
  with assms(1) have "settled t (ss_Status st) w'"
    by (induction rule: rtranclp_induct) (auto intro: chain_step_settled)
  then show ?thesis by (auto simp: settled_def)
qed

end
