(* ===== verification/Commits.thy ===== *)
theory Commits
  imports ChainInv
begin

text \<open>
  Block commits and restarts: what the database holds after \<open>HandleBlockCommit\<close>, that a repeated
  commit changes nothing, and that a chain loaded again resumes from the state that was written.
\<close>

section \<open>Where the chain keeps its data\<close>

lemma GetBlock_path:
  "GetBlock X s h ref w = (Ok b, w') \<Longrightarrow> block_path b = concat h @ ''/'' @ b64_encode (GetObjectDigest ref)"
  by (simp add: block_path_def GetBlock_fields)

lemma chain_paths_differ:
  assumes "GetBlock X s (GetBlockDbm c) ref w = (Ok b, w')"
  shows "block_path b \<noteq> segment_path (segStoreDbm c) st"
  using GetBlock_path [OF assms] by (simp add: GetBlockDbm_def segment_path_def segStoreDbm_def WithPrefix_def)

text \<open>Writing the database leaves the stored objects alone.\<close>

definition same_objects ::
  "('e, 'x) externals_scheme \<Rightarrow> ('e, 'y) world_scheme \<Rightarrow> ('e, 'z) world_scheme \<Rightarrow> bool" where
  "same_objects X w0 w \<longleftrightarrow>
     follow_block X (ext w) = follow_block X (ext w0) \<and> follow_header X (ext w) = follow_header X (ext w0)"

lemma same_objects_write:
  "objects_ok X \<Longrightarrow> keeps (same_objects X w0) (write_slot X c h k v)"
proof (rule keepsI)
  fix w assume "objects_ok X" "same_objects X w0 w"
  then show "same_objects X w0 (snd (write_slot X c h k v w))"
    using write_slot_objects(1,2) [of X c h k v w "fst (write_slot X c h k v w)" "snd (write_slot X c h k v w)"]
    by (simp add: same_objects_def)
qed

lemma same_objects_refl [simp]: "same_objects X w w"
  by (simp add: same_objects_def)

lemma same_objects_seg_update: "keeps (same_objects X w0) (seg_update X sid f)"
  by (rule keeps_seg_update) (simp add: same_objects_def)

lemma same_objects_AppendBlock:
  assumes "objects_ok X"
  shows "keeps (same_objects X w0) (AppendBlock X sdb sid r b p v s)"
  unfolding AppendBlock_def Let_def Block_WriteState_def Segment_writeState_def
  by (intro keeps_gbind keeps_gasks keeps_gret keeps_gfail keeps_if keeps_case_option
      keeps_FollowBlockRef keeps_ValidateChild same_objects_seg_update same_objects_write assms)

lemma same_objects_Follow:
  assumes "same_objects X w w'"
  shows "FollowBlockRef X ref s w = (r1, w) \<Longrightarrow> FollowBlockRef X ref s w' = (r1, w')"
    "FollowBlockHeaderRef X ref s w = (r2, w) \<Longrightarrow> FollowBlockHeaderRef X ref s w' = (r2, w')"
  using assms
  by (auto simp: same_objects_def FollowBlockRef_def FollowBlockHeaderRef_def gbind_def split: res.splits)

lemma GetBlock_again:
  assumes "GetBlock X s h ref w = (Ok b, w)" "same_objects X w w'"
    and "Block_ReadState X (b\<lparr>b_State := \<lparr>bs_SegmentId = '''', bs_NextBlock = None\<rparr>\<rparr>) w' = (Ok b', w')"
  shows "GetBlock X s h ref w' = (Ok b', w')"
proof -
  from assms(1) obtain blk hdr st where
    f: "FollowBlockRef X ref s w = (Ok blk, w)" "FollowBlockHeaderRef X (blk_BlockHeaderRef blk) s w = (Ok hdr, w)"
    and b: "b = \<lparr>b_State = st, b_dbm = h, b_blk = blk, b_header = hdr, b_encStrat = s, b_blkRef = ref,
             b_id = b64_encode (GetObjectDigest ref), b_dbKey = ''/'' @ b64_encode (GetObjectDigest ref)\<rparr>"
    by (auto simp: GetBlock_split)
  with same_objects_Follow [OF assms(2)] assms(3) show ?thesis
    by (simp add: GetBlock_def Let_def gbind_def)
qed

lemma GetBlock_same_slot:
  assumes "GetBlock X s h ref w = (Ok b, w)" "GetBlock X s h ref' w = (Ok p, w)"
    and "block_path p = block_path b"
  shows "b_State p = b_State b"
proof -
  from assms have "b64_encode (GetObjectDigest ref') = b64_encode (GetObjectDigest ref)"
    using GetBlock_path by (metis append_same_eq same_append_eq)
  with assms(1,2) show ?thesis by (auto simp: GetBlock_split)
qed

lemma GetBlock_ext:
  assumes "GetBlock X s h ref w = (r, w)" "ext w' = ext w"
  shows "GetBlock X s h ref w' = (r, w')"
proof -
  have "fst (GetBlock X s h ref w') = r"
    using assms
    by (auto simp: GetBlock_def Block_ReadState_def read_slot_def FollowBlockRef_def
        FollowBlockHeaderRef_def Let_def gbind_def split: res.splits option.splits)
  then show ?thesis using keeps_all_snd [OF keeps_GetBlock] by (metis prod.collapse)
qed

lemma GetSegmentById_shape:
  assumes "GetSegmentById X sdb sid w = (Ok t, w')"
  obtains m st where "t = sid" "w' = w\<lparr>segmentMap := m\<rparr>" "m sid = Some st"
proof (cases "segmentMap w sid")
  case None
  with assms that show thesis
    by (auto simp: GetSegmentById_def Segment_readState_def gbind_Ok_iff read_slot_eq)
next
  case (Some st)
  with assms have "t = sid" "w' = w\<lparr>segmentMap := segmentMap w\<rparr>"
    by (simp_all add: GetSegmentById_def gbind_def)
  then show thesis using that Some by blast
qed

lemma GetSegmentById_Ok:
  assumes "GetSegmentById X sdb sid w = (Ok t, w')"
  shows "t = sid" "ext w' = ext w" "GetSegmentById X sdb sid w' = (Ok sid, w')"
proof -
  obtain m st where "t = sid" "w' = w\<lparr>segmentMap := m\<rparr>" "m sid = Some st"
    using assms by (rule GetSegmentById_shape)
  then show "t = sid" "ext w' = ext w" "GetSegmentById X sdb sid w' = (Ok sid, w')"
    by (simp_all add: GetSegmentById_def gbind_def)
qed

lemma HandleBlockCommit_cases:
  assumes "HandleBlockCommit X c uid r w = (Ok (), w')"
  obtains (known) b where "GetBlock X (c_encStrat c) (GetBlockDbm c) r w = (Ok b, w)"
      "bs_SegmentId (b_State b) \<noteq> ''''" "w' = w"
  | (append) b p w1 w2 where "GetBlock X (c_encStrat c) (GetBlockDbm c) r w = (Ok b, w)"
      "bs_SegmentId (b_State b) = ''''"
      "GetBlock X (c_encStrat c) (GetBlockDbm c) (hdr_LastBlockRef (b_header b)) w = (Ok p, w)"
      "bs_SegmentId (b_State p) \<noteq> ''''"
      "GetSegmentById X (segStoreDbm c) (bs_SegmentId (b_State p)) w = (Ok (bs_SegmentId (b_State p)), w1)"
      "AppendBlock X (segStoreDbm c) (bs_SegmentId (b_State p)) r b p (c_blockValidator c) (c_encStrat c) w1
         = (Ok (), w2)"
      "w' = w2\<lparr>recheckStateTrigger := try_send 1 () (recheckStateTrigger w2)\<rparr>"
  | (fresh) b p x where "GetBlock X (c_encStrat c) (GetBlockDbm c) r w = (Ok b, w)"
      "bs_SegmentId (b_State b) = ''''"
      "GetBlock X (c_encStrat c) (GetBlockDbm c) (hdr_LastBlockRef (b_header b)) w = (Ok p, w)"
      "bs_SegmentId (b_State p) = ''''" "NewSegment X (segStoreDbm c) uid b r w = (Ok x, w')"
proof -
  from assms obtain b where b: "GetBlock X (c_encStrat c) (GetBlockDbm c) r w = (Ok b, w)"
    by (auto simp: HandleBlockCommit_def gbind_Ok_iff keeps_all_eq [OF keeps_GetBlock])
  show thesis
  proof (cases "bs_SegmentId (b_State b) = ''''")
    case False
    with assms b show thesis by (intro known [OF b]) (auto simp: HandleBlockCommit_def gbind_def)
  next
    case True
    with assms b obtain p where
      p: "GetBlock X (c_encStrat c) (GetBlockDbm c) (hdr_LastBlockRef (b_header b)) w = (Ok p, w)"
      by (auto simp: HandleBlockCommit_def gbind_Ok_iff keeps_all_eq [OF keeps_GetBlock])
    from assms True b p append [OF b True p] fresh [OF b True p] show thesis
      by (cases "bs_SegmentId (b_State p) = ''''")
         (auto simp: HandleBlockCommit_def Let_def gbind_Ok_iff triggerStateRecheck_def
           dest: GetSegmentById_Ok(1))
  qed
qed

lemma commit_appends:
  assumes X: "store_ok X"
    and b: "GetBlock X (c_encStrat c) (GetBlockDbm c) r w = (Ok b, w)" "bs_SegmentId (b_State b) = ''''"
    and p: "GetBlock X (c_encStrat c) (GetBlockDbm c) (hdr_LastBlockRef (b_header b)) w = (Ok p, w)"
      "bs_SegmentId (b_State p) \<noteq> ''''" "bs_NextBlock (b_State p) = None"
    and w1: "ext w1 = ext w"
    and run: "AppendBlock X (segStoreDbm c) sid r b p (c_blockValidator c) (c_encStrat c) w1 = (Ok (), w')"
  shows "GetBlock X (c_encStrat c) (GetBlockDbm c) r w' =
      (Ok (b\<lparr>b_State := (b_State b)\<lparr>bs_SegmentId := bs_SegmentId (b_State p)\<rparr>\<rparr>), w')"
    "GetBlock X (c_encStrat c) (GetBlockDbm c) (hdr_LastBlockRef (b_header b)) w' =
      (Ok (p\<lparr>b_State := (b_State p)\<lparr>bs_NextBlock := r\<rparr>\<rparr>), w')"
    "valid_child X (ext w) p b"
    "\<exists>ok. validator_verdict (c_blockValidator c) b p = Ok ok \<and> seg_state X sid w' = (seg_state X sid w1)
      \<lparr>ss_HeadBlock := r, ss_Status := append_status ok (ss_Status (seg_state X sid w1))\<rparr>"
    "ss_Id st0 = ss_Id (seg_state X sid w1) \<Longrightarrow>
      Segment_readState X (segStoreDbm c) st0 w' = (Ok (seg_state X sid w'), w')"
proof -
  note b1 = GetBlock_ext [OF b(1) w1] and p1 = GetBlock_ext [OF p(1) w1]
  have "block_path p \<noteq> block_path b" using GetBlock_same_slot [OF b(1) p(1)] b(2) p(2) by auto
  with AppendBlock_linked_state [OF X _ chain_paths_differ [OF p1] chain_paths_differ [OF b1] p(3) run]
  have rd: "Block_ReadState X (p\<lparr>b_State := st\<rparr>) w' = (Ok (p\<lparr>b_State := (b_State p)\<lparr>bs_NextBlock := r\<rparr>\<rparr>), w')"
      "Block_ReadState X (b\<lparr>b_State := st\<rparr>) w' =
        (Ok (b\<lparr>b_State := (b_State b)\<lparr>bs_SegmentId := bs_SegmentId (b_State p)\<rparr>\<rparr>), w')"
    and vc: "valid_child X (ext w1) p b"
    and seg: "\<exists>ok. validator_verdict (c_blockValidator c) b p = Ok ok \<and> seg_state X sid w' = (seg_state X sid w1)
      \<lparr>ss_HeadBlock := r, ss_Status := append_status ok (ss_Status (seg_state X sid w1))\<rparr>"
      "\<forall>st. ss_Id st = ss_Id (seg_state X sid w1) \<longrightarrow>
        Segment_readState X (segStoreDbm c) st w' = (Ok (seg_state X sid w'), w')" for st
    by auto
  have "same_objects X w1 w'"
    by (rule keepsD [OF same_objects_AppendBlock run]) (use X in \<open>simp_all add: store_ok_def\<close>)
  from GetBlock_again [OF b1 this rd(2)] GetBlock_again [OF p1 this rd(1)] seg vc w1
  show "GetBlock X (c_encStrat c) (GetBlockDbm c) r w' =
      (Ok (b\<lparr>b_State := (b_State b)\<lparr>bs_SegmentId := bs_SegmentId (b_State p)\<rparr>\<rparr>), w')"
    "GetBlock X (c_encStrat c) (GetBlockDbm c) (hdr_LastBlockRef (b_header b)) w' =
      (Ok (p\<lparr>b_State := (b_State p)\<lparr>bs_NextBlock := r\<rparr>\<rparr>), w')"
    "valid_child X (ext w) p b"
    "\<exists>ok. validator_verdict (c_blockValidator c) b p = Ok ok \<and> seg_state X sid w' = (seg_state X sid w1)
      \<lparr>ss_HeadBlock := r, ss_Status := append_status ok (ss_Status (seg_state X sid w1))\<rparr>"
    "ss_Id st0 = ss_Id (seg_state X sid w1) \<Longrightarrow>
      Segment_readState X (segStoreDbm c) st0 w' = (Ok (seg_state X sid w'), w')" by simp_all
qed

lemma NewSegment_Ok:
  assumes "NewSegment X sdb uid b r w = (Ok x, w')"
  obtains st w1 w2 where "write_slot X (pb_segment_state X) sdb (Segment_dbKey st) st w = (Ok (), w1)"
    "Block_WriteState X (b\<lparr>b_State := (b_State b)\<lparr>bs_SegmentId := uid\<rparr>\<rparr>) w1 = (Ok (), w2)"
    "ext w' = ext w2"
proof -
  from assms obtain st w1 w2 w3 where
    w: "write_slot X (pb_segment_state X) sdb (Segment_dbKey st) st w = (Ok (), w1)"
      "Block_WriteState X (b\<lparr>b_State := (b_State b)\<lparr>bs_SegmentId := uid\<rparr>\<rparr>) w1 = (Ok (), w2)"
    and g: "GetSegmentById X sdb uid w2 = (Ok (fst x), w3)"
    and e: "ext w' = ext w3"
    by (auto simp: NewSegment_def Let_def gbind_Ok_iff queue_push_def split: if_splits)
  from that [OF w] e GetSegmentById_Ok(2) [OF g] show thesis by simp
qed

lemma NewSegment_reload:
  assumes X: "store_ok X" and b: "GetBlock X s h r w = (Ok b, w)"
    and run: "NewSegment X sdb uid b r w = (Ok x, w')"
  shows "GetBlock X s h r w' = (Ok (b\<lparr>b_State := (b_State b)\<lparr>bs_SegmentId := uid\<rparr>\<rparr>), w')"
proof -
  note ok = X [unfolded store_ok_def]
  let ?b = "b\<lparr>b_State := (b_State b)\<lparr>bs_SegmentId := uid\<rparr>\<rparr>"
  from run obtain st w1 w2 where
    w1: "write_slot X (pb_segment_state X) sdb (Segment_dbKey st) st w = (Ok (), w1)"
    and w2: "Block_WriteState X ?b w1 = (Ok (), w2)" and e: "ext w' = ext w2"
    by (rule NewSegment_Ok)
  have obj: "objects_ok X" using ok by simp
  have "same_objects X w w1" by (rule keepsD [OF same_objects_write [OF obj] w1]) simp
  then have "same_objects X w w2"
    by (rule keepsD [OF same_objects_write [OF obj] w2 [unfolded Block_WriteState_def]])
  then have same: "same_objects X w w'" using e by (simp add: same_objects_def)
  let ?z = "\<lparr>bs_SegmentId = '''', bs_NextBlock = None\<rparr>"
  have "fst (read_slot X (pb_block_state X) (b_dbm b) (b_dbKey b) ?z w') = Ok (b_State ?b)"
    using Block_reads_written [OF _ _ w2, of b ?z] read_slot_ext [OF e, of X "pb_block_state X"] ok
    by (simp add: block_path_def)
  from read_slot_Ok [OF this] have "Block_ReadState X (b\<lparr>b_State := ?z\<rparr>) w' = (Ok ?b, w')"
    by (simp add: Block_ReadState_def GetDbKey_def gbind_def)
  from GetBlock_again [OF b same this] show ?thesis .
qed

lemma commit_known_noop:
  assumes "GetBlock X (c_encStrat c) (GetBlockDbm c) r w = (Ok b, w)" "bs_SegmentId (b_State b) \<noteq> ''''"
  shows "HandleBlockCommit X c uid r w = (Ok (), w)"
  using assms by (simp add: HandleBlockCommit_def gbind_def)

lemma AppendBlock_linked_noop:
  assumes "bs_NextBlock (b_State p) = Some q" "AppendBlock X sdb sid r b p v s w = (Ok (), w')"
  shows "w' = w"
  using assms FollowBlockRef_state
  by (fastforce simp: AppendBlock_def gbind_Ok_iff split: if_splits)

text \<open>C11: a block commit takes effect once. When handling a commit succeeds, handling the same commit
  again, at any later time with nothing in between, succeeds and changes nothing at all.\<close>

theorem commit_idempotent:
  assumes "store_ok X" and "uid \<noteq> ''''" and run: "HandleBlockCommit X c uid r w = (Ok (), w')"
  shows "HandleBlockCommit X c uid' r w' = (Ok (), w')"
  using run
proof (cases rule: HandleBlockCommit_cases)
  case (known b)
  then show ?thesis by (simp add: commit_known_noop)
next
  case (fresh b p x)
  from NewSegment_reload [OF assms(1) fresh(1,5)] show ?thesis
    by (rule commit_known_noop) (simp add: assms(2))
next
  case (append b p w1 w2)
  note w1 = GetSegmentById_Ok [OF append(5)]
  show ?thesis
  proof (cases "bs_NextBlock (b_State p)")
    case None
    from commit_appends(1) [OF assms(1) append(1-4) None w1(2) append(6)]
    have "GetBlock X (c_encStrat c) (GetBlockDbm c) r w' =
      (Ok (b\<lparr>b_State := (b_State b)\<lparr>bs_SegmentId := bs_SegmentId (b_State p)\<rparr>\<rparr>), w')"
      by (rule GetBlock_ext) (simp add: append(7))
    then show ?thesis by (rule commit_known_noop) (simp add: append(4))
  next
    case (Some q)
    then have w2: "w2 = w1" using append(6) by (rule AppendBlock_linked_noop)
    have e: "ext w' = ext w" using append(7) w2 w1(2) by simp
    have seg: "GetSegmentById X (segStoreDbm c) (bs_SegmentId (b_State p)) w' =
        (Ok (bs_SegmentId (b_State p)), w')"
      using GetSegmentById_loaded [OF append(5)] append(7) w2 by (auto simp: GetSegmentById_def gbind_def)
    have app: "AppendBlock X (segStoreDbm c) (bs_SegmentId (b_State p)) r b p (c_blockValidator c)
        (c_encStrat c) w' = (Ok (), w')"
      using append(6,7) w2 Some
      by (auto simp: AppendBlock_def FollowBlockRef_def gbind_def split: res.splits if_splits)
    have "try_send 1 () (recheckStateTrigger w') = recheckStateTrigger w'"
      using append(7) by (simp add: try_send_def)
    then show ?thesis
      using GetBlock_ext [OF append(1) e] GetBlock_ext [OF append(3) e] append(2,4) seg app
      by (simp add: HandleBlockCommit_def Let_def gbind_def triggerStateRecheck_def)
  qed
qed

text \<open>C10: a commit of a new block whose parent is the unlinked end of a segment extends the chain. The
  block satisfies the child rule; afterwards loading it from the database shows it in its parent's segment, loading the
  parent shows it pointing to the new block; the segment, as it was found in the store, has the new block as its head and
  is valid if the application's validator says so and it was not invalid; reading the segment from the database gives
  that same state; and a recheck of the state is pending.\<close>

theorem commit_extends_segment:
  assumes "store_ok X" and run: "HandleBlockCommit X c uid r w = (Ok (), w')"
    and "GetBlock X (c_encStrat c) (GetBlockDbm c) r w = (Ok b, w)" "bs_SegmentId (b_State b) = ''''"
    and "GetBlock X (c_encStrat c) (GetBlockDbm c) (hdr_LastBlockRef (b_header b)) w = (Ok p, w)"
      "bs_SegmentId (b_State p) \<noteq> ''''" "bs_NextBlock (b_State p) = None"
  shows "valid_child X (ext w) p b \<and>
    GetBlock X (c_encStrat c) (GetBlockDbm c) r w' =
      (Ok (b\<lparr>b_State := (b_State b)\<lparr>bs_SegmentId := bs_SegmentId (b_State p)\<rparr>\<rparr>), w') \<and>
    GetBlock X (c_encStrat c) (GetBlockDbm c) (hdr_LastBlockRef (b_header b)) w' =
      (Ok (p\<lparr>b_State := (b_State p)\<lparr>bs_NextBlock := r\<rparr>\<rparr>), w') \<and>
    (\<exists>ok st w1. validator_verdict (c_blockValidator c) b p = Ok ok \<and>
      GetSegmentById X (segStoreDbm c) (bs_SegmentId (b_State p)) w = (Ok (bs_SegmentId (b_State p)), w1) \<and>
      st = seg_state X (bs_SegmentId (b_State p)) w1 \<and>
      seg_state X (bs_SegmentId (b_State p)) w' = st\<lparr>ss_HeadBlock := r, ss_Status := append_status ok (ss_Status st)\<rparr> \<and>
      (\<forall>st0. ss_Id st0 = ss_Id st \<longrightarrow> Segment_readState X (segStoreDbm c) st0 w' =
        (Ok (seg_state X (bs_SegmentId (b_State p)) w'), w'))) \<and>
    recheckStateTrigger w' \<noteq> []"
  using run
proof (cases rule: HandleBlockCommit_cases)
  case (append b' p' w1 w2)
  then have b: "b' = b" "p' = p" using assms(3,5) by auto
  note a = append [unfolded b]
  let ?sid = "bs_SegmentId (b_State p)"
  note seg = GetSegmentById_Ok [OF a(5)]
  note links = commit_appends [OF assms(1) a(1-4) assms(7) seg(2) a(6)]
  have e: "ext w' = ext w2" "seg_state X t w' = seg_state X t w2" for t
    using a(7) by (simp_all add: seg_state_def)
  have "Segment_readState X (segStoreDbm c) st0 w' = (Ok (seg_state X ?sid w'), w')"
    if "ss_Id st0 = ss_Id (seg_state X ?sid w1)" for st0
    using links(5) [OF that] e(2)
      read_slot_ext [OF e(1), of X "pb_segment_state X" "segStoreDbm c" "Segment_dbKey st0" st0]
    by (simp add: Segment_readState_def read_slot_Ok)
  with links(1-4) GetBlock_ext [OF links(1) e(1)] GetBlock_ext [OF links(2) e(1)] e(2) a(5,7)
  show ?thesis by (auto simp: try_send_def)
qed (use assms in auto)

section \<open>Restarts\<close>

lemma Chain_writeState_Ok:
  assumes "Chain_writeState X c w = (Ok (), w')"
  obtains w1 where "write_slot X (pb_chain_state X) (c_dbm c) (Chain_dbKey c) (ch_state w) w = (Ok (), w1)"
    "w' = w1\<lparr>recheckStateTrigger := try_send 1 () (recheckStateTrigger w1)\<rparr>"
  using assms by (auto simp: Chain_writeState_def triggerStateRecheck_def gbind_Ok_iff gtry_Ok_iff intro: that)

lemma Chain_write_read:
  assumes "db_ok X" "codec_ok (pb_chain_state X)" "Chain_writeState X c w = (Ok (), w')"
    and "c_dbm c' = c_dbm c" "Chain_dbKey c' = Chain_dbKey c" "ext w'' = ext w'"
  shows "Chain_readState X c' w'' = (Ok (), w''\<lparr>ch_state := ch_state w\<rparr>)"
proof -
  from assms(3) obtain w1 where
    wr: "write_slot X (pb_chain_state X) (c_dbm c) (Chain_dbKey c) (ch_state w) w = (Ok (), w1)"
    and w': "w' = w1\<lparr>recheckStateTrigger := try_send 1 () (recheckStateTrigger w1)\<rparr>"
    by (rule Chain_writeState_Ok)
  have "fst (read_slot X (pb_chain_state X) (c_dbm c') (Chain_dbKey c') (ch_state w'') w'') = Ok (ch_state w)"
    using read_after_write [OF assms(1,2) wr, of "c_dbm c'" "Chain_dbKey c'" "ch_state w''"]
      read_slot_ext [of w'' w1 X "pb_chain_state X"] assms(4-6) w' by simp
  from read_slot_Ok [OF this] show ?thesis by (simp add: Chain_readState_def gbind_def)
qed

interpretation chain_slot: persisted
  "\<lambda>(X, c). db_ok X \<and> codec_ok (pb_chain_state X)"
  "\<lambda>(X, c) st. gbind (gmodify (\<lambda>w. w\<lparr>ch_state := st\<rparr>)) (\<lambda>_. Chain_writeState X c)"
  "\<lambda>(X, c) st. read_slot X (pb_chain_state X) (c_dbm c) (Chain_dbKey c) st"
proof (unfold_locales, goal_cases)
  case (1 p x s s' y)
  obtain X c where p: "p = (X, c)" by force
  with 1 have ok: "db_ok X" "codec_ok (pb_chain_state X)"
    and wr: "Chain_writeState X c (s\<lparr>ch_state := x\<rparr>) = (Ok (), s')" by (auto simp: gbind_def)
  from wr obtain w1 where
    w1: "write_slot X (pb_chain_state X) (c_dbm c) (Chain_dbKey c) x (s\<lparr>ch_state := x\<rparr>) = (Ok (), w1)"
    "s' = w1\<lparr>recheckStateTrigger := try_send 1 () (recheckStateTrigger w1)\<rparr>"
    by (auto elim: Chain_writeState_Ok)
  have "fst (read_slot X (pb_chain_state X) (c_dbm c) (Chain_dbKey c) y s') = Ok x"
    using read_after_write [OF ok w1(1), of "c_dbm c" "Chain_dbKey c" y]
      read_slot_ext [of s' w1 X "pb_chain_state X"] w1(2) by simp
  from read_slot_Ok [OF this] p show ?case by simp
next
  case (2 p y s)
  show ?case by (auto split: prod.splits)
qed

lemma setHeadBlock_state:
  assumes "setHeadBlock X c b w = (r, w')"
  shows "ch_state w' = \<lparr>cs_StateSegment = bs_SegmentId (b_State b),
      cs_LastHeight = GetHeight (hdr_RoundInfo (b_header b)) + 1, cs_LastRound = 0\<rparr> \<and>
    lastBlock w' = Some b \<and> lastHeadDigest w' = GetObjectDigest (b_blkRef b)"
proof -
  let ?w = "w\<lparr>lastBlock := Some b, lastBlockHeader := Some (b_header b), lastBlockRef := b_blkRef b,
       lastHeadDigest := GetObjectDigest (b_blkRef b),
       ch_state := \<lparr>cs_StateSegment = bs_SegmentId (b_State b),
         cs_LastHeight = GetHeight (hdr_RoundInfo (b_header b)) + 1, cs_LastRound = 0\<rparr>\<rparr>"
  let ?P = "\<lambda>w'. ch_state w' = ch_state ?w \<and> lastBlock w' = Some b \<and>
    lastHeadDigest w' = GetObjectDigest (b_blkRef b)"
  have "Chain_writeState X c ?w = (r, w')" using assms by (simp add: setHeadBlock_def gbind_def)
  moreover have "keeps ?P (Chain_writeState X c)"
    unfolding Chain_writeState_def triggerStateRecheck_def by (intro keeps_intros) auto
  ultimately show ?thesis using keepsD [of ?P "Chain_writeState X c" ?w r w'] by simp
qed

text \<open>C26: a restart resumes from the recorded head. After a head block has been set and written, loading
  a chain with the same database and chain identifier finds exactly that state: the head's segment,
  the height after the head's, and round zero.\<close>

theorem restart_resumes_head:
  assumes "db_ok X" and "codec_ok (pb_chain_state X)"
    and "setHeadBlock X c b w = (Ok (), w')"
    and "FromConfig X known reg (c_dbm c) conf bv w0 = (Ok c', w'')" and "ext w0 = ext w'"
    and "gen_ChainId (c_genesis c') = gen_ChainId (c_genesis c)"
  shows "ch_state w'' = \<lparr>cs_StateSegment = bs_SegmentId (b_State b),
    cs_LastHeight = GetHeight (hdr_RoundInfo (b_header b)) + 1, cs_LastRound = 0\<rparr>"
proof -
  note ld = FromConfig_parts [OF assms(4)]
  obtain w1 where w1: "Chain_writeState X c w1 = (Ok (), w')"
    "ch_state w1 = \<lparr>cs_StateSegment = bs_SegmentId (b_State b),
       cs_LastHeight = GetHeight (hdr_RoundInfo (b_header b)) + 1, cs_LastRound = 0\<rparr>"
    using assms(3) by (auto simp: setHeadBlock_def gbind_Ok_iff)
  have "Chain_readState X c' (fresh_chain w0) = (Ok (), (fresh_chain w0)\<lparr>ch_state := ch_state w1\<rparr>)"
    by (rule Chain_write_read [OF assms(1,2) w1(1)])
       (use ld assms(5,6) in \<open>simp_all add: Chain_dbKey_def fresh_chain_def\<close>)
  with ld(1) w1(2) show ?thesis by auto
qed

section \<open>The state check follows the segment's head\<close>

text \<open>What a check has to say about the head block, and what \<open>computeEmitSnapshot\<close> leaves alone.\<close>

definition head_view :: "('e, 'z) chain_world_scheme \<Rightarrow>
    'e \<times> (string \<Rightarrow> segment_state option) \<times> block option \<times> block_header option \<times> sref \<times> bytes \<times> string" where
  "head_view w = (ext w, segmentMap w, lastBlock w, lastBlockHeader w, lastBlockRef w, lastHeadDigest w,
     cs_StateSegment (ch_state w))"

lemma compute_keeps_head: "keeps (\<lambda>w. head_view w = k) (computeEmitSnapshot X c t t2)"
proof -
  have "keeps (\<lambda>w. head_view w = k) (emitNextChainState snap)" for snap
    by (rule keepsI) (simp add: emitNextChainState_apply Let_def head_view_def)
  then show ?thesis
    unfolding computeEmitSnapshot_def computeRound_def emitRound_def Let_def
    by (intro keeps_intros) (simp_all add: head_view_def)
qed

definition state_segment :: "('e, 'x) externals_scheme \<Rightarrow> string \<Rightarrow> ('e, 'z) seg_world_scheme \<Rightarrow> string" where
  "state_segment X sid w =
     (let n = ss_SegmentNext (seg_state X sid w) in if n \<noteq> '''' then n else sid)"

text \<open>The current segment is the one the database names, as far as a loaded chain can tell.\<close>

definition segment_saved :: "('e, 'x) externals_scheme \<Rightarrow> chain \<Rightarrow> ('e, 'z) chain_world_scheme \<Rightarrow> bool" where
  "segment_saved X c w \<longleftrightarrow> (\<exists>w'. Chain_readState X c w = (Ok (), w') \<and>
     cs_StateSegment (ch_state w') = cs_StateSegment (ch_state w))"

lemma segment_saved_write:
  assumes "store_ok X" "codec_ok (pb_chain_state X)" "Chain_writeState X c w = (Ok (), w')"
    and "ext w'' = ext w'" "cs_StateSegment (ch_state w'') = cs_StateSegment (ch_state w)"
  shows "segment_saved X c w''"
  using Chain_write_read [OF _ assms(2,3) refl refl assms(4)] assms(1,5)
  by (simp add: segment_saved_def store_ok_def)

lemma Chain_writeState_keeps:
  assumes "\<And>w e. P w \<Longrightarrow> P (w\<lparr>ext := e\<rparr>)" "\<And>w t. P w \<Longrightarrow> P (w\<lparr>recheckStateTrigger := t\<rparr>)"
  shows "keeps P (Chain_writeState X c)"
  unfolding Chain_writeState_def triggerStateRecheck_def by (intro keeps_intros assms)

text \<open>Writing the state of the chain does not disturb its blocks.\<close>

lemma GetBlock_after_writeState:
  assumes X: "store_ok X" and b: "GetBlock X s (GetBlockDbm c) r w0 = (Ok b, w0)" "ext w = ext w0"
    and wr: "Chain_writeState X c w = (Ok (), w')" and e: "ext w'' = ext w'"
  shows "GetBlock X s (GetBlockDbm c) r w'' = (Ok b, w'')"
proof -
  have ok: "db_ok X" "objects_ok X" using X by (simp_all add: store_ok_def)
  from wr obtain w1 where
    w1: "write_slot X (pb_chain_state X) (c_dbm c) (Chain_dbKey c) (ch_state w) w = (Ok (), w1)"
    and w': "w' = w1\<lparr>recheckStateTrigger := try_send 1 () (recheckStateTrigger w1)\<rparr>"
    by (rule Chain_writeState_Ok)
  let ?k = "''/'' @ b64_encode (GetObjectDigest r)" and ?z = "\<lparr>bs_SegmentId = '''', bs_NextBlock = None\<rparr>"
  from GetBlock_ext [OF b] obtain blk hdr st where f: "FollowBlockRef X r s w = (Ok blk, w)"
      "FollowBlockHeaderRef X (blk_BlockHeaderRef blk) s w = (Ok hdr, w)"
    and rd: "read_slot X (pb_block_state X) (GetBlockDbm c) ?k ?z w = (Ok st, w)"
    and b': "b = \<lparr>b_State = st, b_dbm = GetBlockDbm c, b_blk = blk, b_header = hdr, b_encStrat = s, b_blkRef = r,
       b_id = b64_encode (GetObjectDigest r), b_dbKey = ?k\<rparr>"
    by (auto simp: GetBlock_split)
  have path: "concat (GetBlockDbm c) @ ?k \<noteq> concat (c_dbm c) @ Chain_dbKey c"
    by (simp add: GetBlockDbm_def WithPrefix_def Chain_dbKey_def)
  have "fst (read_slot X (pb_block_state X) (GetBlockDbm c) ?k ?z w1) = Ok st"
    using read_other_after_write [OF ok(1) w1 path, of "pb_block_state X" ?z] rd by simp
  then have "fst (read_slot X (pb_block_state X) (GetBlockDbm c) ?k ?z w'') = Ok st"
    using read_slot_ext [of w'' w1 X "pb_block_state X"] w' e by simp
  note rd'' = read_slot_Ok [OF this]
  have "same_objects X w w''" 
    using keepsD [OF same_objects_write [OF ok(2)] w1, of w] w' e by (simp add: same_objects_def)
  from same_objects_Follow [OF this] f rd'' b' show ?thesis by (simp add: GetBlock_split)
qed

lemma GetSegmentById_loaded_same:
  assumes "GetSegmentById X sdb sid w = (Ok s, w')" "loaded t w"
  shows "segmentMap w' t = segmentMap w t"
proof (cases "segmentMap w sid")
  case None
  with assms show ?thesis
    by (auto simp: GetSegmentById_def Segment_readState_def gbind_Ok_iff read_slot_eq loaded_def)
qed (use assms in \<open>simp add: GetSegmentById_def gbind_def\<close>)

text \<open>The parts of a successful check.\<close>

lemma stateSegment_Ok:
  assumes "stateSegment X c sid w = (Ok t, w2)"
  obtains w1 where "GetSegmentById X (segStoreDbm c) sid w = (Ok sid, w1)" "t = state_segment X sid w1"
    "\<forall>u. loaded u w1 \<longrightarrow> segmentMap w2 u = segmentMap w1 u"
    "lastBlock w2 = lastBlock w" "lastBlockHeader w2 = lastBlockHeader w" "lastBlockRef w2 = lastBlockRef w"
    "lastHeadDigest w2 = lastHeadDigest w"
    "cs_StateSegment (ch_state w) = sid \<Longrightarrow> cs_StateSegment (ch_state w2) = t"
    "t = sid \<and> w2 = w1 \<or> (\<exists>w3. Chain_writeState X c w3 = (Ok (), w2) \<and> ch_state w3 = ch_state w2)"
proof -
  from assms obtain s1 w1 where g: "GetSegmentById X (segStoreDbm c) sid w = (Ok s1, w1)"
    by (auto simp: stateSegment_def gbind_Ok_iff)
  obtain m where w1: "s1 = sid" "w1 = w\<lparr>segmentMap := m\<rparr>" using g by (rule GetSegmentById_shape)
  let ?n = "ss_SegmentNext (seg_state X sid w1)"
  show thesis
  proof (cases "?n = ''''")
    case True
    with assms w1 g have t: "t = sid" "w2 = w1" by (simp_all add: stateSegment_def gbind_def)
    show ?thesis by (rule that [of w1]) (use True g w1 t in \<open>simp_all add: state_segment_def\<close>)
  next
    case False
    with assms w1(1) g obtain w3 where n: "GetSegmentById X (segStoreDbm c) ?n w1 = (Ok t, w3)"
      and wr: "Chain_writeState X c (w3\<lparr>ch_state := (ch_state w3)\<lparr>cs_StateSegment := ?n\<rparr>\<rparr>) = (Ok (), w2)"
      by (auto simp: stateSegment_def gbind_Ok_iff)
    obtain m' where w3: "t = ?n" "w3 = w1\<lparr>segmentMap := m'\<rparr>" using n by (rule GetSegmentById_shape)
    let ?w = "w3\<lparr>ch_state := (ch_state w3)\<lparr>cs_StateSegment := ?n\<rparr>\<rparr>"
    have same: "keeps (\<lambda>v. (segmentMap v, ch_state v, lastBlock v, lastBlockHeader v, lastBlockRef v, lastHeadDigest v) = k)
        (Chain_writeState X c)" for k by (rule Chain_writeState_keeps) auto
    note w2 = keepsD [OF same wr refl]
    show ?thesis
    proof (rule that [of w1])
      show "\<forall>u. loaded u w1 \<longrightarrow> segmentMap w2 u = segmentMap w1 u"
        using GetSegmentById_loaded_same [OF n] w2 by simp
      show "t = sid \<and> w2 = w1 \<or> (\<exists>w3. Chain_writeState X c w3 = (Ok (), w2) \<and> ch_state w3 = ch_state w2)"
        using wr w2 by auto
    qed (use g w1 w2 w3 False in \<open>simp_all add: state_segment_def\<close>)
  qed
qed

lemma adoptHead_Ok:
  assumes "adoptHead X c now now2 seg w = (Ok (), w')"
  obtains hb w1 where "GetBlock X (c_encStrat c) (GetBlockDbm c) (ss_HeadBlock (seg_state X seg w)) w = (Ok hb, w)"
    "if GetObjectDigest (ss_HeadBlock (seg_state X seg w)) \<noteq> lastHeadDigest w
     then setHeadBlock X c hb w = (Ok (), w1) else w1 = w"
    "head_view w' = head_view w1" "segmentMap w' = segmentMap w"
proof -
  let ?hr = "ss_HeadBlock (seg_state X seg w)"
  from assms obtain hb w1 where hb: "GetBlock X (c_encStrat c) (GetBlockDbm c) ?hr w = (Ok hb, w)"
    and w1: "(if GetObjectDigest ?hr \<noteq> lastHeadDigest w then setHeadBlock X c hb else gret ()) w = (Ok (), w1)"
    and run: "computeEmitSnapshot X c now now2 w1 = (Ok (), w')"
    by (auto simp: adoptHead_def gbind_Ok_iff gtry_Ok_iff case_fail_Ok_iff keeps_all_eq [OF keeps_GetBlock])
  have f: "chain_free (\<lambda>w'. segmentMap w' = segmentMap w)" by (simp add: chain_free_def)
  have "segmentMap w1 = segmentMap w"
    using w1 keepsD [OF chain_free_setHeadBlock [OF f], of X c hb w "Ok ()" w1] by (auto split: if_splits)
  with keepsD [OF chain_free_compute [OF f] run] have "segmentMap w' = segmentMap w" by simp
  with that [OF hb, of w1] w1 keepsD [OF compute_keeps_head run refl] show thesis by (auto split: if_splits)
qed

text \<open>C25: a successful check of the state adopts the head of the current segment, after moving on to the
  next segment if the state's segment has one. Afterwards the digest the chain works with is that of the segment's head
  block. If it was already, the head block, its header and its reference stay as they were and the state's segment is that segment;
  otherwise they are those of the block that the database holds for the segment's head, and the state's segment is the one this
  block belongs to. Whenever the check moved on or adopted another head, the database names the same segment.\<close>

theorem state_check_follows_head:
  assumes "store_ok X" and "codec_ok (pb_chain_state X)" and run: "manageStateOnce X c now now2 w = (Ok (), w')"
    and t: "t = state_segment X (cs_StateSegment (ch_state w)) w'" and hr: "hr = ss_HeadBlock (seg_state X t w')"
  shows "lastHeadDigest w' = GetObjectDigest hr \<and>
    (if GetObjectDigest hr = lastHeadDigest w
     then lastBlock w' = lastBlock w \<and> lastBlockHeader w' = lastBlockHeader w \<and> lastBlockRef w' = lastBlockRef w \<and>
       cs_StateSegment (ch_state w') = t
     else \<exists>b. GetBlock X (c_encStrat c) (GetBlockDbm c) hr w' = (Ok b, w') \<and> lastBlock w' = Some b \<and>
       lastBlockHeader w' = Some (b_header b) \<and> lastBlockRef w' = hr \<and>
       cs_StateSegment (ch_state w') = bs_SegmentId (b_State b)) \<and>
    (t \<noteq> cs_StateSegment (ch_state w) \<or> GetObjectDigest hr \<noteq> lastHeadDigest w \<longrightarrow> segment_saved X c w')"
proof -
  let ?sid = "cs_StateSegment (ch_state w)"
  from run obtain s2 w2 where sel: "stateSegment X c ?sid w = (Ok s2, w2)"
    and ad: "adoptHead X c now now2 s2 w2 = (Ok (), w')"
    by (auto simp: manageStateOnce_def gbind_Ok_iff split: if_splits)
  obtain w1 where g: "GetSegmentById X (segStoreDbm c) ?sid w = (Ok ?sid, w1)" and s2: "s2 = state_segment X ?sid w1"
    and same: "\<forall>u. loaded u w1 \<longrightarrow> segmentMap w2 u = segmentMap w1 u"
    and old: "lastBlock w2 = lastBlock w" "lastBlockHeader w2 = lastBlockHeader w" "lastBlockRef w2 = lastBlockRef w"
      "lastHeadDigest w2 = lastHeadDigest w" "cs_StateSegment (ch_state w2) = s2"
    and saved: "s2 = ?sid \<and> w2 = w1 \<or> (\<exists>w3. Chain_writeState X c w3 = (Ok (), w2) \<and> ch_state w3 = ch_state w2)"
    using sel by (rule stateSegment_Ok) auto
  obtain hb w3 where hb: "GetBlock X (c_encStrat c) (GetBlockDbm c) (ss_HeadBlock (seg_state X s2 w2)) w2 = (Ok hb, w2)"
    and w3: "if GetObjectDigest (ss_HeadBlock (seg_state X s2 w2)) \<noteq> lastHeadDigest w2
      then setHeadBlock X c hb w2 = (Ok (), w3) else w3 = w2"
    and view: "head_view w' = head_view w3" and map: "segmentMap w' = segmentMap w2"
    using ad by (rule adoptHead_Ok)
  have "seg_state X ?sid w' = seg_state X ?sid w1"
    using map same GetSegmentById_establishes [OF g] by (simp add: seg_state_def)
  then have ts: "t = s2" using t s2 by (simp add: state_segment_def)
  then have hs: "ss_HeadBlock (seg_state X s2 w2) = hr" using hr map by (simp add: seg_state_def)
  note v = view [unfolded head_view_def prod.inject]
  show ?thesis
  proof (cases "GetObjectDigest hr = lastHeadDigest w")
    case True
    then have "w3 = w2" using w3 hs old(4) by simp
    moreover from this have "segment_saved X c w'" if "t \<noteq> ?sid"
      using saved that ts segment_saved_write [OF assms(1,2), of c _ w2 w'] v by auto
    ultimately show ?thesis using True v old ts by simp
  next
    case False
    then have set: "setHeadBlock X c hb w2 = (Ok (), w3)" using w3 hs old(4) by simp
    then obtain w4 where wr: "Chain_writeState X c w4 = (Ok (), w3)" and w4: "ext w4 = ext w2"
      "lastBlock w4 = Some hb" "lastBlockHeader w4 = Some (b_header hb)" "lastBlockRef w4 = b_blkRef hb"
      "lastHeadDigest w4 = GetObjectDigest (b_blkRef hb)" "cs_StateSegment (ch_state w4) = bs_SegmentId (b_State hb)"
      by (auto simp: setHeadBlock_def gbind_Ok_iff)
    have k: "keeps (\<lambda>v. (lastBlock v, lastBlockHeader v, lastBlockRef v, lastHeadDigest v, ch_state v) = k)
        (Chain_writeState X c)" for k by (rule Chain_writeState_keeps) auto
    note w3' = keepsD [OF k wr refl]
    have ref: "b_blkRef hb = hr" using GetBlock_fields(3) [OF hb] hs by simp
    have "GetBlock X (c_encStrat c) (GetBlockDbm c) hr w' = (Ok hb, w')"
      by (rule GetBlock_after_writeState [OF assms(1) hb [unfolded hs] w4(1) wr]) (use v in simp)
    moreover have "segment_saved X c w'" by (rule segment_saved_write [OF assms(1,2) wr]) (use v w3' in simp_all)
    ultimately show ?thesis using False v w3' w4 ref by auto
  qed
qed

end
