(* ===== verification/Rounds.thy ===== *)
theory Rounds
  imports ChainInv
begin

text \<open>
  Heights, rounds and the clock: what \<open>computeEmitSnapshot\<close> derives from the head block and the time,
  and when the state loop looks again.
\<close>

section \<open>The round a state is in\<close>

definition round_le :: "chain_state \<Rightarrow> chain_state \<Rightarrow> bool" where
  "round_le s s' \<longleftrightarrow> cs_LastHeight s < cs_LastHeight s' \<or>
     cs_LastHeight s = cs_LastHeight s' \<and> cs_LastRound s \<le> cs_LastRound s'"

text \<open>The state after the height has been brought up to the head block's.\<close>

definition at_height :: "block_header \<Rightarrow> chain_state \<Rightarrow> chain_state" where
  "at_height hdr s =
     (if GetHeight (hdr_RoundInfo hdr) + 1 > cs_LastHeight s
      then s\<lparr>cs_LastHeight := GetHeight (hdr_RoundInfo hdr) + 1, cs_LastRound := 0\<rparr> else s)"

definition round_duration :: "chain_config \<Rightarrow> duration" where
  "round_duration cc = duration_ms (GetRoundLength (cc_TimingConfig cc))"

definition propose_delay :: "chain_config \<Rightarrow> duration" where
  "propose_delay cc = duration_ms (GetMinProposeAfterBlock (cc_TimingConfig cc))"

definition round_at ::
  "('e, 'x) externals_scheme \<Rightarrow> block_header \<Rightarrow> chain_config \<Rightarrow> time \<Rightarrow> chain_state \<Rightarrow> u64" where
  "round_at X hdr cc now s =
     max (cs_LastRound (at_height hdr s))
       (expectedRoundCount (time_Sub now (ts_to_time X (hdr_BlockTs hdr))) (round_duration cc))"

lemma GetEncryptContext_follow:
  "GetEncryptContextWithDigest c (GetObjectDigest ref) ChainConfigObj = Ok ctx \<Longrightarrow>
     follow_chain_config X e ref ctx [] = Inr cc \<Longrightarrow> chain_config_of X e (c_encStrat c) ref = Some cc"
  "GetEncryptContextWithDigest c (GetObjectDigest ref) ValidatorSetObj = Ok ctx \<Longrightarrow>
     follow_validator_set X e ref ctx [] = Inr vs \<Longrightarrow> validator_set_of X e (c_encStrat c) ref = Some vs"
  by (auto simp: GetEncryptContextWithDigest_def rbind_def chain_config_of_Some validator_set_of_Some
      split: res.splits)

lemma computeRound_Ok:
  assumes "computeRound X c hdr now w = (Ok (cc, dur, rnd), w')"
  shows "chain_config_of X (ext w) (c_encStrat c) (hdr_NextChainConfigRef hdr) = Some cc"
    "ts_to_time X (hdr_BlockTs hdr) \<le> now" "second \<le> dur" "dur = round_duration cc"
    "rnd = round_at X hdr cc now (ch_state w)"
    "w' = w\<lparr>ch_state := (at_height hdr (ch_state w))\<lparr>cs_LastRound := rnd\<rparr>\<rparr>"
  using assms
  by (auto simp: computeRound_def Let_def gbind_Ok_iff at_height_def round_at_def round_duration_def max_def
      word_gt_0
      split: if_splits dest: GetEncryptContext_follow)

lemma computeRound_fail:
  assumes "computeRound X c hdr now w = (r, w')" "\<And>x. r \<noteq> Ok x"
  shows "ch_state w' = at_height hdr (ch_state w)"
  using assms
  by (auto simp: computeRound_def Let_def gbind_def at_height_def
      split: if_splits res.splits prod.splits)

lemma emitRound_ch_state:
  assumes "emitRound X c hdr cc dur rnd t2 w = (r, w')"
  shows "ch_state w' = ch_state w"
proof -
  have "keeps (\<lambda>w'. ch_state w' = ch_state w) (emitNextChainState snap)" for snap
    by (rule keepsI) (simp add: emitNextChainState_apply Let_def)
  then have "keeps (\<lambda>w'. ch_state w' = ch_state w) (emitRound X c hdr cc dur rnd t2)"
    unfolding emitRound_def Let_def by (intro keeps_intros) simp_all
  from keepsD [OF this assms] show ?thesis by simp
qed

lemma at_height_le: "round_le s (at_height hdr s)"
  by (simp add: round_le_def at_height_def)

lemma round_at_le: "round_le s ((at_height hdr s)\<lparr>cs_LastRound := round_at X hdr cc now s\<rparr>)"
  using at_height_le [of s hdr] by (auto simp: round_le_def round_at_def intro: order_trans)

text \<open>C19: the height and round never go back. Whatever \<open>computeEmitSnapshot\<close> returns, and whatever the
  clock shows, the state's height afterwards is larger than before, or it is the same height and the
  round is at least what it was.\<close>

theorem round_never_regresses:
  "round_le (ch_state w) (ch_state (snd (computeEmitSnapshot X c now now2 w)))"
proof (cases "lastBlockHeader w")
  case None
  then show ?thesis by (simp add: computeEmitSnapshot_def gbind_def round_le_def)
next
  case (Some hdr)
  obtain r w1 where run: "computeRound X c hdr now w = (r, w1)" by force
  show ?thesis
  proof (cases "\<exists>x. r = Ok x")
    case False
    then have no: "r \<noteq> Ok x" for x by blast
    then have "ch_state w1 = at_height hdr (ch_state w)" by (intro computeRound_fail [OF run]) blast
    with Some run False show ?thesis
      by (cases r) (simp_all add: computeEmitSnapshot_def gbind_def at_height_le
          del: split_paired_All split_paired_Ex)
  next
    case True
    then obtain cc dur rnd where r: "r = Ok (cc, dur, rnd)" by force
    obtain r2 w2 where emit: "emitRound X c hdr cc dur rnd now2 w1 = (r2, w2)" by force
    from computeRound_Ok(5,6) [OF run [unfolded r]] emitRound_ch_state [OF emit]
    have "round_le (ch_state w) (ch_state w2)" by (simp add: round_at_le)
    with Some run r emit show ?thesis by (simp add: computeEmitSnapshot_def gbind_def)
  qed
qed

section \<open>The published snapshot\<close>

lemma emitRound_Ok:
  assumes "emitRound X c hdr cc dur rnd t2 w = (Ok (), w')"
  obtains vs where
    "validator_set_of X (ext w) (c_encStrat c) (cc_ValidatorSetRef cc) = Some vs"
    "if lastStateSnapshot w = None \<or>
        snapshot_changed (the (lastStateSnapshot w)) (currentSnapshot X hdr cc dur rnd t2 vs w)
     then emitNextChainState (currentSnapshot X hdr cc dur rnd t2 vs w) w = (Ok (), w') else w' = w"
proof -
  from assms obtain ctx vs where
    ctx: "GetEncryptContextWithDigest c (GetObjectDigest (cc_ValidatorSetRef cc)) ValidatorSetObj = Ok ctx"
    and vs: "follow_validator_set X (ext w) (cc_ValidatorSetRef cc) ctx [] = Inr vs"
    and run: "(if (case lastStateSnapshot w of None \<Rightarrow> True
          | Some l \<Rightarrow> snapshot_changed l (currentSnapshot X hdr cc dur rnd t2 vs w))
       then emitNextChainState (currentSnapshot X hdr cc dur rnd t2 vs w) else gret ()) w = (Ok (), w')"
    by (auto simp: emitRound_def Let_def gbind_Ok_iff)
  from GetEncryptContext_follow(2) [OF ctx vs] that run show thesis
    by (cases "lastStateSnapshot w") (auto split: if_splits)
qed

lemma emitted_snapshot:
  "emitNextChainState snap w = (Ok (), w') \<Longrightarrow> \<exists>n. lastStateSnapshot w' = Some (snap\<lparr>sn_Context := n\<rparr>)"
  by (auto simp: emitNextChainState_apply Let_def)

lemma computeEmitSnapshot_Ok:
  assumes "computeEmitSnapshot X c now now2 w = (Ok (), w')" "lastBlockHeader w = Some hdr"
  obtains cc rnd w1 where
    "chain_config_of X (ext w) (c_encStrat c) (hdr_NextChainConfigRef hdr) = Some cc"
    "ts_to_time X (hdr_BlockTs hdr) \<le> now" "second \<le> round_duration cc"
    "rnd = round_at X hdr cc now (ch_state w)"
    "w1 = w\<lparr>ch_state := (at_height hdr (ch_state w))\<lparr>cs_LastRound := rnd\<rparr>\<rparr>"
    "emitRound X c hdr cc (round_duration cc) rnd now2 w1 = (Ok (), w')"
proof -
  obtain cc dur rnd w1 where c: "computeRound X c hdr now w = (Ok (cc, dur, rnd), w1)"
    and e: "emitRound X c hdr cc dur rnd now2 w1 = (Ok (), w')"
    using assms by (auto simp: computeEmitSnapshot_def gbind_Ok_iff)
  from computeRound_Ok [OF c] e that show thesis by blast
qed

text \<open>C18: after a successful check of the state the published snapshot describes it: its height and
  round are the state's, its start and end times are those of that round counted from the head
  block's timestamp, it says that the round has started exactly when the clock has passed its start,
  and its proposer is the one selected from the sorted validator set of the next configuration for the
  head block's digest.\<close>

theorem published_snapshot_current:
  assumes "lastBlockHeader w = Some hdr" and "computeEmitSnapshot X c now now2 w = (Ok (), w')"
  shows "\<exists>cc vs s. chain_config_of X (ext w) (c_encStrat c) (hdr_NextChainConfigRef hdr) = Some cc \<and>
    validator_set_of X (ext w) (c_encStrat c) (cc_ValidatorSetRef cc) = Some vs \<and>
    lastStateSnapshot w' = Some s \<and>
    sn_BlockRoundInfo s = \<lparr>Height = cs_LastHeight (ch_state w'), Round = cs_LastRound (ch_state w')\<rparr> \<and>
    sn_RoundStartTime s = roundStart (ts_to_time X (hdr_BlockTs hdr)) (propose_delay cc)
      (round_duration cc) (cs_LastRound (ch_state w')) \<and>
    sn_RoundEndTime s = sn_RoundStartTime s + round_duration cc \<and>
    sn_RoundStarted s = (sn_RoundStartTime s < now2) \<and>
    GetPubKey (sn_CurrentProposer s) = GetPubKey (fst (select_proposer X (sort_validators X vs)
      (lastHeadDigest w) (cs_LastHeight (ch_state w')) (cs_LastRound (ch_state w'))))"
proof -
  obtain cc rnd w1 where cc: "chain_config_of X (ext w) (c_encStrat c) (hdr_NextChainConfigRef hdr) = Some cc"
    and w1: "w1 = w\<lparr>ch_state := (at_height hdr (ch_state w))\<lparr>cs_LastRound := rnd\<rparr>\<rparr>"
    and run: "emitRound X c hdr cc (round_duration cc) rnd now2 w1 = (Ok (), w')"
    using computeEmitSnapshot_Ok [OF assms(2,1)] by metis
  have st: "ch_state w' = ch_state w1" by (rule emitRound_ch_state [OF run])
  from run obtain vs where
    "validator_set_of X (ext w1) (c_encStrat c) (cc_ValidatorSetRef cc) = Some vs" and
    "if lastStateSnapshot w1 = None \<or>
        snapshot_changed (the (lastStateSnapshot w1))
          (currentSnapshot X hdr cc (round_duration cc) rnd now2 vs w1)
     then emitNextChainState (currentSnapshot X hdr cc (round_duration cc) rnd now2 vs w1) w1 = (Ok (), w')
     else w' = w1"
    by (rule emitRound_Ok)
  with cc w1 st show ?thesis
    by (auto simp: currentSnapshot_def Let_def split_def snapshot_changed_def propose_delay_def
        split: if_splits dest!: emitted_snapshot)
qed

section \<open>Rounds count elapsed time\<close>

lemma expectedRoundCount_elapsed:
  assumes "t0 \<le> now" "now - t0 < 2 ^ 63" "0 < dur"
  shows "uint (expectedRoundCount (time_Sub now t0) dur) = (now - t0) div dur"
proof -
  have "0 \<le> (now - t0) div dur" "(now - t0) div dur \<le> now - t0"
    using assms zdiv_mono2 [of "now - t0" 1 dur] by (simp_all add: pos_imp_zdiv_nonneg_iff)
  moreover have "time_Sub now t0 = now - t0" using assms by (simp add: time_Sub_def)
  ultimately show ?thesis
    using assms by (simp add: expectedRoundCount_def uint_word_of_int_eq take_bit_int_eq_self)
qed

lemma uint_max: "uint (max a b) = max (uint a) (uint b)"
  by (simp add: max_def word_le_def)

lemma at_height_LastHeight:
  "cs_LastHeight (at_height hdr s) = max (cs_LastHeight s) (GetHeight (hdr_RoundInfo hdr) + 1)"
  by (auto simp: at_height_def max_def)

text \<open>C17: the round counts the full round lengths since the head block. After a successful check, with
  the head block less than 292 years old, the configured round length is at least a second, the height
  is the larger of the previous one and the head block's plus one, and the round is the larger of the
  round known for that height and the number of full round lengths that have passed since the head
  block's timestamp.\<close>

theorem round_counts_elapsed:
  assumes "lastBlockHeader w = Some hdr" and "computeEmitSnapshot X c now now2 w = (Ok (), w')"
    and "now - ts_to_time X (hdr_BlockTs hdr) < 2 ^ 63"
  shows "\<exists>cc. chain_config_of X (ext w) (c_encStrat c) (hdr_NextChainConfigRef hdr) = Some cc \<and>
    second \<le> round_duration cc \<and>
    cs_LastHeight (ch_state w') = max (cs_LastHeight (ch_state w)) (GetHeight (hdr_RoundInfo hdr) + 1) \<and>
    uint (cs_LastRound (ch_state w')) = max (uint (cs_LastRound (at_height hdr (ch_state w))))
      ((now - ts_to_time X (hdr_BlockTs hdr)) div round_duration cc)"
proof -
  obtain cc rnd w1 where cc: "chain_config_of X (ext w) (c_encStrat c) (hdr_NextChainConfigRef hdr) = Some cc"
    and t0: "ts_to_time X (hdr_BlockTs hdr) \<le> now" and dur: "second \<le> round_duration cc"
    and rnd: "rnd = round_at X hdr cc now (ch_state w)"
    and w1: "w1 = w\<lparr>ch_state := (at_height hdr (ch_state w))\<lparr>cs_LastRound := rnd\<rparr>\<rparr>"
    and run: "emitRound X c hdr cc (round_duration cc) rnd now2 w1 = (Ok (), w')"
    using computeEmitSnapshot_Ok [OF assms(2,1)] by metis
  have "ch_state w' = (at_height hdr (ch_state w))\<lparr>cs_LastRound := rnd\<rparr>"
    using emitRound_ch_state [OF run] w1 by simp
  with cc dur rnd expectedRoundCount_elapsed [OF t0 assms(3)] show ?thesis
    by (simp add: at_height_LastHeight round_at_def uint_max)
qed

lemma roundStart_Suc:
  assumes "sint (rnd + 1) = sint rnd + 1" "0 \<le> sint rnd" "0 \<le> delay" "0 < dur"
    and "delay + dur * (sint rnd + 1) < 2 ^ 63"
  shows "roundStart t0 delay dur (rnd + 1) = roundStart t0 delay dur rnd + dur"
proof -
  have 0: "0 \<le> dur * sint rnd" using assms(2,4) by simp
  have 1: "dur * (sint rnd + 1) = dur * sint rnd + dur" by (simp add: distrib_left)
  have "i64 (dur * sint rnd) = dur * sint rnd" "i64 (delay + dur * sint rnd) = delay + dur * sint rnd"
    "i64 (dur * sint rnd + dur) = dur * sint rnd + dur"
    "i64 (delay + (dur * sint rnd + dur)) = delay + (dur * sint rnd + dur)"
    using 0 1 assms(3-5) by (intro i64_id; linarith)+
  with 1 assms(1) show ?thesis by (simp add: roundStart_def)
qed

text \<open>The first published snapshot says that the next round starts one round length later than it
  does. Its end time is the start the code computes for the following round, and its next start time
  is a further round length after that.\<close>

theorem next_round_start_one_late:
  assumes "lastBlockHeader w = Some hdr" and "computeEmitSnapshot X c now now2 w = (Ok (), w')"
    and "lastStateSnapshot w = None"
    and "chain_config_of X (ext w) (c_encStrat c) (hdr_NextChainConfigRef hdr) = Some cc"
    and "sint (cs_LastRound (ch_state w') + 1) = sint (cs_LastRound (ch_state w')) + 1"
      "0 \<le> sint (cs_LastRound (ch_state w'))" "0 \<le> propose_delay cc"
      "propose_delay cc + round_duration cc * (sint (cs_LastRound (ch_state w')) + 1) < 2 ^ 63"
  shows "\<exists>s. lastStateSnapshot w' = Some s \<and>
    sn_RoundEndTime s = roundStart (ts_to_time X (hdr_BlockTs hdr)) (propose_delay cc)
      (round_duration cc) (cs_LastRound (ch_state w') + 1) \<and>
    sn_NextRoundStartTime s = sn_RoundEndTime s + round_duration cc"
proof -
  obtain rnd w1 where dur: "second \<le> round_duration cc"
    and w1: "w1 = w\<lparr>ch_state := (at_height hdr (ch_state w))\<lparr>cs_LastRound := rnd\<rparr>\<rparr>"
    and run: "emitRound X c hdr cc (round_duration cc) rnd now2 w1 = (Ok (), w')"
    using computeEmitSnapshot_Ok [OF assms(2,1)] assms(4) by (metis option.inject)
  have st: "cs_LastRound (ch_state w') = rnd" using emitRound_ch_state [OF run] w1 by simp
  have suc: "roundStart t0 (propose_delay cc) (round_duration cc) (rnd + 1) =
      roundStart t0 (propose_delay cc) (round_duration cc) rnd + round_duration cc" for t0
    by (rule roundStart_Suc) (use assms(5-8) dur in \<open>simp_all add: st\<close>)
  obtain vs where "if lastStateSnapshot w1 = None \<or>
        snapshot_changed (the (lastStateSnapshot w1))
          (currentSnapshot X hdr cc (round_duration cc) rnd now2 vs w1)
     then emitNextChainState (currentSnapshot X hdr cc (round_duration cc) rnd now2 vs w1) w1 = (Ok (), w')
     else w' = w1"
    using emitRound_Ok [OF run] by metis
  with w1 assms(3) have
    "emitNextChainState (currentSnapshot X hdr cc (round_duration cc) rnd now2 vs w1) w1 = (Ok (), w')" by simp
  from emitted_snapshot [OF this] show ?thesis
    by (auto simp: currentSnapshot_def Let_def split_def suc st propose_delay_def [symmetric])
qed

section \<open>When the state is checked next\<close>

text \<open>The state loop never sleeps past an instant of the snapshot. The next check lies in the
  future; it is not after the round's start, the round's end or the announced next start when that
  instant is still ahead; and it is at most ten seconds away if the previous one was.\<close>

theorem next_check_never_late:
  "now < nextCheckTime lst now snap \<and>
   (\<forall>s t. snap = Some s \<longrightarrow> t \<in> {sn_RoundStartTime s, sn_RoundEndTime s, sn_NextRoundStartTime s} \<longrightarrow>
      now < t \<longrightarrow> nextCheckTime lst now snap \<le> t) \<and>
   (lst \<le> now + 10 * second \<longrightarrow> nextCheckTime lst now snap \<le> now + 10 * second)"
  by (cases snap) (auto simp: nextCheckTime_def Let_def)

text \<open>
  The loop of \<open>manageState\<close> in its environment. A configuration is the time of the last event, where the loop is,
  its timer and the state of the chain. The runtime may fire the timer at any time, the other goroutines may change the
  state of the chain in any way, and \<open>delta\<close> bounds the time between the reading of the clock and the
  call of \<open>Reset\<close> in one iteration.
\<close>

inductive loop_step ::
  "('e, 'x) externals_scheme \<Rightarrow> chain \<Rightarrow> duration \<Rightarrow>
     time \<times> state_phase \<times> check_timer \<times> ('e, 'z) chain_world_scheme \<Rightarrow>
     time \<times> state_phase \<times> check_timer \<times> ('e, 'z) chain_world_scheme \<Rightarrow> bool" for X c delta where
  loop_iter: "manageState_iter X c ts ts2 now reset ct w = (Ok ct', w') \<Longrightarrow> t \<le> now \<Longrightarrow> now \<le> reset \<Longrightarrow>
    reset \<le> now + delta \<Longrightarrow> loop_step X c delta (t, LoopChecking, ct, w) (reset, LoopWaiting, ct', w')"
| loop_select: "manageState_select ev ct w = (Ok (ph, ct'), w') \<Longrightarrow> t \<le> t' \<Longrightarrow>
    loop_step X c delta (t, LoopWaiting, ct, w) (t', ph, ct', w')"
| loop_fire: "t \<le> t' \<Longrightarrow> loop_step X c delta (t, ph, ct, w) (t', ph, timer_fires t' ct, w)"
| loop_env: "loop_step X c delta (t, ph, ct, w) (t, ph, ct, w')"

text \<open>An active timer fires not before the time of the next check and at most \<open>delta\<close> after it; a timer that is not
  active has fired, so that this time has passed. Until the loop listens to the timer the time is the initial one.\<close>

definition timer_inv :: "duration \<Rightarrow> time \<Rightarrow> time \<Rightarrow> check_timer \<Rightarrow> bool" where
  "timer_inv delta start t ct \<longleftrightarrow>
     (case tm_armed (nextCheckTimer ct) of
        Some d \<Rightarrow> lastNextCheckTime ct \<le> d \<and> d \<le> lastNextCheckTime ct + delta
      | None \<Rightarrow> lastNextCheckTime ct \<le> t) \<and>
     lastNextCheckTime ct \<le> t + 10 * second \<and>
     (\<not> nextCheckListen ct \<longrightarrow> lastNextCheckTime ct = start + 5 * second)"

lemma timer_inv_later: "timer_inv delta s t ct \<Longrightarrow> t \<le> t' \<Longrightarrow> timer_inv delta s t' ct"
  by (auto simp: timer_inv_def split: option.splits)

lemma timer_inv_fires: "timer_inv delta s t ct \<Longrightarrow> t \<le> t' \<Longrightarrow> timer_inv delta s t' (timer_fires t' ct)"
  by (auto simp: timer_inv_def timer_fires_def timer_fire_def split: option.splits)

lemma timer_inv_select:
  "manageState_select ev ct w = (Ok (ph, ct'), w') \<Longrightarrow> timer_inv delta s t ct \<Longrightarrow> timer_inv delta s t ct'"
  by (cases ev) (auto simp: timer_inv_def split: list.splits if_splits option.splits)

lemma resetTimer_cases:
  assumes "resetTimer now reset state ct = ct'" "now \<le> reset" "lastNextCheckTime ct \<le> now + 10 * second"
  obtains (kept) "ct' = ct" "lastNextCheckTime ct = nextCheckTime (lastNextCheckTime ct) now state"
  | (set) "lastNextCheckTime ct' = nextCheckTime (lastNextCheckTime ct) now state"
      "tm_armed (nextCheckTimer ct') = Some (reset + (nextCheckTime (lastNextCheckTime ct) now state - now))"
      "nextCheckListen ct'"
proof -
  let ?n = "nextCheckTime (lastNextCheckTime ct) now state"
  have "now < ?n" "?n \<le> now + 10 * second" using next_check_never_late assms(3) by blast+
  then have "time_Sub ?n now = ?n - now" by (simp add: time_Sub_def)
  with assms(1) show thesis
    by (cases "?n = lastNextCheckTime ct")
       (auto simp: resetTimer_def Let_def timer_Stop_def timer_Reset_def intro: kept set)
qed

lemma timer_inv_reset:
  assumes inv: "timer_inv delta s t ct" and times: "t \<le> now" "now \<le> reset" "reset \<le> now + delta"
  shows "timer_inv delta s reset (resetTimer now reset state ct)"
    "\<exists>d. tm_armed (nextCheckTimer (resetTimer now reset state ct)) = Some d"
proof -
  let ?n = "nextCheckTime (lastNextCheckTime ct) now state" and ?ct = "resetTimer now reset state ct"
  have near: "lastNextCheckTime ct \<le> now + 10 * second" using inv times by (simp add: timer_inv_def)
  then have n: "now < ?n" "?n \<le> now + 10 * second" using next_check_never_late by blast+
  have "timer_inv delta s reset ?ct \<and> (\<exists>d. tm_armed (nextCheckTimer ?ct) = Some d)"
  proof (rule resetTimer_cases [OF refl times(2) near, of state])
    assume "?ct = ct" "lastNextCheckTime ct = ?n"
    then show ?thesis using inv n times timer_inv_later [OF inv, of reset]
      by (cases "tm_armed (nextCheckTimer ct)") (auto simp: timer_inv_def)
  next
    assume "lastNextCheckTime ?ct = ?n" "tm_armed (nextCheckTimer ?ct) = Some (reset + (?n - now))" "nextCheckListen ?ct"
    then show ?thesis using n times by (simp add: timer_inv_def)
  qed
  then show "timer_inv delta s reset ?ct" "\<exists>d. tm_armed (nextCheckTimer ?ct) = Some d" by blast+
qed

lemma loop_run_timer:
  assumes "(loop_step X c delta)\<^sup>*\<^sup>* (t0, ph0, ct0, w0) (t, ph, ct, w)" "timer_inv delta s t0 ct0"
  shows "timer_inv delta s t ct"
  using assms
proof (induction "(t, ph, ct, w)" arbitrary: t ph ct w rule: rtranclp_induct)
  case (step y)
  obtain t1 ph1 ct1 w1 where y: "y = (t1, ph1, ct1, w1)" by (cases y) auto
  from step(2) [unfolded y] show ?case
  proof cases
    case (loop_iter ts ts2 now)
    then show ?thesis using timer_inv_reset(1) [OF step(3) [OF y step(4)]]
      by (auto simp: manageState_iter_def gbind_Ok_iff)
  qed (use step(3) [OF y step(4)] timer_inv_select timer_inv_later timer_inv_fires in \<open>blast+\<close>)
qed

lemma timer_wakes:
  assumes "tm_armed (nextCheckTimer ct) = Some d" "d \<le> t"
  shows "\<exists>ct2. manageState_select CheckTick (timer_fires t ct) w =
    (Ok (if nextCheckListen ct then LoopChecking else LoopWaiting, ct2), w)"
  using assms by (auto simp: timer_fires_def timer_fire_def try_send_def)

text \<open>C40: state checks keep coming. At the end of every iteration of the state loop, whatever happened before, the
  timer is active: it fires at some time between the time set for the next check and \<open>delta\<close> after it, where \<open>delta\<close> bounds
  how long an iteration takes from reading the clock to setting the timer. That time lies ahead, within ten seconds, and
  not after an instant of the current snapshot that lies ahead. From then on the loop goes on by itself, provided that it
  listens to the timer; it does from the first iteration on whose end comes five seconds or more after the loop began, and from
  the first that brings the time of the next check forward.\<close>

theorem state_checks_keep_coming:
  assumes started: "start \<le> start2" "start2 \<le> t0" "start2 \<le> start + delta"
    and run: "(loop_step X c delta)\<^sup>*\<^sup>* (t0, LoopChecking, manageState_begin start start2, w0) (t, LoopChecking, ct, w)"
    and iter: "manageState_iter X c ts ts2 now reset ct w = (Ok ct', w')"
      "t \<le> now" "now \<le> reset" "reset \<le> now + delta"
  shows "\<exists>d. tm_armed (nextCheckTimer ct') = Some d \<and>
    lastNextCheckTime ct' \<le> d \<and> d \<le> lastNextCheckTime ct' + delta \<and>
    now < lastNextCheckTime ct' \<and> lastNextCheckTime ct' \<le> now + 10 * second \<and>
    (\<forall>s i. lastStateSnapshot w' = Some s \<longrightarrow>
       i \<in> {sn_RoundStartTime s, sn_RoundEndTime s, sn_NextRoundStartTime s} \<longrightarrow> now < i \<longrightarrow> lastNextCheckTime ct' \<le> i) \<and>
    (\<forall>t2 w2. d \<le> t2 \<longrightarrow> (\<exists>ct2. manageState_select CheckTick (timer_fires t2 ct') w2 =
       (Ok (if nextCheckListen ct' then LoopChecking else LoopWaiting, ct2), w2))) \<and>
    (\<not> nextCheckListen ct' \<longrightarrow> now < start + 5 * second \<and> lastNextCheckTime ct' = start + 5 * second)"
proof -
  have "timer_inv delta start t0 (manageState_begin start start2)"
    using started by (simp add: timer_inv_def manageState_begin_def NewTimer_def)
  from loop_run_timer [OF run this] have inv: "timer_inv delta start t ct" .
  then have near: "lastNextCheckTime ct \<le> now + 10 * second" using iter(2) by (simp add: timer_inv_def)
  have ct': "ct' = resetTimer now reset (lastStateSnapshot w') ct"
    using iter(1) by (auto simp: manageState_iter_def gbind_Ok_iff)
  have "lastNextCheckTime ct' = nextCheckTime (lastNextCheckTime ct) now (lastStateSnapshot w')"
    by (rule resetTimer_cases [OF ct' [symmetric] iter(3) near]) simp_all
  with next_check_never_late [of now "lastNextCheckTime ct" "lastStateSnapshot w'"] near
  have ahead: "now < lastNextCheckTime ct'" "lastNextCheckTime ct' \<le> now + 10 * second"
    "\<forall>s i. lastStateSnapshot w' = Some s \<longrightarrow>
       i \<in> {sn_RoundStartTime s, sn_RoundEndTime s, sn_NextRoundStartTime s} \<longrightarrow> now < i \<longrightarrow> lastNextCheckTime ct' \<le> i"
    by simp_all
  from timer_inv_reset [OF inv iter(2-4)] obtain d where
    d: "tm_armed (nextCheckTimer ct') = Some d" and inv': "timer_inv delta start reset ct'" unfolding ct' by blast
  have "lastNextCheckTime ct' \<le> d" "d \<le> lastNextCheckTime ct' + delta"
    "\<not> nextCheckListen ct' \<longrightarrow> now < start + 5 * second \<and> lastNextCheckTime ct' = start + 5 * second"
    using d inv' ahead(1) by (auto simp: timer_inv_def)
  with d ahead timer_wakes [OF d] show ?thesis by blast
qed

text \<open>
  The loop does not listen to the timer at first: when the first check publishes no snapshot, or one whose instants all
  have passed or are at least five seconds after the loop began, the loop goes on only when a recheck is asked for.
\<close>

lemma nextCheckTime_first:
  assumes "now < start + 5 * second"
    and "\<And>s i. state = Some s \<Longrightarrow>
      i \<in> {sn_RoundStartTime s, sn_RoundEndTime s, sn_NextRoundStartTime s} \<Longrightarrow> i \<le> now \<or> start + 5 * second \<le> i"
  shows "nextCheckTime (start + 5 * second) now state = start + 5 * second"
proof (cases state)
  case (Some s)
  show ?thesis using Some assms(1) assms(2) [OF Some, of "sn_RoundStartTime s"] assms(2) [OF Some, of "sn_RoundEndTime s"]
      assms(2) [OF Some, of "sn_NextRoundStartTime s"]
    by (auto simp: nextCheckTime_def Let_def)
qed (use assms(1) in \<open>simp add: nextCheckTime_def\<close>)

theorem first_check_sets_no_timer:
  assumes iter: "manageState_iter X c ts ts2 now reset (manageState_begin start start2) w = (Ok ct', w')"
    and soon: "now < start + 5 * second"
    and far: "\<And>s i. lastStateSnapshot w' = Some s \<Longrightarrow>
      i \<in> {sn_RoundStartTime s, sn_RoundEndTime s, sn_NextRoundStartTime s} \<Longrightarrow> i \<le> now \<or> start + 5 * second \<le> i"
  shows "ct' = manageState_begin start start2 \<and>
    (\<forall>t. \<exists>ct2. manageState_select CheckTick (timer_fires t ct') w' = (Ok (LoopWaiting, ct2), w'))"
proof -
  have "ct' = resetTimer now reset (lastStateSnapshot w') (manageState_begin start start2)"
    using iter by (auto simp: manageState_iter_def gbind_Ok_iff)
  with nextCheckTime_first [OF soon far] have "ct' = manageState_begin start start2"
    by (simp add: resetTimer_def manageState_begin_def)
  then show ?thesis by (simp add: manageState_begin_def timer_fires_def)
qed

text \<open>
  When the initial timer fires before the first reset, its tick is not drained, because the loop does not listen to it yet:
  the \<open>select\<close> that follows the reset goes on at once, long before the time set for the next check.
\<close>

theorem stale_tick_wakes_loop:
  assumes "start2 + 5 * second \<le> t" and "t \<le> now" and "start \<le> start2"
    and iter: "manageState_iter X c ts ts2 now reset (timer_fires t (manageState_begin start start2)) w = (Ok ct', w')"
  shows "now < lastNextCheckTime ct' \<and> (\<exists>ct2. manageState_select CheckTick ct' w' = (Ok (LoopChecking, ct2), w'))"
proof -
  let ?ct = "timer_fires t (manageState_begin start start2)" and ?n = "nextCheckTime (start + 5 * second) now (lastStateSnapshot w')"
  have ct: "?ct = \<lparr>lastNextCheckTime = start + 5 * second, nextCheckTimer = \<lparr>tm_armed = None, tm_C = [t]\<rparr>, nextCheckListen = False\<rparr>"
    using assms(1) by (simp add: timer_fires_def timer_fire_def manageState_begin_def NewTimer_def try_send_def)
  have "ct' = resetTimer now reset (lastStateSnapshot w') ?ct"
    using iter by (auto simp: manageState_iter_def gbind_Ok_iff)
  moreover have "now < ?n" using next_check_never_late by blast
  moreover from this have "?n \<noteq> start + 5 * second" using assms(1-3) by linarith
  ultimately show ?thesis by (simp add: ct resetTimer_def timer_Stop_def timer_Reset_def Let_def)
qed

end
