(* ===== verification/Demo.thy ===== *)
theory Demo
  imports Commits Rounds
begin

text \<open>
  A concrete environment in which every law the development assumes holds, and a small chain in it:
  three blocks, a chain configuration with one validator, and a database. The witnesses of the
  properties evaluate the model on it.
\<close>

section \<open>Evaluation\<close>

text \<open>A table makes the evaluation of base64 cheap.\<close>

definition b64_alphabet :: string where
  "b64_alphabet = ''ABCDEFGHIJKLMNOPQRSTUVWXYZabcdefghijklmnopqrstuvwxyz0123456789+/''"

lemma b64_char_code [code]: "b64_char n = (if n < 64 then b64_alphabet ! n else CHR ''/'')"
proof (cases "n < 64")
  case True
  have "\<forall>m\<in>set [0..<64]. b64_char m = b64_alphabet ! m" by code_simp
  with True show ?thesis by simp
qed (simp add: b64_char_def)

section \<open>Concrete services\<close>

text \<open>A codec that encodes the entries of a table by their position.\<close>

definition table_codec :: "'a list \<Rightarrow> 'a codec" where
  "table_codec tbl =
     \<lparr>marshal = (\<lambda>x. case index_of x tbl of None \<Rightarrow> Inl (ExtError ''encode'') | Some i \<Rightarrow> Inr (replicate i 0)),
      unmarshal = (\<lambda>bs. if length bs < length tbl then Inr (tbl ! length bs) else Inl (ExtError ''decode''))\<rparr>"

record demo_env =
  env_kv :: "(string \<times> bytes) list"
  env_blocks :: "(bytes \<times> inca_block) list"
  env_headers :: "(bytes \<times> block_header) list"
  env_votes :: "(bytes \<times> vote) list"
  env_configs :: "(bytes \<times> chain_config) list"
  env_vsets :: "(bytes \<times> validator_set) list"
  env_messages :: "(bytes \<times> node_message) list"
  env_genesis :: "(bytes \<times> genesis) list"
  env_topics :: "(string \<times> string) list"

definition lookup_ref :: "(bytes \<times> 'a) list \<Rightarrow> sref \<Rightarrow> go_error + 'a" where
  "lookup_ref tbl r = (case map_of tbl (GetObjectDigest r) of Some x \<Rightarrow> Inr x | None \<Rightarrow> Inl (ExtError ''not found''))"

definition demo_ref :: "byte \<Rightarrow> sref" where
  "demo_ref n = Some \<lparr>ObjectDigest = replicate 24 n, refLocation = ''''\<rparr>"

record demo_tables =
  tab_block :: "block_state list"
  tab_segment :: "segment_state list"
  tab_chain :: "chain_state list"
  tab_proposer :: "proposer_state list"
  tab_validator :: "validator_state list"
  tab_peer :: "peer_state list"
  tab_node :: "node_state list"
  tab_pubsub :: "chain_pubsub_message list"

definition demo_pub :: "pub_key \<Rightarrow> nat" where
  "demo_pub k = (case k of PubKey n \<Rightarrow> n)"

text \<open>A stored object is found under a digest made of its kind and the number of objects before it.\<close>

definition demo_externals :: "demo_tables \<Rightarrow> demo_env externals" where
  "demo_externals T =
     \<lparr>db_get = (\<lambda>e h k. Inr (map_of (env_kv e) (concat h @ k))),
      db_set = (\<lambda>e h k v. (Inr (), e\<lparr>env_kv := (concat h @ k, v) # env_kv e\<rparr>)),
      pb_block_state = table_codec (tab_block T), pb_segment_state = table_codec (tab_segment T),
      pb_chain_state = table_codec (tab_chain T), pb_proposer_state = table_codec (tab_proposer T),
      pb_validator_state = table_codec (tab_validator T), pb_peer_state = table_codec (tab_peer T),
      pb_node_state = table_codec (tab_node T), pb_pubsub_message = table_codec (tab_pubsub T),
      follow_block = (\<lambda>e r c d. lookup_ref (env_blocks e) r),
      follow_header = (\<lambda>e r c d. lookup_ref (env_headers e) r),
      follow_vote = (\<lambda>e r c d. lookup_ref (env_votes e) r),
      follow_chain_config = (\<lambda>e r c d. lookup_ref (env_configs e) r),
      follow_validator_set = (\<lambda>e r c d. lookup_ref (env_vsets e) r),
      follow_node_message = (\<lambda>e r c d. lookup_ref (env_messages e) r),
      follow_genesis = (\<lambda>e r c d. lookup_ref (env_genesis e) r),
      store_block = (\<lambda>e x c. let d = replicate 24 (of_nat (100 + length (env_blocks e))) in
        (Inr (Some \<lparr>ObjectDigest = d, refLocation = ''''\<rparr>), e\<lparr>env_blocks := (d, x) # env_blocks e\<rparr>)),
      store_header = (\<lambda>e x c. let d = replicate 24 (of_nat (120 + length (env_headers e))) in
        (Inr (Some \<lparr>ObjectDigest = d, refLocation = ''''\<rparr>), e\<lparr>env_headers := (d, x) # env_headers e\<rparr>)),
      store_vote = (\<lambda>e x c. let d = replicate 24 (of_nat (140 + length (env_votes e))) in
        (Inr (Some \<lparr>ObjectDigest = d, refLocation = ''''\<rparr>), e\<lparr>env_votes := (d, x) # env_votes e\<rparr>)),
      store_validator_set = (\<lambda>e x c. let d = replicate 24 (of_nat (160 + length (env_vsets e))) in
        (Inr (Some \<lparr>ObjectDigest = d, refLocation = ''''\<rparr>), e\<lparr>env_vsets := (d, x) # env_vsets e\<rparr>)),
      store_chain_config = (\<lambda>e x c. let d = replicate 24 (of_nat (180 + length (env_configs e))) in
        (Inr (Some \<lparr>ObjectDigest = d, refLocation = ''''\<rparr>), e\<lparr>env_configs := (d, x) # env_configs e\<rparr>)),
      store_genesis = (\<lambda>e x c. let d = replicate 24 (of_nat (200 + length (env_genesis e))) in
        (Inr (Some \<lparr>ObjectDigest = d, refLocation = ''''\<rparr>), e\<lparr>env_genesis := (d, x) # env_genesis e\<rparr>)),
      store_node_message = (\<lambda>e x c. let d = replicate 24 (of_nat (220 + length (env_messages e))) in
        (Inr (Some \<lparr>ObjectDigest = d, refLocation = ''''\<rparr>), e\<lparr>env_messages := (d, x) # env_messages e\<rparr>)),
      store_local_segment = (\<lambda>e x. (Inr (), e)),
      pubsub_publish = (\<lambda>e t m. (Inr (), e\<lparr>env_topics := (t, m) # env_topics e\<rparr>)),
      ref_equals = (=),
      ts_to_time = (\<lambda>t. case t of None \<Rightarrow> 0 | Some x \<Rightarrow> uint (TimeUnixMs x) * millisecond),
      ts_validate = (\<lambda>t. Inr ()),
      select_proposer = (\<lambda>vs d h r. case Validators vs of [] \<Rightarrow> (None, 0)
        | v # _ \<Rightarrow> (Some v, sum_list (map val_VotingPower (Validators vs)))),
      sort_validators = (\<lambda>vs. vs),
      parse_peer_id = (\<lambda>v. Inr (PeerID (replicate (length (val_PubKey v)) CHR ''p''), PubKey (length (val_PubKey v)))),
      parse_public_key = (\<lambda>v. Inr (PubKey (length (val_PubKey v)))),
      id_from_pub = (\<lambda>k. (PeerID (replicate (demo_pub k) CHR ''p''), None)),
      id_from_priv = (\<lambda>k. case k of PrivKey n \<Rightarrow> Inr (PeerID (replicate n CHR ''p''))),
      id_decode = (\<lambda>s. Inr (PeerID s)),
      pretty_id = (\<lambda>p. case p of PeerID s \<Rightarrow> s),
      pub_bytes = (\<lambda>k. Inr (replicate (demo_pub k) 0)),
      unmarshal_pub = (\<lambda>bs. Inr (PubKey (length bs))),
      pub_equals = (=),
      priv_public = (\<lambda>k. case k of PrivKey n \<Rightarrow> PubKey n),
      digest_data = (\<lambda>m. Inr (replicate 24 (of_nat (length m)))),
      zero_segment_status = DISJOINTED\<rparr>"

lemma table_codec_ok [simp]: "codec_ok (table_codec tbl)"
  by (auto simp: codec_ok_def table_codec_def split: option.splits dest: index_of_Some)

lemma demo_db_ok [simp]: "db_ok (demo_externals T)"
  by (auto simp: db_ok_def demo_externals_def)

lemma demo_objects_ok [simp]: "objects_ok (demo_externals T)"
  by (simp add: objects_ok_def demo_externals_def)

lemma demo_codecs_ok [simp]:
  "codec_ok (pb_block_state (demo_externals T))" "codec_ok (pb_segment_state (demo_externals T))"
  "codec_ok (pb_chain_state (demo_externals T))" "codec_ok (pb_proposer_state (demo_externals T))"
  "codec_ok (pb_validator_state (demo_externals T))" "codec_ok (pb_peer_state (demo_externals T))"
  "codec_ok (pb_node_state (demo_externals T))" "codec_ok (pb_pubsub_message (demo_externals T))"
  by (simp_all add: demo_externals_def)

lemma demo_store_ok [simp]: "store_ok (demo_externals T)"
  by (simp add: store_ok_def)

section \<open>A small chain\<close>

definition demo_strategy :: strategy where
  "demo_strategy = \<lparr>strat_Key = replicate 32 7, strat_PreSharedKey = replicate 32 7\<rparr>"

text \<open>Block \<open>k\<close> at height \<open>k\<close> and time \<open>k\<close> seconds; block zero has no last block reference.\<close>

definition demo_header :: "nat \<Rightarrow> block_header" where
  "demo_header k = \<lparr>hdr_GenesisRef = demo_ref 32, hdr_ChainConfigRef = demo_ref 30,
     hdr_NextChainConfigRef = demo_ref 30,
     hdr_LastBlockRef = (if k = 0 then None else demo_ref (of_nat (9 + k))),
     hdr_RoundInfo = Some \<lparr>Height = of_nat k, Round = 0\<rparr>,
     hdr_BlockTs = Some \<lparr>TimeUnixMs = of_nat (1000 * k)\<rparr>, hdr_ProposerId = ''p'', hdr_StateRef = None\<rparr>"

definition demo_block :: "nat \<Rightarrow> inca_block" where
  "demo_block k = \<lparr>blk_BlockHeaderRef = demo_ref (of_nat (20 + k)), blk_VoteRefs = []\<rparr>"

definition demo_config :: chain_config where
  "demo_config = \<lparr>cc_TimingConfig = Some \<lparr>tc_MinProposeAfterBlock = 500, tc_RoundLength = 3000\<rparr>,
     cc_ValidatorSetRef = demo_ref 31\<rparr>"

definition demo_vset :: validator_set where
  "demo_vset = \<lparr>Validators = [\<lparr>val_PubKey = [0], val_VotingPower = 10, val_OperationMode = OPERATING\<rparr>]\<rparr>"

definition demo_genesis :: genesis where
  "demo_genesis = \<lparr>gen_ChainId = ''c'', gen_Timestamp = Some \<lparr>TimeUnixMs = 0\<rparr>,
     gen_EncStrategy = ConvergentImmutable, gen_InitChainConfigRef = demo_ref 30\<rparr>"

definition demo_env0 :: demo_env where
  "demo_env0 = \<lparr>env_kv = [],
     env_blocks = [(replicate 24 10, demo_block 0), (replicate 24 11, demo_block 1), (replicate 24 12, demo_block 2)],
     env_headers = [(replicate 24 20, demo_header 0), (replicate 24 21, demo_header 1), (replicate 24 22, demo_header 2)],
     env_votes = [], env_configs = [(replicate 24 30, demo_config)], env_vsets = [(replicate 24 31, demo_vset)],
     env_messages = [], env_genesis = [(replicate 24 32, demo_genesis)], env_topics = []\<rparr>"

definition demo_chain :: chain where
  "demo_chain = \<lparr>c_dbm = [''/d''], c_GenesisRef = demo_ref 32, c_genesis = demo_genesis,
     c_encStrat = demo_strategy, c_pubsubTopic = '''', c_blockValidator = None\<rparr>"

definition demo_segment :: "segment_status \<Rightarrow> nat \<Rightarrow> nat \<Rightarrow> segment_state" where
  "demo_segment status head tail = \<lparr>ss_Id = ''s'', ss_Status = status, ss_HeadBlock = demo_ref (of_nat (10 + head)),
     ss_TailBlock = demo_ref (of_nat (10 + tail)), ss_TailBlockRound = Some \<lparr>Height = of_nat tail, Round = 0\<rparr>,
     ss_SegmentPrev = '''', ss_SegmentNext = ''''\<rparr>"

text \<open>A second segment that holds block one only.\<close>

definition demo_segment_u :: "segment_status \<Rightarrow> string \<Rightarrow> segment_state" where
  "demo_segment_u status prev = \<lparr>ss_Id = ''u'', ss_Status = status, ss_HeadBlock = demo_ref 11,
     ss_TailBlock = demo_ref 11, ss_TailBlockRound = Some \<lparr>Height = 1, Round = 0\<rparr>,
     ss_SegmentPrev = prev, ss_SegmentNext = [] \<rparr>"

definition demo_bstate :: "string \<Rightarrow> nat option \<Rightarrow> block_state" where
  "demo_bstate s n = \<lparr>bs_SegmentId = s, bs_NextBlock = (case n of None \<Rightarrow> None | Some k \<Rightarrow> demo_ref (of_nat (10 + k)))\<rparr>"

definition demo_tables0 :: demo_tables where
  "demo_tables0 = \<lparr>
     tab_block = [demo_bstate ''s'' None, demo_bstate ''s'' (Some 1), demo_bstate ''s'' (Some 2),
       demo_bstate ''u'' None],
     tab_segment = [demo_segment VALID 0 0, demo_segment VALID 1 0, demo_segment DISJOINTED 2 1,
       demo_segment DISJOINTED 2 2, demo_segment DISJOINTED 0 0,
       demo_segment_u VALID ''s'', (demo_segment VALID 0 0)\<lparr>ss_SegmentNext := ''u''\<rparr>],
     tab_chain = [\<lparr>cs_StateSegment = ''s'', cs_LastHeight = 1, cs_LastRound = 0\<rparr>],
     tab_proposer = [], tab_validator = [], tab_peer = [], tab_node = [], tab_pubsub = []\<rparr>"

abbreviation demo_X :: "demo_env externals" where
  "demo_X \<equiv> demo_externals demo_tables0"

text \<open>The chain object of a node whose segment \<open>s\<close> has the given state, nothing else loaded.\<close>

definition demo_world :: "segment_state \<Rightarrow> demo_env chain_world" where
  "demo_world st = \<lparr>ext = demo_env0, segmentMap = [''s'' \<mapsto> st],
     segmentQueue = \<lparr>pq = [], notifyCh = []\<rparr>,
     ch_state = \<lparr>cs_StateSegment = ''s'', cs_LastHeight = 1, cs_LastRound = 0\<rparr>,
     recheckStateTrigger = [], stateSnapshotCtx = None, canceledCtxs = [], lastStateSnapshot = None,
     stateSubs = Map.empty, pendingSubs = Map.empty, lastHeadDigest = [], lastBlock = None, lastBlockHeader = None,
     lastBlockRef = None\<rparr>"

definition demo_obj :: "nat \<Rightarrow> block_state \<Rightarrow> block" where
  "demo_obj k st = \<lparr>b_State = st, b_dbm = GetBlockDbm demo_chain, b_blk = demo_block k,
     b_header = demo_header k, b_encStrat = demo_strategy, b_blkRef = demo_ref (of_nat (10 + k)),
     b_id = b64_encode (replicate 24 (of_nat (10 + k))),
     b_dbKey = ''/'' @ b64_encode (replicate 24 (of_nat (10 + k)))\<rparr>"

text \<open>Block zero belongs to segment \<open>s\<close> and has no successor yet.\<close>

definition demo_w :: "demo_env chain_world" where
  "demo_w = (demo_world (demo_segment VALID 0 0))\<lparr>ext :=
     demo_env0\<lparr>env_kv := [(''/d/blocks/CgoKCgoKCgoKCgoKCgoKCgoKCgoKCgoK'', [])]\<rparr>\<rparr>"

end
