(* ===== verification/Witnesses.thy ===== *)
theory Witnesses
  imports Demo
begin

text \<open>
  Witnesses: each property that has hypotheses, applied to the small chain of \<open>Demo\<close>, where the
  hypotheses are established by evaluating the model.
\<close>

section \<open>Evaluations shared by the witnesses\<close>

abbreviation z0 :: block_state where "z0 \<equiv> demo_bstate '''' None"
abbreviation s0 :: block_state where "s0 \<equiv> demo_bstate ''s'' None"

lemma run_eq: "fst p = x \<Longrightarrow> p = (x, snd p)"
  by (cases p) simp

lemma GetBlock_run: "fst (GetBlock X s h ref w) = Ok b \<Longrightarrow> GetBlock X s h ref w = (Ok b, w)"
  by (metis GetBlock_state prod.collapse)

lemma demo_block_0: "GetBlock demo_X demo_strategy (GetBlockDbm demo_chain) (demo_ref 10) demo_w = (Ok (demo_obj 0 s0), demo_w)"
  by (rule GetBlock_run) code_simp

lemma demo_block_1: "GetBlock demo_X demo_strategy (GetBlockDbm demo_chain) (demo_ref 11) demo_w = (Ok (demo_obj 1 z0), demo_w)"
  by (rule GetBlock_run) code_simp

definition demo_w1 :: "demo_env chain_world" where
  "demo_w1 = snd (HandleBlockCommit demo_X demo_chain ''u'' (demo_ref 11) demo_w)"

lemma demo_commit: "HandleBlockCommit demo_X demo_chain ''u'' (demo_ref 11) demo_w = (Ok (), demo_w1)"
  unfolding demo_w1_def by (rule run_eq) code_simp

lemma demo_fields [simp]:
  "hdr_LastBlockRef (b_header (demo_obj 1 st)) = demo_ref 10" "b_State (demo_obj k st) = st"
  "c_encStrat demo_chain = demo_strategy" "bs_SegmentId (demo_bstate t n) = t"
  "bs_NextBlock (demo_bstate t None) = None" "b_header (demo_obj k st) = demo_header k"
  "hdr_LastBlockRef (demo_header 0) = None" "hdr_LastBlockRef (demo_header (Suc 0)) = demo_ref 10"
  by (simp_all add: demo_obj_def demo_header_def demo_chain_def demo_bstate_def)

section \<open>Blocks\<close>

theorem validated_path_heights_times_witness:
  "block_height ([demo_obj 0 z0, demo_obj 1 z0, demo_obj 2 z0] ! 2) =
     block_height ([demo_obj 0 z0, demo_obj 1 z0, demo_obj 2 z0] ! 0) + of_nat (2 - 0) \<and>
   block_time demo_X ([demo_obj 0 z0, demo_obj 1 z0, demo_obj 2 z0] ! 0) \<le>
     block_time demo_X ([demo_obj 0 z0, demo_obj 1 z0, demo_obj 2 z0] ! 2)"
proof -
  have "validated_path demo_X None demo_w [demo_obj 0 z0, demo_obj 1 z0, demo_obj 2 z0]" by code_simp
  from validated_path_heights_times [OF this, of 0 2] show ?thesis by simp
qed

theorem block_state_reload_witness:
  "GetBlock demo_X demo_strategy (GetBlockDbm demo_chain) (demo_ref 11)
     (snd (Block_WriteState demo_X ((demo_obj 1 z0)\<lparr>b_State := s0\<rparr>) demo_w)) =
   (Ok ((demo_obj 1 z0)\<lparr>b_State := s0\<rparr>),
     snd (Block_WriteState demo_X ((demo_obj 1 z0)\<lparr>b_State := s0\<rparr>) demo_w))"
proof -
  have "fst (Block_WriteState demo_X ((demo_obj 1 z0)\<lparr>b_State := s0\<rparr>) demo_w) = Ok ()" by code_simp
  from block_state_reload [OF _ _ _ demo_block_1 run_eq [OF this]] show ?thesis by simp
qed

theorem builtin_validators_decide_witness:
  "ValidateChild demo_X (demo_obj 0 z0) (demo_obj 1 z0) (Some AllowAll_ValidateBlock) demo_w = (Ok False, demo_w) \<longleftrightarrow>
     valid_child demo_X (ext demo_w) (demo_obj 0 z0) (demo_obj 1 z0)"
proof -
  have "GetBuiltInValidator ''allow'' = Ok (Some AllowAll_ValidateBlock)"
    by (simp add: GetBuiltInValidator_def builtInValidators_def)
  from builtin_validators_decide [OF this, of demo_X "demo_obj 0 z0" "demo_obj 1 z0" demo_w False demo_w]
  show ?thesis by simp
qed

section \<open>Segments\<close>

abbreviation demo_sdb :: db_view where "demo_sdb \<equiv> segStoreDbm demo_chain"

lemma demo_seg_w: "seg_state demo_X ''s'' demo_w = demo_segment VALID 0 0"
  by (simp add: demo_w_def demo_world_def seg_state_def)

lemma demo_paths:
  "block_path (demo_obj 0 s0) \<noteq> block_path (demo_obj 1 z0)"
  "block_path (demo_obj 0 s0) \<noteq> segment_path demo_sdb (demo_segment VALID 0 0)"
  "block_path (demo_obj 1 z0) \<noteq> segment_path demo_sdb (demo_segment VALID 0 0)"
  by code_simp+

theorem append_block_links_witness:
  "ss_HeadBlock (seg_state demo_X ''s'' (snd (AppendBlock demo_X demo_sdb ''s'' (demo_ref 11) (demo_obj 1 z0)
     (demo_obj 0 s0) None demo_strategy demo_w))) = demo_ref 11"
proof -
  have run: "fst (AppendBlock demo_X demo_sdb ''s'' (demo_ref 11) (demo_obj 1 z0) (demo_obj 0 s0) None
      demo_strategy demo_w) = Ok ()" by code_simp
  from append_block_links [OF demo_store_ok _ _ _ _ run_eq [OF run]] demo_paths
  show ?thesis by (auto simp: demo_seg_w)
qed

theorem append_block_refused_witness:
  "snd (AppendBlock demo_X demo_sdb ''s'' (demo_ref 12) (demo_obj 2 z0) (demo_obj 0 s0) None demo_strategy demo_w) = demo_w"
proof -
  have "\<not> valid_child demo_X (ext demo_w) (demo_obj 0 s0) (demo_obj 2 z0)" by code_simp
  then have "bs_NextBlock (b_State (demo_obj 0 s0)) \<noteq> None \<or> ss_SegmentNext (seg_state demo_X ''s'' demo_w) \<noteq> '''' \<or>
      \<not> valid_child demo_X (ext demo_w) (demo_obj 0 s0) (demo_obj 2 z0)" by simp
  from append_block_refused [OF this prod.collapse [symmetric]] show ?thesis by blast
qed

lemma demo_write_seg:
  assumes "seg_state (demo_externals T) sid w \<in> set (tab_segment T)"
  shows "fst (Segment_writeState (demo_externals T) sdb sid w) = Ok ()"
proof -
  obtain i where "index_of (seg_state (demo_externals T) sid w) (tab_segment T) = Some i"
    using assms index_of_None by fastforce
  then show ?thesis
    by (simp add: Segment_writeState_def write_slot_def gbind_def demo_externals_def table_codec_def)
qed

text \<open>A disjointed segment whose tail is block two.\<close>

definition demo_wd :: "demo_env chain_world" where
  "demo_wd = demo_world (demo_segment DISJOINTED 2 2)"

lemma demo_wd_seg [simp]: "seg_state demo_X ''s'' demo_wd = demo_segment DISJOINTED 2 2"
  by (simp add: demo_wd_def demo_world_def seg_state_def)

theorem rewind_extends_tail_witness:
  "seg_state demo_X ''s'' (snd (Segment_RewindOnce demo_X demo_sdb ''s'' demo_strategy None (GetBlockDbm demo_chain) demo_wd)) =
     rewound_state (demo_segment DISJOINTED 2 2) (demo_obj 1 z0) (demo_obj 2 z0)
       (rewind_status demo_X (ext demo_wd) None (rewound_prev (demo_segment DISJOINTED 2 2) (demo_obj 1 z0) (demo_obj 2 z0))
         (demo_obj 2 z0))"
proof -
  have tb: "GetBlock demo_X demo_strategy (GetBlockDbm demo_chain) (demo_ref 12) demo_wd = (Ok (demo_obj 2 z0), demo_wd)"
    by (rule GetBlock_run) code_simp
  have pb: "GetBlock demo_X demo_strategy (GetBlockDbm demo_chain) (demo_ref 11) demo_wd = (Ok (demo_obj 1 z0), demo_wd)"
    by (rule GetBlock_run) code_simp
  have run: "fst (Segment_RewindOnce demo_X demo_sdb ''s'' demo_strategy None (GetBlockDbm demo_chain) demo_wd) = Ok ()"
    by code_simp
  have path: "block_path (demo_obj 1 z0) \<noteq> segment_path demo_sdb (demo_segment DISJOINTED 2 2)" by code_simp
  have f: "ss_TailBlock (demo_segment DISJOINTED 2 2) = demo_ref 12" "ss_Status (demo_segment DISJOINTED 2 2) = DISJOINTED"
    "hdr_LastBlockRef (demo_header 2) = demo_ref 11" by code_simp+
  from rewind_extends_tail [OF demo_store_ok _ _ _ _ _ run_eq [OF run], of "demo_obj 2 z0" "demo_obj 1 z0"]
  show ?thesis using tb pb path f by simp
qed

theorem rewind_at_genesis_panics_witness:
  "Segment_RewindOnce demo_X demo_sdb ''s'' demo_strategy None (GetBlockDbm demo_chain)
     (demo_world (demo_segment DISJOINTED 0 0)) = (Panic, demo_world (demo_segment DISJOINTED 0 0))"
proof (rule rewind_at_genesis_panics)
  show "ss_Status (seg_state demo_X ''s'' (demo_world (demo_segment DISJOINTED 0 0))) = DISJOINTED" by code_simp
  show "GetBlock demo_X demo_strategy (GetBlockDbm demo_chain)
      (ss_TailBlock (seg_state demo_X ''s'' (demo_world (demo_segment DISJOINTED 0 0))))
      (demo_world (demo_segment DISJOINTED 0 0)) = (Ok (demo_obj 0 z0), demo_world (demo_segment DISJOINTED 0 0))"
    by (rule GetBlock_run) code_simp
qed simp

definition demo_wj :: "demo_env chain_world" where
  "demo_wj = demo_w\<lparr>segmentMap := [''s'' \<mapsto> demo_segment VALID 0 0, ''u'' \<mapsto> demo_segment_u DISJOINTED '''']\<rparr>"

lemma demo_wj_seg [simp]:
  "seg_state demo_X ''s'' demo_wj = demo_segment VALID 0 0"
  "seg_state demo_X ''u'' demo_wj = demo_segment_u DISJOINTED ''''"
  by (simp_all add: demo_wj_def seg_state_def)

theorem append_segment_joins_witness:
  "ss_Status (seg_state demo_X ''u'' (snd (AppendSegment demo_X demo_sdb ''s'' ''u'' demo_strategy None
     (GetBlockDbm demo_chain) demo_wj))) = VALID"
proof -
  have tb: "GetBlock demo_X demo_strategy (GetBlockDbm demo_chain) (demo_ref 11) demo_wj = (Ok (demo_obj 1 z0), demo_wj)"
    by (rule GetBlock_ext [OF demo_block_1]) (simp add: demo_wj_def)
  have hb: "GetBlock demo_X demo_strategy (GetBlockDbm demo_chain) (demo_ref 10) demo_wj = (Ok (demo_obj 0 s0), demo_wj)"
    by (rule GetBlock_ext [OF demo_block_0]) (simp add: demo_wj_def)
  have vc: "valid_child demo_X (ext demo_wj) (demo_obj 0 s0) (demo_obj 1 z0)" by code_simp
  have f: "ss_TailBlock (demo_segment_u DISJOINTED '''') = demo_ref 11" "ss_HeadBlock (demo_segment VALID 0 0) = demo_ref 10"
    "ss_Status (demo_segment_u DISJOINTED '''') = DISJOINTED" "ss_Status (demo_segment VALID 0 0) = VALID"
    by (simp_all add: demo_segment_u_def demo_segment_def)
  have val: "ValidateChild demo_X (demo_obj 0 s0) (demo_obj 1 z0) None demo_wj = (Ok False, demo_wj)"
    using vc by (simp add: validate_child_rule validator_verdict_def)
  let ?u = "demo_segment_u VALID ''s''"
  let ?w = "demo_wj\<lparr>segmentMap := (segmentMap demo_wj)(''u'' \<mapsto> ?u)\<rparr>"
  have u: "(demo_segment_u DISJOINTED [])\<lparr>ss_Status := VALID, ss_SegmentPrev := ss_Id (demo_segment VALID 0 0)\<rparr> = ?u"
    by (simp add: demo_segment_u_def demo_segment_def)
  have "fst (Segment_writeState demo_X demo_sdb ''u'' ?w) = Ok ()"
    by (rule demo_write_seg) (simp add: demo_tables0_def)
  then obtain w1 where w1: "Segment_writeState demo_X demo_sdb ''u'' ?w = (Ok (), w1)" by (metis prod.collapse)
  note s1 = Segment_writeState_seg_state [OF w1]
  have "fst (Segment_writeState demo_X demo_sdb ''s'' (w1\<lparr>segmentMap := (segmentMap w1)(''s'' \<mapsto>
      (demo_segment VALID 0 0)\<lparr>ss_SegmentNext := ''u''\<rparr>)\<rparr>)) = Ok ()"
    by (rule demo_write_seg) (simp add: demo_tables0_def)
  moreover have "ss_Id ?u = ''u''" by (simp add: demo_segment_u_def)
  ultimately have run: "fst (AppendSegment demo_X demo_sdb ''s'' ''u'' demo_strategy None (GetBlockDbm demo_chain) demo_wj) = Ok ()"
    using tb hb val f u w1 s1 by (simp add: AppendSegment_run gbind_def)
  from append_segment_joins [OF _ _ _ _ run_eq [OF run], of "demo_obj 1 z0" "demo_obj 0 s0"]
  show ?thesis using tb hb vc f by (auto simp: validator_verdict_def split: if_splits)
qed

section \<open>The chain\<close>

definition demo_conf :: "bytes chain_conf" where
  "demo_conf = \<lparr>conf_GenesisRef = demo_ref 32, conf_EncryptionStrategy = ConvergentImmutable,
     conf_EncryptionArgs = Some (replicate 32 7)\<rparr>"

definition demo_registry :: "bytes option ctor_registry" where
  "demo_registry = [ConvergentImmutable \<mapsto> Some (NewConvergentImmutableStrategyFromConfig
     (\<lambda>a. case a of None \<Rightarrow> Inl (ExtError ''no arguments'') | Some b \<Rightarrow> Inr b))]"

lemma FromConfig_run:
  assumes "case fst (FromConfig X known reg dbm conf bv w) of Ok c \<Rightarrow> P c | _ \<Rightarrow> False"
  obtains c w' where "FromConfig X known reg dbm conf bv w = (Ok c, w')" "P c"
  using assms by (cases "FromConfig X known reg dbm conf bv w") (auto split: res.splits)

theorem chain_invariant_witness:
  "\<exists>c (w :: demo_env chain_world). chain_reachable demo_X c w \<and> distinct (pq (segmentQueue w))"
proof -
  have "case fst (FromConfig demo_X (\<lambda>_. True) demo_registry [''/d''] demo_conf None demo_w) of
      Ok c \<Rightarrow> gen_ChainId (c_genesis c) = ''c'' | _ \<Rightarrow> False" by code_simp
  then obtain c w where "FromConfig demo_X (\<lambda>_. True) demo_registry [''/d''] demo_conf None demo_w = (Ok c, w)"
    by (rule FromConfig_run)
  then have "chain_reachable demo_X c w" by (intro reach_init init_load)
  moreover have "distinct (pq (segmentQueue w))" using chain_invariant [OF calculation] by simp
  ultimately show ?thesis by blast
qed

theorem segment_verdict_final_witness:
  "\<exists>st. segmentMap demo_w1 ''s'' = Some st \<and> ss_Status st = ss_Status (demo_segment VALID 0 0)"
proof -
  have "chain_step demo_X demo_chain demo_w demo_w1" by (rule step_commit [OF demo_commit])
  then have run: "(chain_step demo_X demo_chain)\<^sup>*\<^sup>* demo_w demo_w1" by simp
  have "segmentMap demo_w ''s'' = Some (demo_segment VALID 0 0)" by (simp add: demo_w_def demo_world_def)
  from segment_verdict_final [OF run this] show ?thesis by (simp add: demo_segment_def)
qed

theorem commit_idempotent_witness:
  "HandleBlockCommit demo_X demo_chain ''v'' (demo_ref 11) demo_w1 = (Ok (), demo_w1)"
  by (rule commit_idempotent [OF demo_store_ok _ demo_commit]) simp

theorem commit_extends_segment_witness:
  "ss_HeadBlock (seg_state demo_X ''s'' demo_w1) = demo_ref 11 \<and> recheckStateTrigger demo_w1 \<noteq> []"
  using commit_extends_segment [OF demo_store_ok demo_commit, of "demo_obj 1 z0" "demo_obj 0 s0"]
    demo_block_0 demo_block_1 by fastforce

theorem restart_resumes_head_witness:
  "\<exists>c w. FromConfig demo_X (\<lambda>_. True) demo_registry (c_dbm demo_chain) demo_conf None
       (snd (setHeadBlock demo_X demo_chain (demo_obj 0 s0) demo_w)) = (Ok c, w) \<and>
     ch_state w = \<lparr>cs_StateSegment = ''s'', cs_LastHeight = 1, cs_LastRound = 0\<rparr>"
proof -
  let ?w = "snd (setHeadBlock demo_X demo_chain (demo_obj 0 s0) demo_w)"
  have set: "fst (setHeadBlock demo_X demo_chain (demo_obj 0 s0) demo_w) = Ok ()" by code_simp
  have "case fst (FromConfig demo_X (\<lambda>_. True) demo_registry (c_dbm demo_chain) demo_conf None ?w) of
      Ok c \<Rightarrow> gen_ChainId (c_genesis c) = gen_ChainId (c_genesis demo_chain) | _ \<Rightarrow> False" by code_simp
  then obtain c w where run: "FromConfig demo_X (\<lambda>_. True) demo_registry (c_dbm demo_chain) demo_conf None ?w = (Ok c, w)"
    and c: "gen_ChainId (c_genesis c) = gen_ChainId (c_genesis demo_chain)"
    by (rule FromConfig_run)
  have "ch_state w = \<lparr>cs_StateSegment = bs_SegmentId (b_State (demo_obj 0 s0)),
      cs_LastHeight = GetHeight (hdr_RoundInfo (b_header (demo_obj 0 s0))) + 1, cs_LastRound = 0\<rparr>"
    by (rule restart_resumes_head [OF _ _ run_eq [OF set] run _ c]) simp_all
  with run show ?thesis by (auto simp: demo_header_def)
qed

text \<open>The first check of a chain adopts the head of its segment.\<close>

theorem state_check_follows_head_witness:
  "\<exists>b. lastBlock (snd (manageStateOnce demo_X demo_chain (10 * second) (10 * second) demo_w)) = Some b \<and>
     cs_StateSegment (ch_state (snd (manageStateOnce demo_X demo_chain (10 * second) (10 * second) demo_w))) =
       bs_SegmentId (b_State b)"
proof -
  let ?w = "snd (manageStateOnce demo_X demo_chain (10 * second) (10 * second) demo_w)"
  have run: "fst (manageStateOnce demo_X demo_chain (10 * second) (10 * second) demo_w) = Ok ()" by code_simp
  have "GetObjectDigest (ss_HeadBlock (seg_state demo_X
      (state_segment demo_X (cs_StateSegment (ch_state demo_w)) ?w) ?w)) \<noteq> lastHeadDigest demo_w" by code_simp
  with state_check_follows_head [OF demo_store_ok demo_codecs_ok(3) run_eq [OF run] refl refl] show ?thesis by auto
qed

section \<open>Rounds\<close>

definition demo_wh :: "demo_env chain_world" where
  "demo_wh = demo_w\<lparr>lastBlockHeader := Some (demo_header 0), lastHeadDigest := replicate 24 10\<rparr>"

definition demo_wr :: "demo_env chain_world" where
  "demo_wr = snd (computeEmitSnapshot demo_X demo_chain (10 * second) (10 * second) demo_wh)"

lemma demo_round: "computeEmitSnapshot demo_X demo_chain (10 * second) (10 * second) demo_wh = (Ok (), demo_wr)"
  unfolding demo_wr_def by (rule run_eq) code_simp

lemma demo_wh_header: "lastBlockHeader demo_wh = Some (demo_header 0)"
  by (simp add: demo_wh_def)

lemma demo_time: "ts_to_time demo_X (hdr_BlockTs (demo_header 0)) = 0"
  by code_simp

theorem published_snapshot_current_witness:
  "\<exists>s. lastStateSnapshot demo_wr = Some s \<and> sn_RoundStarted s = (sn_RoundStartTime s < 10 * second)"
  using published_snapshot_current [OF demo_wh_header demo_round] by blast

theorem round_counts_elapsed_witness:
  "\<exists>cc. chain_config_of demo_X (ext demo_wh) demo_strategy (hdr_NextChainConfigRef (demo_header 0)) = Some cc \<and>
     second \<le> round_duration cc"
  using round_counts_elapsed [OF demo_wh_header demo_round] by (auto simp: demo_time)

theorem next_round_start_one_late_witness:
  "\<exists>s. lastStateSnapshot demo_wr = Some s \<and>
     sn_NextRoundStartTime s = sn_RoundEndTime s + round_duration demo_config"
proof -
  have cc: "chain_config_of demo_X (ext demo_wh) (c_encStrat demo_chain) (hdr_NextChainConfigRef (demo_header 0)) = Some demo_config"
    by code_simp
  have r: "cs_LastRound (ch_state demo_wr) = 3" by code_simp
  have b: "sint (3 + 1 :: u64) = sint (3 :: u64) + 1" "0 \<le> sint (3 :: u64)" "0 \<le> propose_delay demo_config"
    "propose_delay demo_config + round_duration demo_config * (sint (3 :: u64) + 1) < 2 ^ 63" by code_simp+
  have n: "lastStateSnapshot demo_wh = None" by (simp add: demo_wh_def demo_w_def demo_world_def)
  from next_round_start_one_late [OF demo_wh_header demo_round n cc] r b show ?thesis by auto
qed

theorem next_check_never_late_witness:
  "nextCheckTime 0 (5 * second) None \<le> 15 * second"
  using next_check_never_late [of "5 * second" 0 None] by simp

text \<open>A chain without a current segment fails its check, and is checked again after ten seconds, although the initial
  timer fired during the check.\<close>

theorem state_checks_keep_coming_witness:
  "tm_armed (nextCheckTimer (resetTimer (6 * second) (6 * second) None (timer_fires (5 * second) (manageState_begin 0 0)))) =
     Some (16 * second)"
proof -
  let ?w = "demo_w\<lparr>ch_state := \<lparr>cs_StateSegment = [], cs_LastHeight = 1, cs_LastRound = 0\<rparr>\<rparr>"
  let ?ct = "timer_fires (5 * second) (manageState_begin 0 0)"
  have "(loop_step demo_X demo_chain 0)\<^sup>*\<^sup>* (0, LoopChecking, manageState_begin 0 0, ?w) (5 * second, LoopChecking, ?ct, ?w)"
    by (intro r_into_rtranclp loop_fire) simp
  moreover have "manageState_iter demo_X demo_chain 0 0 (6 * second) (6 * second) ?ct ?w =
      (Ok (resetTimer (6 * second) (6 * second) None ?ct), ?w)"
    by (simp add: manageState_iter_def manageStateOnce_def gbind_def gtry_def demo_w_def demo_world_def)
  moreover have "lastNextCheckTime (resetTimer (6 * second) (6 * second) None ?ct) = 16 * second" by code_simp
  ultimately show ?thesis
    using state_checks_keep_coming [of 0 0 0 0 demo_X demo_chain ?w "5 * second" ?ct ?w 0 0 "6 * second" "6 * second"
        "resetTimer (6 * second) (6 * second) None ?ct" ?w] by auto
qed


end
