(* ===== verification/Peers.thy ===== *)
theory Peers
  imports Commits
begin

text \<open>
  Package \<^verbatim>\<open>peer\<close>: remote nodes, the messages observed from them, and the subscriptions to those
  messages. The peer store keeps one object per peer identifier, so a \<open>*Peer\<close> pointer is that
  identifier and the object is the entry of \<open>peers\<close>. The handler of a peer is the chain's
  \<open>HandleBlockCommit\<close>, passed as an argument.
\<close>

section \<open>State\<close>

record peer_obj =
  p_pubKey :: pub_key
  p_peerID :: peer_id
  p_db :: db_view
  p_state :: peer_state
  p_nextSubId :: u32
  p_msgSubs :: "u32 \<rightharpoonup> node_message list"

record peer_store =
  ps_db :: db_view
  ps_genesisDigest :: bytes
  ps_encStrat :: strategy

record 'e peer_world = "'e chain_world" +
  peers :: "peer_id \<rightharpoonup> peer_obj"

text \<open>\<open>HandleBlockCommit\<close> of the interface \<open>PeerHandler\<close>, given the block reference and the block.\<close>

type_synonym ('e, 'z) commit_handler = "sref \<Rightarrow> inca_block \<Rightarrow> (('e, 'z) peer_world_scheme, unit) go"

section \<open>Subscriptions\<close>

definition peer_update ::
  "peer_id \<Rightarrow> (peer_obj \<Rightarrow> peer_obj) \<Rightarrow> (('e, 'z) peer_world_scheme, unit) go" where
  "peer_update pid f =
     gmodify (\<lambda>w. w\<lparr>peers := (peers w)(pid := map_option f (peers w pid))\<rparr>)"

definition SubscribeMessages :: "peer_id \<Rightarrow> (('e, 'z) peer_world_scheme, u32) go" where
  "SubscribeMessages pid = (\<lambda>w.
     case peers w pid of
       None \<Rightarrow> (Panic, w)
     | Some p \<Rightarrow>
         let nextSubID = p_nextSubId p + 1 in
         (Ok nextSubID, w\<lparr>peers := (peers w)(pid \<mapsto>
            p\<lparr>p_nextSubId := nextSubID, p_msgSubs := (p_msgSubs p)(nextSubID \<mapsto> [])\<rparr>)\<rparr>))"

definition UnsubscribeMessages :: "peer_id \<Rightarrow> u32 \<Rightarrow> (('e, 'z) peer_world_scheme, unit) go" where
  "UnsubscribeMessages pid subID =
     peer_update pid (\<lambda>p. p\<lparr>p_msgSubs := (p_msgSubs p)(subID := None)\<rparr>)"

definition enqueue_message :: "node_message \<Rightarrow> node_message list \<Rightarrow> node_message list" where
  "enqueue_message msg ch = (case enqueue_loop 5 msg ch of Some ch' \<Rightarrow> ch' | None \<Rightarrow> ch)"

definition emitNextNodeMessage ::
  "peer_id \<Rightarrow> node_message \<Rightarrow> (('e, 'z) peer_world_scheme, unit) go" where
  "emitNextNodeMessage pid msg =
     peer_update pid (\<lambda>p. p\<lparr>p_msgSubs := (\<lambda>k. map_option (enqueue_message msg) (p_msgSubs p k))\<rparr>)"

section \<open>The peer's state\<close>

definition Peer_readState ::
  "('e, 'x) externals_scheme \<Rightarrow> peer_obj \<Rightarrow> (('e, 'z) peer_world_scheme, peer_obj) go" where
  "Peer_readState X p =
     gbind (read_slot X (pb_peer_state X) (p_db p) ''/state'' (p_state p)) (\<lambda>st.
       gret (p\<lparr>p_state := st\<rparr>))"

definition Peer_writeState ::
  "('e, 'x) externals_scheme \<Rightarrow> peer_obj \<Rightarrow> (('e, 'z) peer_world_scheme, unit) go" where
  "Peer_writeState X p = write_slot X (pb_peer_state X) (p_db p) ''/state'' (p_state p)"

definition NewPeer ::
  "('e, 'x) externals_scheme \<Rightarrow> peer_store \<Rightarrow> pub_key \<Rightarrow> (('e, 'z) peer_world_scheme, peer_obj) go" where
  "NewPeer X ps pubKey =
     (let peerID = fst (id_from_pub X pubKey) in
      Peer_readState X \<lparr>p_pubKey = pubKey, p_peerID = peerID,
        p_db = WithPrefix (ps_db ps) (''/'' @ pretty_id X peerID),
        p_state = \<lparr>LastObservedMessage = None\<rparr>, p_nextSubId = 0, p_msgSubs = Map.empty\<rparr>)"

section \<open>Incoming messages\<close>

text \<open>\<open>now\<close> is the reading of the clock.\<close>

definition processIncomingNodeMessage ::
  "('e, 'x) externals_scheme \<Rightarrow> peer_store \<Rightarrow> ('e, 'z) commit_handler \<Rightarrow> time \<Rightarrow> peer_obj \<Rightarrow>
     node_message \<Rightarrow> (('e, 'z) peer_world_scheme, unit) go" where
  "processIncomingNodeMessage X ps handler now p nm =
     (if GetObjectDigest (nm_GenesisRef nm) \<noteq> ps_genesisDigest ps then
        gfail (Errorf ''genesis reference mismatch'')
      else
      gbind (gtry (gres (res_of (ts_validate X (nm_Timestamp nm))))) (\<lambda>r.
      case r of Inl e \<Rightarrow> gfail (Wrapped ''invalid timestamp'' e) | Inr _ \<Rightarrow>
      let nmTime = ts_to_time X (nm_Timestamp nm) in
      if (case LastObservedMessage (p_state p) of None \<Rightarrow> False
          | Some lastNm \<Rightarrow> ts_to_time X (nm_Timestamp lastNm) > nmTime) then
        gfail (Errorf ''old message at %s: latest %s'')
      else
      let p' = p\<lparr>p_state := (p_state p)\<lparr>LastObservedMessage := Some nm\<rparr>\<rparr> in
      gbind (peer_update (p_peerID p) (\<lambda>q. q\<lparr>p_state := p_state p'\<rparr>)) (\<lambda>_.
      gbind (gtry (Peer_writeState X p')) (\<lambda>_.
      if nmTime > now then gfail (Errorf ''message is in the future by %s'')
      else if time_Sub now nmTime > 120 * second then gret ()
      else
      gbind (if nm_MessageType nm = BLOCK_COMMIT then
               gbind (FollowBlockRef X (nm_InnerRef nm) (ps_encStrat ps)) (\<lambda>blk.
               gbind (gtry (handler (nm_InnerRef nm) blk)) (\<lambda>_. gret ()))
             else gret ()) (\<lambda>_.
      emitNextNodeMessage (p_peerID p) nm)))))"

definition processIncomingPubsubMessage ::
  "('e, 'x) externals_scheme \<Rightarrow> peer_store \<Rightarrow> ('e, 'z) commit_handler \<Rightarrow> time \<Rightarrow> peer_obj \<Rightarrow>
     chain_pubsub_message \<Rightarrow> (('e, 'z) peer_world_scheme, unit) go" where
  "processIncomingPubsubMessage X ps handler now p pubsubMsg =
     (if pretty_id X (p_peerID p) \<noteq> pm_PeerId pubsubMsg then
        gfail (Errorf ''pub-sub message not from this peer'')
      else
      let msgRef = pm_NodeMessageRef pubsubMsg in
      if GetObjectDigest msgRef = [] then gfail (Errorf ''object digest cannot be empty'')
      else
      gbind (gres (GetNodeMessageEncryptionConfigWithDigest (ps_encStrat ps) (p_pubKey p)
               (GetObjectDigest msgRef))) (\<lambda>encConf.
      gbind (gext (\<lambda>e. follow_node_message X e msgRef (Some encConf) [])) (\<lambda>nm.
      if nm_PubKey nm = [] then gfail (Errorf ''node message has no public key'')
      else
      gbind (gtry (gres (res_of (unmarshal_pub X (nm_PubKey nm))))) (\<lambda>r.
      case r of
        Inl e \<Rightarrow> gfail (Wrapped ''unmarshal node message public key'' e)
      | Inr nmPub \<Rightarrow>
          if \<not> pub_equals X nmPub (p_pubKey p) then
            gfail (Errorf ''node message public key mismatch: %s != %s (expected)'')
          else processIncomingNodeMessage X ps handler now p nm))))"

text \<open>The exported entry point logs and drops every error.\<close>

definition ProcessNodePubsubMessage ::
  "('e, 'x) externals_scheme \<Rightarrow> peer_store \<Rightarrow> ('e, 'z) commit_handler \<Rightarrow> time \<Rightarrow> peer_id \<Rightarrow>
     chain_pubsub_message \<Rightarrow> (('e, 'z) peer_world_scheme, unit) go" where
  "ProcessNodePubsubMessage X ps handler now pid msg =
     gbind (gasks (\<lambda>w. peers w pid)) (\<lambda>po.
     case po of
       None \<Rightarrow> gres Panic
     | Some p \<Rightarrow> gbind (gtry (processIncomingPubsubMessage X ps handler now p msg)) (\<lambda>_. gret ()))"

section \<open>The peer store\<close>

definition NewPeerStore :: "db_view \<Rightarrow> bytes \<Rightarrow> strategy \<Rightarrow> peer_store" where
  "NewPeerStore dbm genesisDigest encStrat =
     \<lparr>ps_db = WithPrefix dbm ''/peers'', ps_genesisDigest = genesisDigest, ps_encStrat = encStrat\<rparr>"

definition GetPeer :: "peer_id \<Rightarrow> (('e, 'z) peer_world_scheme, peer_id option) go" where
  "GetPeer pid = gasks (\<lambda>w. map_option (\<lambda>_. pid) (peers w pid))"

definition GetPeerWithPubKey ::
  "('e, 'x) externals_scheme \<Rightarrow> peer_store \<Rightarrow> pub_key \<Rightarrow> (('e, 'z) peer_world_scheme, peer_id) go" where
  "GetPeerWithPubKey X ps pubKey =
     (let pid = fst (id_from_pub X pubKey) in
      gbind (GetPeer pid) (\<lambda>known.
      case known of
        Some p \<Rightarrow> gret p
      | None \<Rightarrow>
          gbind (NewPeer X ps pubKey) (\<lambda>p.
          gbind (gmodify (\<lambda>w. w\<lparr>peers := (peers w)(pid \<mapsto> p)\<rparr>)) (\<lambda>_.
          gret pid))))"

section \<open>What a message leaves behind\<close>

definition peer_time :: "('e, 'x) externals_scheme \<Rightarrow> peer_obj \<Rightarrow> time option" where
  "peer_time X p = map_option (\<lambda>nm. ts_to_time X (nm_Timestamp nm)) (LastObservedMessage (p_state p))"

text \<open>The store maps an identifier to the object of that peer.\<close>

definition peers_inv :: "('e, 'x) externals_scheme \<Rightarrow> ('e, 'z) peer_world_scheme \<Rightarrow> bool" where
  "peers_inv X w \<longleftrightarrow> (\<forall>pid p. peers w pid = Some p \<longrightarrow>
     p_peerID p = pid \<and> fst (id_from_pub X (p_pubKey p)) = pid)"

text \<open>A message is acceptable to a peer at a time when every check of the two handlers passes.\<close>

definition acceptable ::
  "('e, 'x) externals_scheme \<Rightarrow> peer_store \<Rightarrow> time \<Rightarrow> peer_obj \<Rightarrow> node_message \<Rightarrow> bool" where
  "acceptable X ps now p nm \<longleftrightarrow>
     GetObjectDigest (nm_GenesisRef nm) = ps_genesisDigest ps \<and>
     ts_validate X (nm_Timestamp nm) = Inr () \<and>
     (\<forall>t. peer_time X p = Some t \<longrightarrow> t \<le> ts_to_time X (nm_Timestamp nm)) \<and>
     ts_to_time X (nm_Timestamp nm) \<le> now \<and>
     now - ts_to_time X (nm_Timestamp nm) \<le> 120 * second"

lemma enqueue_message_eq: "enqueue_message msg ch = drop (length ch - 4) ch @ [msg]"
proof -
  have "Suc (length ch) - 5 = length ch - 4" by simp
  then show ?thesis by (simp add: enqueue_message_def enqueue_loop_eq)
qed

lemma enqueue_message_bound: "length ch \<le> 5 \<Longrightarrow> length (enqueue_message msg ch) \<le> 5"
  by (simp add: enqueue_message_eq)

lemma peer_update_apply [simp]:
  "peer_update pid f w = (Ok (), w\<lparr>peers := (peers w)(pid := map_option f (peers w pid))\<rparr>)"
  by (simp add: peer_update_def)

lemma keeps_peer_update [keeps_intros]:
  "(\<And>w. P w \<Longrightarrow> P (w\<lparr>peers := (peers w)(pid := map_option f (peers w pid))\<rparr>)) \<Longrightarrow> keeps P (peer_update pid f)"
  by (rule keepsI) simp

lemma keeps_Peer_writeState [keeps_intros]:
  "(\<And>w e. P w \<Longrightarrow> P (w\<lparr>ext := e\<rparr>)) \<Longrightarrow> keeps P (Peer_writeState X p)"
  unfolding Peer_writeState_def by (intro keeps_intros)

lemma keeps_Peer_readState [keeps_intros]: "keeps P (Peer_readState X p)"
  unfolding Peer_readState_def by (intro keeps_intros)

lemma keeps_NewPeer [keeps_intros]: "keeps P (NewPeer X ps k)"
  unfolding NewPeer_def Let_def by (intro keeps_intros)

text \<open>
  The checks before the record is written decide whether anything happens at all.
\<close>

definition admissible ::
  "('e, 'x) externals_scheme \<Rightarrow> peer_store \<Rightarrow> peer_obj \<Rightarrow> node_message \<Rightarrow> bool" where
  "admissible X ps p nm \<longleftrightarrow>
     GetObjectDigest (nm_GenesisRef nm) = ps_genesisDigest ps \<and>
     ts_validate X (nm_Timestamp nm) = Inr () \<and>
     (\<forall>t. peer_time X p = Some t \<longrightarrow> t \<le> ts_to_time X (nm_Timestamp nm))"

lemma inadmissible_noop:
  assumes "\<not> admissible X ps p nm"
  shows "\<exists>e. processIncomingNodeMessage X ps h now p nm w = (Err e, w)"
  using assms
  by (cases "ts_validate X (nm_Timestamp nm)")
     (auto simp: processIncomingNodeMessage_def admissible_def peer_time_def gbind_def gtry_def
       split: option.splits)

definition recorded :: "peer_obj \<Rightarrow> node_message \<Rightarrow> peer_obj" where
  "recorded p nm = p\<lparr>p_state := (p_state p)\<lparr>LastObservedMessage := Some nm\<rparr>\<rparr>"

definition deliver ::
  "('e, 'x) externals_scheme \<Rightarrow> peer_store \<Rightarrow> ('e, 'z) commit_handler \<Rightarrow> time \<Rightarrow> peer_obj \<Rightarrow>
     node_message \<Rightarrow> (('e, 'z) peer_world_scheme, unit) go" where
  "deliver X ps handler now p nm =
     (let nmTime = ts_to_time X (nm_Timestamp nm) in
      if nmTime > now then gfail (Errorf ''message is in the future by %s'')
      else if time_Sub now nmTime > 120 * second then gret ()
      else
      gbind (if nm_MessageType nm = BLOCK_COMMIT then
               gbind (FollowBlockRef X (nm_InnerRef nm) (ps_encStrat ps)) (\<lambda>blk.
               gbind (gtry (handler (nm_InnerRef nm) blk)) (\<lambda>_. gret ()))
             else gret ()) (\<lambda>_.
      emitNextNodeMessage (p_peerID p) nm))"

lemma admissible_run:
  assumes "admissible X ps p nm"
  shows "processIncomingNodeMessage X ps h now p nm w =
    gbind (gtry (Peer_writeState X (recorded p nm))) (\<lambda>_. deliver X ps h now p nm)
      (w\<lparr>peers := (peers w)(p_peerID p := map_option (\<lambda>q. q\<lparr>p_state := p_state (recorded p nm)\<rparr>)
        (peers w (p_peerID p)))\<rparr>)"
  using assms
  by (auto simp: processIncomingNodeMessage_def admissible_def peer_time_def deliver_def recorded_def
      gbind_def gtry_def Let_def split: option.splits)

lemma write_outcome:
  obtains e' r where "gtry (Peer_writeState X p) w = (Ok r, w\<lparr>ext := e'\<rparr>)"
proof -
  obtain r w' where wr: "write_slot X (pb_peer_state X) (p_db p) ''/state'' (p_state p) w = (r, w')" by force
  then obtain e' where "w' = w\<lparr>ext := e'\<rparr>" by (rule write_slot_frame)
  moreover have "r \<noteq> Panic" using wr by auto
  ultimately show ?thesis using wr that by (cases r) (auto simp: Peer_writeState_def gtry_def)
qed

text \<open>An admissible message is recorded; the peer's state is written, successfully or not; then it is delivered.\<close>

lemma admissible_step:
  assumes adm: "admissible X ps p nm" and p: "peers w (p_peerID p) = Some p"
  obtains e' where "processIncomingNodeMessage X ps h now p nm w =
    deliver X ps h now p nm (w\<lparr>peers := (peers w)(p_peerID p \<mapsto> recorded p nm), ext := e'\<rparr>)"
proof -
  let ?w = "w\<lparr>peers := (peers w)(p_peerID p \<mapsto> recorded p nm)\<rparr>"
  obtain e' r where "gtry (Peer_writeState X (recorded p nm)) ?w = (Ok r, ?w\<lparr>ext := e'\<rparr>)"
    by (rule write_outcome)
  with p have "processIncomingNodeMessage X ps h now p nm w = deliver X ps h now p nm (?w\<lparr>ext := e'\<rparr>)"
    by (simp add: admissible_run [OF adm] gbind_def recorded_def)
  then show ?thesis by (rule that)
qed

section \<open>The block commit handler\<close>

text \<open>
  What the peer relies on of its handler: it does not touch the peers. The lemmas about incoming
  messages are proved for every such handler; the chain's is one.
\<close>

definition after_message :: "peer_obj \<Rightarrow> node_message \<Rightarrow> bool \<Rightarrow> peer_obj" where
  "after_message p nm emitted =
     (if emitted then (recorded p nm)\<lparr>p_msgSubs := (\<lambda>k. map_option (enqueue_message nm) (p_msgSubs p k))\<rparr>
      else recorded p nm)"

lemma after_message_simps [simp]:
  "p_state (after_message p nm b) = \<lparr>LastObservedMessage = Some nm\<rparr>"
  "p_peerID (after_message p nm b) = p_peerID p" "p_pubKey (after_message p nm b) = p_pubKey p"
  "p_db (after_message p nm b) = p_db p"
  by (simp_all add: after_message_def recorded_def)

locale commit_sink =
  fixes handler :: "('e, 'z) commit_handler"
  assumes handler_frame: "keeps (\<lambda>w. peers w = m) (handler r blk)"
begin

lemma deliver_peers:
  assumes run: "deliver X ps handler now p nm w = (r, w')"
    and p: "peers w (p_peerID p) = Some (recorded p nm)" and adm: "admissible X ps p nm"
  shows "\<exists>emitted. peers w' = (peers w)(p_peerID p \<mapsto> after_message p nm emitted) \<and>
    (emitted \<longrightarrow> acceptable X ps now p nm)"
proof (cases "ts_to_time X (nm_Timestamp nm) \<le> now \<and> now - ts_to_time X (nm_Timestamp nm) \<le> 120 * second")
  case False
  then have "peers w' = peers w"
    using run by (auto simp: deliver_def Let_def time_Sub_def split: if_splits)
  with p show ?thesis by (intro exI [of _ False]) (auto simp: after_message_def)
next
  case True
  then have acc: "acceptable X ps now p nm" using adm by (auto simp: acceptable_def admissible_def)
  let ?pre = "if nm_MessageType nm = BLOCK_COMMIT then
      gbind (FollowBlockRef X (nm_InnerRef nm) (ps_encStrat ps)) (\<lambda>blk.
      gbind (gtry (handler (nm_InnerRef nm) blk)) (\<lambda>_. gret ())) else gret ()"
  have run: "gbind ?pre (\<lambda>_. emitNextNodeMessage (p_peerID p) nm) w = (r, w')"
    using run True by (simp add: deliver_def Let_def time_Sub_def)
  obtain r1 w1 where pre: "?pre w = (r1, w1)" by force
  have "keeps (\<lambda>w'. peers w' = peers w) ?pre"
    by (intro keeps_intros handler_frame)
  from keepsD [OF this pre] have w1: "peers w1 = peers w" by simp
  show ?thesis
  proof (cases r1)
    case (Ok x)
    with run pre w1 p have "peers w' = (peers w)(p_peerID p \<mapsto> after_message p nm True)"
      by (auto simp: gbind_def emitNextNodeMessage_def after_message_def recorded_def)
    with acc show ?thesis by blast
  next
    case (Err e)
    with run pre w1 p show ?thesis by (intro exI [of _ False]) (auto simp: gbind_def after_message_def)
  next
    case Panic
    with run pre w1 p show ?thesis by (intro exI [of _ False]) (auto simp: gbind_def after_message_def)
  qed
qed

lemma message_outcome:
  assumes run: "processIncomingNodeMessage X ps handler now p nm w = (r, w')"
    and p: "peers w (p_peerID p) = Some p"
  shows "if admissible X ps p nm
    then \<exists>emitted. peers w' = (peers w)(p_peerID p \<mapsto> after_message p nm emitted) \<and>
      (emitted \<longrightarrow> acceptable X ps now p nm)
    else w' = w \<and> (\<exists>e. r = Err e)"
proof (cases "admissible X ps p nm")
  case False
  with inadmissible_noop [of X ps p nm handler now w] run show ?thesis by auto
next
  case True
  obtain e' where "processIncomingNodeMessage X ps handler now p nm w =
      deliver X ps handler now p nm (w\<lparr>peers := (peers w)(p_peerID p \<mapsto> recorded p nm), ext := e'\<rparr>)"
    by (rule admissible_step [OF True p])
  with run have "deliver X ps handler now p nm (w\<lparr>peers := (peers w)(p_peerID p \<mapsto> recorded p nm), ext := e'\<rparr>) = (r, w')"
    by simp
  from deliver_peers [OF this _ True] True show ?thesis by simp
qed

end

text \<open>The message a pub-sub message refers to, when the peer can read it and it carries the peer's key.\<close>

definition authentic ::
  "('e, 'x) externals_scheme \<Rightarrow> peer_store \<Rightarrow> 'e \<Rightarrow> peer_obj \<Rightarrow> chain_pubsub_message \<Rightarrow> node_message \<Rightarrow> bool" where
  "authentic X ps e p msg nm \<longleftrightarrow>
     pm_PeerId msg = pretty_id X (p_peerID p) \<and>
     (\<exists>c. GetNodeMessageEncryptionConfigWithDigest (ps_encStrat ps) (p_pubKey p)
            (GetObjectDigest (pm_NodeMessageRef msg)) = Ok c \<and>
          follow_node_message X e (pm_NodeMessageRef msg) (Some c) [] = Inr nm) \<and>
     (\<exists>k. unmarshal_pub X (nm_PubKey nm) = Inr k \<and> pub_equals X k (p_pubKey p))"

lemma pubsub_checks:
  "(\<exists>nm. authentic X ps (ext w) p msg nm \<and>
     processIncomingPubsubMessage X ps h now p msg w = processIncomingNodeMessage X ps h now p nm w) \<or>
   snd (processIncomingPubsubMessage X ps h now p msg w) = w"
proof (cases "pretty_id X (p_peerID p) \<noteq> pm_PeerId msg \<or> GetObjectDigest (pm_NodeMessageRef msg) = []")
  case True
  then show ?thesis by (auto simp: processIncomingPubsubMessage_def)
next
  case False
  let ?d = "GetObjectDigest (pm_NodeMessageRef msg)"
  show ?thesis
  proof (cases "GetNodeMessageEncryptionConfigWithDigest (ps_encStrat ps) (p_pubKey p) ?d")
    case (Ok c)
    show ?thesis
    proof (cases "follow_node_message X (ext w) (pm_NodeMessageRef msg) (Some c) []")
      case (Inr nm)
      show ?thesis
      proof (cases "\<exists>k. unmarshal_pub X (nm_PubKey nm) = Inr k \<and> pub_equals X k (p_pubKey p) \<and> nm_PubKey nm \<noteq> []")
        case True
        with False Ok Inr show ?thesis
          by (auto simp: authentic_def processIncomingPubsubMessage_def Let_def gbind_def gtry_def)
      next
        case bad: False
        with False Ok Inr show ?thesis
          by (cases "unmarshal_pub X (nm_PubKey nm)")
             (auto simp: processIncomingPubsubMessage_def Let_def gbind_def gtry_def)
      qed
    qed (use False Ok in \<open>simp add: processIncomingPubsubMessage_def Let_def gbind_def\<close>)
  qed (use False in \<open>simp_all add: processIncomingPubsubMessage_def Let_def gbind_def\<close>)
qed

context commit_sink
begin

lemma pubsub_outcome:
  assumes run: "ProcessNodePubsubMessage X ps handler now pid msg w = (r, w')"
    and p: "peers w pid = Some p" "p_peerID p = pid"
  shows "peers w' = peers w \<or> (\<exists>nm emitted. authentic X ps (ext w) p msg nm \<and> admissible X ps p nm \<and>
    peers w' = (peers w)(pid \<mapsto> after_message p nm emitted) \<and> (emitted \<longrightarrow> acceptable X ps now p nm))"
proof -
  obtain r1 where r1: "processIncomingPubsubMessage X ps handler now p msg w = (r1, w')"
    using run p(1) by (cases "processIncomingPubsubMessage X ps handler now p msg w")
      (auto simp: ProcessNodePubsubMessage_def gbind_def gtry_def split: res.splits)
  from pubsub_checks [of X ps w p msg handler now] show ?thesis
  proof
    assume "snd (processIncomingPubsubMessage X ps handler now p msg w) = w"
    with r1 show ?thesis by simp
  next
    assume "\<exists>nm. authentic X ps (ext w) p msg nm \<and>
      processIncomingPubsubMessage X ps handler now p msg w = processIncomingNodeMessage X ps handler now p nm w"
    then obtain nm where "authentic X ps (ext w) p msg nm"
      and "processIncomingNodeMessage X ps handler now p nm w = (r1, w')" using r1 by auto
    with message_outcome [of X ps now p nm w r1 w'] p show ?thesis by (auto split: if_splits)
  qed
qed

end

definition chain_handler :: "('e, 'x) externals_scheme \<Rightarrow> chain \<Rightarrow> string \<Rightarrow> ('e, 'z) commit_handler" where
  "chain_handler X c uid = (\<lambda>r blk. HandleBlockCommit X c uid r)"

lemma HandleBlockCommit_frame:
  assumes "seg_free P" "\<And>w t. P w \<Longrightarrow> P (w\<lparr>recheckStateTrigger := t\<rparr>)"
  shows "keeps P (HandleBlockCommit X c uid r)"
proof -
  have "keeps P triggerStateRecheck"
    unfolding triggerStateRecheck_def by (intro keeps_intros assms(2))
  then show ?thesis
    unfolding HandleBlockCommit_def Let_def
    by (intro keeps_gbind keeps_GetBlock keeps_if keeps_gret seg_free_rules assms(1))
qed

interpretation chain_sink: commit_sink "chain_handler X c uid" for X c uid
proof
  fix m r blk
  show "keeps (\<lambda>w. peers w = m) (chain_handler X c uid r blk)"
    unfolding chain_handler_def by (rule HandleBlockCommit_frame) (simp_all add: seg_free_def)
qed

section \<open>Properties\<close>

lemma peer_of_inv:
  "peers_inv X w \<Longrightarrow> peers w pid = Some p \<Longrightarrow> p_peerID p = pid \<and> fst (id_from_pub X (p_pubKey p)) = pid"
  by (simp add: peers_inv_def)

lemma peers_inv_upd:
  "peers_inv X w \<Longrightarrow> p_peerID p = pid \<Longrightarrow> fst (id_from_pub X (p_pubKey p)) = pid \<Longrightarrow>
     peers w' = (peers w)(pid \<mapsto> p) \<Longrightarrow> peers_inv X w'"
  by (auto simp: peers_inv_def)

text \<open>C14: a subscriber of a peer only ever receives checked messages. Handling a pub-sub message leaves
  every other peer alone, and either the subscriber channels of the peer are unchanged, or the message
  was read from the store under the peer's own key, carries that key, belongs to this chain, is not
  older than the last one, not in the future and at most two minutes old; then each channel ends with
  it and keeps at most the four newest values that were waiting.\<close>

theorem message_delivery_checked:
  assumes run: "ProcessNodePubsubMessage X ps (chain_handler X c uid) now pid msg w = (r, w')"
    and inv: "peers_inv X w" and p: "peers w pid = Some p"
  shows "\<exists>p'. peers w' = (peers w)(pid \<mapsto> p') \<and>
    (p_msgSubs p' = p_msgSubs p \<or>
     (\<exists>nm. authentic X ps (ext w) p msg nm \<and> acceptable X ps now p nm \<and>
        p_msgSubs p' = (\<lambda>k. map_option (\<lambda>ch. drop (length ch - 4) ch @ [nm]) (p_msgSubs p k))))"
proof -
  have pid: "p_peerID p = pid" using peer_of_inv [OF inv p] by simp
  from chain_sink.pubsub_outcome [OF run p pid] show ?thesis
  proof
    assume "peers w' = peers w"
    with p show ?thesis by (intro exI [of _ p]) auto
  next
    assume "\<exists>nm emitted. authentic X ps (ext w) p msg nm \<and> admissible X ps p nm \<and>
      peers w' = (peers w)(pid \<mapsto> after_message p nm emitted) \<and> (emitted \<longrightarrow> acceptable X ps now p nm)"
    then obtain nm b where nm: "authentic X ps (ext w) p msg nm"
      "peers w' = (peers w)(pid \<mapsto> after_message p nm b)" "b \<Longrightarrow> acceptable X ps now p nm" by blast
    show ?thesis
      by (rule exI [of _ "after_message p nm b"])
         (use nm in \<open>auto simp: after_message_def recorded_def enqueue_message_eq [abs_def]\<close>)
  qed
qed

lemma pubsub_run_authentic:
  assumes "authentic X ps (ext w) p msg nm" "nm_PubKey nm \<noteq> []" "GetObjectDigest (pm_NodeMessageRef msg) \<noteq> []"
    and "peers w pid = Some p"
  shows "ProcessNodePubsubMessage X ps h now pid msg w =
    gbind (gtry (processIncomingNodeMessage X ps h now p nm)) (\<lambda>_. gret ()) w"
proof -
  have "processIncomingPubsubMessage X ps h now p msg w = processIncomingNodeMessage X ps h now p nm w"
    using assms(1-3) by (auto simp: authentic_def processIncomingPubsubMessage_def Let_def gbind_def gtry_def)
  then show ?thesis using assms(4) by (simp add: ProcessNodePubsubMessage_def gbind_def gtry_def)
qed

lemma enqueue_message_last: "\<exists>old. enqueue_message msg ch = old @ [msg]"
  by (simp add: enqueue_message_eq)

lemma acceptable_admissible: "acceptable X ps now p nm \<Longrightarrow> admissible X ps p nm"
  by (simp add: acceptable_def admissible_def)

lemma deliver_plain:
  assumes "acceptable X ps now p nm" "nm_MessageType nm \<noteq> BLOCK_COMMIT"
  shows "deliver X ps h now p nm = emitNextNodeMessage (p_peerID p) nm"
proof -
  have "gbind (gret ()) (\<lambda>_. emitNextNodeMessage (p_peerID p) nm) = emitNextNodeMessage (p_peerID p) nm"
    by (simp add: gbind_def gret_def)
  with assms show ?thesis by (auto simp: deliver_def acceptable_def Let_def time_Sub_def)
qed

lemma plain_message_outcome:
  assumes acc: "acceptable X ps now p nm" and ty: "nm_MessageType nm \<noteq> BLOCK_COMMIT"
    and p: "peers w (p_peerID p) = Some p"
  shows "\<exists>w'. processIncomingNodeMessage X ps h now p nm w = (Ok (), w') \<and>
    peers w' = (peers w)(p_peerID p \<mapsto> after_message p nm True)"
proof -
  obtain e' where "processIncomingNodeMessage X ps h now p nm w =
      deliver X ps h now p nm (w\<lparr>peers := (peers w)(p_peerID p \<mapsto> recorded p nm), ext := e'\<rparr>)"
    by (rule admissible_step [OF acceptable_admissible [OF acc] p])
  then show ?thesis
    by (auto simp: deliver_plain [OF acc ty] emitNextNodeMessage_def after_message_def recorded_def)
qed

lemma acceptable_delivery:
  assumes auth: "authentic X ps (ext w) p msg nm" "nm_PubKey nm \<noteq> []" "GetObjectDigest (pm_NodeMessageRef msg) \<noteq> []"
    and acc: "acceptable X ps now p nm" and ty: "nm_MessageType nm \<noteq> BLOCK_COMMIT"
    and inv: "peers_inv X w" and p: "peers w pid = Some p"
  shows "\<exists>w' p'. ProcessNodePubsubMessage X ps h now pid msg w = (Ok (), w') \<and>
    peers w' pid = Some p' \<and> LastObservedMessage (p_state p') = Some nm \<and>
    (\<forall>k ch. p_msgSubs p k = Some ch \<longrightarrow> (\<exists>old. p_msgSubs p' k = Some (old @ [nm])))"
proof -
  have pid: "p_peerID p = pid" using peer_of_inv [OF inv p] by simp
  from plain_message_outcome [OF acc ty, of w h] p pid
  obtain w' where "processIncomingNodeMessage X ps h now p nm w = (Ok (), w')"
    and w': "peers w' pid = Some (after_message p nm True)" by auto
  then have "ProcessNodePubsubMessage X ps h now pid msg w = (Ok (), w')"
    by (simp add: pubsub_run_authentic [OF auth p] gbind_def gtry_def)
  then show ?thesis using w' enqueue_message_last
    by (auto simp: after_message_def recorded_def)
qed

text \<open>An acceptable vote or application message is delivered. The handler succeeds, the message
  becomes the last one observed, and every channel that subscribed to the peer ends with it.\<close>

theorem acceptable_message_delivered:
  assumes auth: "authentic X ps (ext w) p msg nm" "nm_PubKey nm \<noteq> []" "GetObjectDigest (pm_NodeMessageRef msg) \<noteq> []"
    and acc: "acceptable X ps now p nm" and ty: "nm_MessageType nm \<noteq> BLOCK_COMMIT"
    and inv: "peers_inv X w" and p: "peers w pid = Some p"
  shows "\<exists>w' p'. ProcessNodePubsubMessage X ps h now pid msg w = (Ok (), w') \<and>
    peers w' pid = Some p' \<and> LastObservedMessage (p_state p') = Some nm \<and>
    (\<forall>k ch. p_msgSubs p k = Some ch \<longrightarrow> (\<exists>old. p_msgSubs p' k = Some (old @ [nm])))"
  using assms by (rule acceptable_delivery)

text \<open>C32: the record of a peer never goes back in time. Whatever pub-sub message is handled, the last
  message observed from a peer is at least as recent as before, and the store keeps mapping each
  identifier to the peer with that identifier and key.\<close>

theorem peer_time_monotone:
  assumes run: "ProcessNodePubsubMessage X ps (chain_handler X c uid) now pid msg w = (r, w')"
    and inv: "peers_inv X w" and p: "peers w pid = Some p"
  shows "peers_inv X w' \<and> (\<exists>p'. peers w' pid = Some p' \<and>
    (\<forall>t. peer_time X p = Some t \<longrightarrow> (\<exists>t'. peer_time X p' = Some t' \<and> t \<le> t')))"
proof -
  have pid: "p_peerID p = pid" "fst (id_from_pub X (p_pubKey p)) = pid"
    using peer_of_inv [OF inv p] by simp_all
  from chain_sink.pubsub_outcome [OF run p pid(1)] show ?thesis
  proof
    assume "peers w' = peers w"
    with p inv show ?thesis by (auto simp: peers_inv_def)
  next
    assume "\<exists>nm emitted. authentic X ps (ext w) p msg nm \<and> admissible X ps p nm \<and>
      peers w' = (peers w)(pid \<mapsto> after_message p nm emitted) \<and> (emitted \<longrightarrow> acceptable X ps now p nm)"
    then obtain nm b where adm: "admissible X ps p nm" and w': "peers w' = (peers w)(pid \<mapsto> after_message p nm b)"
      by blast
    have "peers_inv X w'" by (rule peers_inv_upd [OF inv _ _ w']) (simp_all add: pid)
    with adm w' show ?thesis by (auto simp: admissible_def peer_time_def)
  qed
qed

lemma future_message_outcome:
  assumes adm: "admissible X ps p nm" and fut: "ts_to_time X (nm_Timestamp nm) > now"
    and p: "peers w (p_peerID p) = Some p"
  shows "\<exists>w' e. processIncomingNodeMessage X ps h now p nm w = (Err e, w') \<and>
    peers w' = (peers w)(p_peerID p \<mapsto> recorded p nm)"
proof -
  obtain e' where "processIncomingNodeMessage X ps h now p nm w =
      deliver X ps h now p nm (w\<lparr>peers := (peers w)(p_peerID p \<mapsto> recorded p nm), ext := e'\<rparr>)"
    by (rule admissible_step [OF adm p])
  with fut show ?thesis by (auto simp: deliver_def Let_def)
qed

text \<open>A message dated in the future silences its peer. The message is rejected, yet it has
  already been recorded as the last one observed, so that from then on every message dated before it is
  refused and changes nothing, however long that takes, although the clock has not reached its date.\<close>

theorem future_message_locks_out:
  assumes adm: "admissible X ps p nm" and fut: "ts_to_time X (nm_Timestamp nm) > now"
    and p: "peers w (p_peerID p) = Some p"
    and run: "processIncomingNodeMessage X ps h now p nm w = (r, w')"
  shows "(\<exists>e. r = Err e) \<and> (\<exists>p'. peers w' (p_peerID p) = Some p' \<and> p_msgSubs p' = p_msgSubs p \<and>
    (\<forall>h' now' nm' v. ts_to_time X (nm_Timestamp nm') < ts_to_time X (nm_Timestamp nm) \<longrightarrow>
       (\<exists>e. processIncomingNodeMessage X ps h' now' p' nm' v = (Err e, v))))"
proof -
  from future_message_outcome [OF adm fut p, of h] run
  have r: "\<exists>e. r = Err e" and w': "peers w' (p_peerID p) = Some (recorded p nm)" by auto
  have late: "\<not> admissible X ps (recorded p nm) nm'"
    if "ts_to_time X (nm_Timestamp nm') < ts_to_time X (nm_Timestamp nm)" for nm'
    using that by (auto simp: admissible_def peer_time_def recorded_def)
  have "p_msgSubs (recorded p nm) = p_msgSubs p" by (simp add: recorded_def)
  with r w' late inadmissible_noop show ?thesis by blast
qed

lemma read_slot_again: "fst (read_slot X c h k old w) = Ok v \<Longrightarrow> fst (read_slot X c h k v w) = Ok v"
  by (auto simp: read_slot_def gbind_def split: res.splits option.splits)

lemma Peer_readState_again:
  "Peer_readState X p w = (Ok q, w) \<Longrightarrow> Peer_readState X q w = (Ok q, w)"
  by (auto simp: Peer_readState_def gbind_Ok_iff read_slot_eq dest: read_slot_again)

lemma GetPeerWithPubKey_outcome:
  assumes run: "GetPeerWithPubKey X ps k w = (Ok pid, w')" and inv: "peers_inv X w"
  shows "pid = fst (id_from_pub X k) \<and> peers_inv X w' \<and>
    GetPeerWithPubKey X ps k w' = (Ok pid, w') \<and>
    (\<exists>p. peers w' = (peers w)(pid \<mapsto> p) \<and>
       (case peers w pid of Some q \<Rightarrow> p = q
        | None \<Rightarrow> p_pubKey p = k \<and> p_msgSubs p = Map.empty \<and>
            Peer_readState X p w = (Ok p, w)))"
proof (cases "peers w (fst (id_from_pub X k))")
  case (Some q)
  with run have "pid = fst (id_from_pub X k)" "w' = w"
    by (auto simp: GetPeerWithPubKey_def GetPeer_def gbind_def Let_def)
  with Some inv run show ?thesis by auto
next
  case None
  let ?id = "fst (id_from_pub X k)"
  from run None obtain p where new: "NewPeer X ps k w = (Ok p, w)" and pid: "pid = ?id"
    and w': "w' = w\<lparr>peers := (peers w)(?id \<mapsto> p)\<rparr>"
    by (auto simp: GetPeerWithPubKey_def GetPeer_def gbind_Ok_iff Let_def keeps_all_eq [OF keeps_NewPeer])
  have p: "p_pubKey p = k" "p_peerID p = ?id" "p_msgSubs p = Map.empty"
    using new by (auto simp: NewPeer_def Peer_readState_def Let_def gbind_Ok_iff)
  have rd: "Peer_readState X p w = (Ok p, w)"
    using new unfolding NewPeer_def Let_def by (rule Peer_readState_again)
  have "peers_inv X w'" by (rule peers_inv_upd [OF inv _ _, of p]) (use p w' pid in auto)
  moreover have "GetPeerWithPubKey X ps k w' = (Ok pid, w')"
    by (simp add: GetPeerWithPubKey_def GetPeer_def gbind_def Let_def w' pid)
  ultimately show ?thesis using p rd w' pid None by auto
qed

text \<open>One object per peer. Asking the store for the peer of a public key returns the identifier of
  that key and leaves an object for it, the one already there when there was one; asking again changes
  nothing. A peer that is built starts from the state that was last written for it.\<close>

theorem peer_store_singleton:
  assumes run: "GetPeerWithPubKey X ps k w = (Ok pid, w')" and inv: "peers_inv X w"
  shows "pid = fst (id_from_pub X k) \<and> peers_inv X w' \<and>
    GetPeerWithPubKey X ps k w' = (Ok pid, w') \<and>
    (\<exists>p. peers w' = (peers w)(pid \<mapsto> p) \<and>
       (case peers w pid of Some q \<Rightarrow> p = q
        | None \<Rightarrow> p_pubKey p = k \<and> p_msgSubs p = Map.empty \<and>
            Peer_readState X p w = (Ok p, w)))"
  using assms by (rule GetPeerWithPubKey_outcome)

end
