(* ===== verification/Proposer.thy ===== *)
theory Proposer
  imports Peers Rounds
begin

text \<open>
  \<^verbatim>\<open>chain/proposer.go\<close>: the actor that proposes a block when the chain's snapshot names this node as
  the proposer, collects the validators' votes and commits the block.

  The fields of the Go struct that never change are the record \<open>proposer\<close>; its persisted state is the
  field \<open>pr_state\<close> of the world. Sending a message is the node's \<open>SendMessage\<close>, an argument \<open>send\<close> of
  the operations, as is the application's \<open>block.Proposer\<close>, which sees the external services only.
  The loop of \<open>ManageProposer\<close> is a step function over the events its \<open>select\<close> statements receive.
\<close>

section \<open>The commit threshold\<close>

text \<open>
  \<open>int32(float32(total) * 0.66)\<close>. A \<open>float32\<close> has a significand of 24 bits and rounds to nearest, ties
  to even; the constant is \<open>11072963 / 2 ^ 24\<close>. The total is an \<open>int32\<close>, so no exponent limit is met,
  and the product is computed on its numerator over \<open>2 ^ 24\<close>.
\<close>

function bit_length :: "int \<Rightarrow> nat" where
  "bit_length n = (if n \<le> 0 then 0 else Suc (bit_length (n div 2)))"
  by pat_completeness auto
termination
  by (relation "measure nat") auto

declare bit_length.simps [simp del]

definition round_half_even :: "int \<Rightarrow> int \<Rightarrow> int" where
  "round_half_even n d =
     (let q = n div d; r = n mod d in
      if 2 * r < d \<or> (2 * r = d \<and> even q) then q else q + 1)"

definition round_significand :: "int \<Rightarrow> int" where
  "round_significand n =
     (let k = bit_length n - 24 in round_half_even n (2 ^ k) * 2 ^ k)"

definition BlockCommitRatio_numerator :: int where
  "BlockCommitRatio_numerator = 11072963"

definition requiredVotingPower :: "int \<Rightarrow> int" where
  "requiredVotingPower totalPower =
     sgn totalPower * (round_significand (round_significand \<bar>totalPower\<bar> * BlockCommitRatio_numerator) div 2 ^ 24)"

section \<open>State\<close>

record proposer =
  pr_dbm :: db_view
  pr_privKey :: priv_key
  pr_validatorID :: peer_id
  pr_pubKeyBytes :: bytes

record 'e proposer_world = "'e peer_world" +
  pr_state :: proposer_state

text \<open>\<open>SendMessage\<close> of the interface \<open>chain.Node\<close>.\<close>

type_synonym 'w sender = "node_message_type \<Rightarrow> u32 \<Rightarrow> sref \<Rightarrow> ('w, unit) go"

text \<open>\<open>ProposeBlock\<close> of the interface \<open>block.Proposer\<close>; a nil reference abstains.\<close>

type_synonym 'e block_proposer = "block \<Rightarrow> snapshot \<Rightarrow> 'e \<Rightarrow> (go_error + sref) \<times> 'e"

definition Proposer_readState ::
  "('e, 'x) externals_scheme \<Rightarrow> proposer \<Rightarrow> (('e, 'z) proposer_world_scheme, unit) go" where
  "Proposer_readState X p =
     gbind (gasks pr_state) (\<lambda>st.
     gbind (read_slot X (pb_proposer_state X) (pr_dbm p) ''/state'' st) (\<lambda>st'.
     gmodify (\<lambda>w. w\<lparr>pr_state := st'\<rparr>)))"

definition Proposer_writeState ::
  "('e, 'x) externals_scheme \<Rightarrow> proposer \<Rightarrow> (('e, 'z) proposer_world_scheme, unit) go" where
  "Proposer_writeState X p =
     gbind (gasks pr_state) (\<lambda>st. write_slot X (pb_proposer_state X) (pr_dbm p) ''/state'' st)"

text \<open>\<open>hasObjStore\<close> tells whether the context carries an object store.\<close>

definition NewProposer ::
  "('e, 'x) externals_scheme \<Rightarrow> priv_key \<Rightarrow> db_view \<Rightarrow> bool \<Rightarrow> (('e, 'z) proposer_world_scheme, proposer) go" where
  "NewProposer X privKey dbm hasObjStore =
     gbind (gres (res_of (id_from_priv X privKey))) (\<lambda>pid.
     gbind (gres (res_of (pub_bytes X (priv_public X privKey)))) (\<lambda>pubKeyBytes.
     gbind (gres (res_of (id_from_priv X privKey))) (\<lambda>validatorID.
     let p = \<lparr>pr_dbm = WithPrefix dbm (''/proposer/'' @ pretty_id X pid), pr_privKey = privKey,
           pr_validatorID = validatorID, pr_pubKeyBytes = pubKeyBytes\<rparr> in
     gbind (gmodify (\<lambda>w. w\<lparr>pr_state := \<lparr>ps_LastProposal = None\<rparr>\<rparr>)) (\<lambda>_.
     gbind (Proposer_readState X p) (\<lambda>_.
     gbind (Proposer_writeState X p) (\<lambda>_.
     if \<not> hasObjStore then gfail (Errorf ''object store must be specified in ctx'')
     else gret p))))))"

section \<open>Proposals and votes\<close>

definition proposal_header ::
  "('e, 'x) externals_scheme \<Rightarrow> chain \<Rightarrow> proposer \<Rightarrow> timestamp \<Rightarrow> snapshot \<Rightarrow> sref \<Rightarrow> block_header" where
  "proposal_header X c p nowTs snap proposedState =
     (let confRef = (case sn_LastBlockHeader snap of None \<Rightarrow> None | Some h \<Rightarrow> hdr_ChainConfigRef h) in
      \<lparr>hdr_GenesisRef = c_GenesisRef c, hdr_ChainConfigRef = confRef, hdr_NextChainConfigRef = confRef,
       hdr_LastBlockRef = sn_LastBlockRef snap,
       hdr_RoundInfo = Some \<lparr>Height = Height (sn_BlockRoundInfo snap), Round = Round (sn_BlockRoundInfo snap)\<rparr>,
       hdr_BlockTs = Some nowTs, hdr_ProposerId = pretty_id X (pr_validatorID p),
       hdr_StateRef = proposedState\<rparr>)"

definition makeProposal ::
  "('e, 'x) externals_scheme \<Rightarrow> chain \<Rightarrow> 'e block_proposer option \<Rightarrow> proposer \<Rightarrow> timestamp \<Rightarrow> snapshot \<Rightarrow>
     (('e, 'z) proposer_world_scheme, sref \<times> block_header option) go" where
  "makeProposal X c blockProposer p nowTs snap =
     (case blockProposer of
        None \<Rightarrow> gret (None, None)
      | Some bp \<Rightarrow>
          gbind (GetBlock X (c_encStrat c) (GetBlockDbm c) (sn_LastBlockRef snap)) (\<lambda>lastBlock.
          gbind (gcall (bp lastBlock snap)) (\<lambda>proposedState.
          if proposedState = None then gret (None, None)
          else
          let blockHeader = proposal_header X c p nowTs snap proposedState in
          gbind (gcall (\<lambda>e. store_header X e blockHeader (GetBlockEncryptionConfig X (c_encStrat c)))) (\<lambda>sr.
          gret (sr, Some blockHeader)))))"

definition Proposer_makeVote ::
  "('e, 'x) externals_scheme \<Rightarrow> chain \<Rightarrow> ('e, 'z) proposer_world_scheme sender \<Rightarrow> proposer \<Rightarrow> sref \<Rightarrow>
     (('e, 'z) proposer_world_scheme, unit) go" where
  "Proposer_makeVote X c send p blockHeaderRef =
     gbind (gcall (\<lambda>e. store_vote X e \<lparr>vote_BlockHeaderRef = blockHeaderRef\<rparr>
              (GetNodeMessageEncryptionConfig X (c_encStrat c) (pr_privKey p)))) (\<lambda>voteStorageRef.
     send VOTE 0 voteStorageRef)"

section \<open>One round of ManageProposer\<close>

text \<open>The guards at the top of the loop.\<close>

definition shouldPropose :: "proposer \<Rightarrow> proposer_state \<Rightarrow> snapshot \<Rightarrow> bool" where
  "shouldPropose p st nextState =
     (let lastHeight = GetHeight (ps_LastProposal st);
          currHeight = Height (sn_BlockRoundInfo nextState);
          lastRound = GetRound (ps_LastProposal st);
          currRound = Round (sn_BlockRoundInfo nextState) in
      if sn_CurrentProposer nextState = None then False
      else if \<not> sn_RoundStarted nextState then False
      else if GetPubKey (sn_CurrentProposer nextState) \<noteq> pr_pubKeyBytes p then False
      else if ps_LastProposal st \<noteq> None \<and> lastHeight > currHeight then False
      else if ps_LastProposal st \<noteq> None \<and> lastHeight = currHeight \<and> lastRound \<ge> currRound then False
      else True)"

text \<open>The round is recorded before anything is proposed. The result tells whether to go on.\<close>

definition recordProposal ::
  "('e, 'x) externals_scheme \<Rightarrow> proposer \<Rightarrow> snapshot \<Rightarrow> (('e, 'z) proposer_world_scheme, bool) go" where
  "recordProposal X p nextState =
     gbind (gasks (\<lambda>w. shouldPropose p (pr_state w) nextState)) (\<lambda>ok.
     if \<not> ok then gret False
     else
     gbind (gmodify (\<lambda>w. w\<lparr>pr_state := \<lparr>ps_LastProposal = Some (sn_BlockRoundInfo nextState)\<rparr>\<rparr>)) (\<lambda>_.
     gbind (gtry (Proposer_writeState X p)) (\<lambda>r.
     case r of Inl _ \<Rightarrow> gret False | Inr _ \<Rightarrow> gret True)))"

record vote_waiter =
  vw_peer :: peer_id
  vw_sub :: u32
  vw_power :: int

record confirmedVote =
  cv_peer :: peer_id
  cv_vote :: vote
  cv_voteRef :: sref
  cv_power :: int

text \<open>\<open>waitForValidatorVote\<close> starts with the subscription; its goroutine then takes messages from it.\<close>

fun waitForVotes ::
  "('e, 'x) externals_scheme \<Rightarrow> peer_store \<Rightarrow> validator list \<Rightarrow>
     (('e, 'z) proposer_world_scheme, vote_waiter list) go" where
  "waitForVotes X ps [] = gret []"
| "waitForVotes X ps (v # vs) =
     (if val_OperationMode v \<noteq> OPERATING then waitForVotes X ps vs
      else case parse_peer_id X v of
        Inl _ \<Rightarrow> waitForVotes X ps vs
      | Inr (validatorID, validatorPubKey) \<Rightarrow>
          gbind (gtry (GetPeerWithPubKey X ps validatorPubKey)) (\<lambda>r.
          case r of
            Inl _ \<Rightarrow> waitForVotes X ps vs
          | Inr pr \<Rightarrow>
              gbind (SubscribeMessages pr) (\<lambda>sub.
              gbind (waitForVotes X ps vs) (\<lambda>rest.
              gret (\<lparr>vw_peer = pr, vw_sub = sub, vw_power = i32 (val_VotingPower v)\<rparr> # rest)))))"

text \<open>
  The goroutine of \<open>waitForValidatorVote\<close>, on the messages its channel delivers before the context is
  cancelled: the first vote that can be read is passed on, with the validator's power.
\<close>

fun firstVote ::
  "('e, 'x) externals_scheme \<Rightarrow> chain \<Rightarrow> sref \<Rightarrow> vote_waiter \<Rightarrow> node_message list \<Rightarrow>
     (('e, 'z) proposer_world_scheme, confirmedVote option) go" where
  "firstVote X c blockHeaderRef vw [] = gret None"
| "firstVote X c blockHeaderRef vw (msg # msgs) =
     (if nm_MessageType msg \<noteq> VOTE then firstVote X c blockHeaderRef vw msgs
      else
      let innerRef = nm_InnerRef msg; digest = GetObjectDigest innerRef in
      gbind (gres (GetBlockEncryptionConfigWithDigest (c_encStrat c) digest)) (\<lambda>encConf.
      gbind (gtry (gext (\<lambda>e. follow_vote X e innerRef (Some encConf) digest))) (\<lambda>r.
      case r of
        Inl _ \<Rightarrow> firstVote X c blockHeaderRef vw msgs
      | Inr vt \<Rightarrow> gret (Some \<lparr>cv_peer = vw_peer vw, cv_vote = vt, cv_voteRef = innerRef,
          cv_power = vw_power vw\<rparr>))))"

definition waitForValidatorVote ::
  "('e, 'x) externals_scheme \<Rightarrow> chain \<Rightarrow> sref \<Rightarrow> vote_waiter \<Rightarrow> node_message list \<Rightarrow>
     (('e, 'z) proposer_world_scheme, confirmedVote option) go" where
  "waitForValidatorVote X c blockHeaderRef vw msgs =
     gbind (firstVote X c blockHeaderRef vw msgs) (\<lambda>r.
     gbind (UnsubscribeMessages (vw_peer vw) (vw_sub vw)) (\<lambda>_.
     gret r))"

section \<open>The loop\<close>

text \<open>
  The loop is idle, waiting for a snapshot or the end of its context, or collecting votes for a proposed header with a
  threshold and the votes confirmed so far; it stops when its context ends while it is idle or when its own vote cannot be sent.
\<close>

datatype proposer_phase = Idle | Collecting sref int "sref list" | Stopped go_error

datatype proposer_event =
    StateArrived snapshot timestamp
  | CtxDone go_error
  | VoteConfirmed confirmedVote
  | StateCtxDone

definition startCollecting ::
  "('e, 'x) externals_scheme \<Rightarrow> chain \<Rightarrow> peer_store \<Rightarrow> ('e, 'z) proposer_world_scheme sender \<Rightarrow> proposer \<Rightarrow>
     snapshot \<Rightarrow> sref \<Rightarrow> (('e, 'z) proposer_world_scheme, proposer_phase) go" where
  "startCollecting X c ps send p nextState blockHeaderRef =
     (let required = requiredVotingPower (sn_TotalVotingPower nextState) in
      gbind (waitForVotes X ps (Validators (sn_ValidatorSet nextState))) (\<lambda>_.
      gbind (gtry (Proposer_makeVote X c send p blockHeaderRef)) (\<lambda>r.
      case r of
        Inl e \<Rightarrow> gret (Stopped e)
      | Inr _ \<Rightarrow> gret (Collecting blockHeaderRef required []))))"

definition handleState ::
  "('e, 'x) externals_scheme \<Rightarrow> chain \<Rightarrow> peer_store \<Rightarrow> ('e, 'z) proposer_world_scheme sender \<Rightarrow>
     'e block_proposer option \<Rightarrow> proposer \<Rightarrow> snapshot \<Rightarrow> timestamp \<Rightarrow>
     (('e, 'z) proposer_world_scheme, proposer_phase) go" where
  "handleState X c ps send bp p nextState nowTs =
     gbind (recordProposal X p nextState) (\<lambda>ok.
     if \<not> ok then gret Idle
     else
     gbind (gtry (makeProposal X c bp p nowTs nextState)) (\<lambda>r.
     let blockHeaderRef = (case r of Inl _ \<Rightarrow> None | Inr (ref, _) \<Rightarrow> ref) in
     if blockHeaderRef = None then gret Idle
     else startCollecting X c ps send p nextState blockHeaderRef))"

definition commitBlock ::
  "('e, 'x) externals_scheme \<Rightarrow> chain \<Rightarrow> ('e, 'z) proposer_world_scheme sender \<Rightarrow> sref \<Rightarrow> sref list \<Rightarrow>
     (('e, 'z) proposer_world_scheme, unit) go" where
  "commitBlock X c send blockHeaderRef confirmedVotes =
     gbind (gtry (gcall (\<lambda>e. store_block X e
              \<lparr>blk_BlockHeaderRef = blockHeaderRef, blk_VoteRefs = confirmedVotes\<rparr>
              (GetBlockEncryptionConfig X (c_encStrat c))))) (\<lambda>r.
     case r of
       Inl _ \<Rightarrow> gret ()
     | Inr blockStorageRef \<Rightarrow>
         gbind (gtry (send BLOCK_COMMIT 0 blockStorageRef)) (\<lambda>_. gret ()))"

text \<open>\<open>currVoteStanding\<close> is declared inside the loop that collects the votes.\<close>

definition collectVote ::
  "('e, 'x) externals_scheme \<Rightarrow> chain \<Rightarrow> ('e, 'z) proposer_world_scheme sender \<Rightarrow> sref \<Rightarrow> int \<Rightarrow> sref list \<Rightarrow>
     confirmedVote \<Rightarrow> (('e, 'z) proposer_world_scheme, proposer_phase) go" where
  "collectVote X c send blockHeaderRef required confirmedVotes confVote =
     (let currVoteStanding = i32 (0 + cv_power confVote);
          confirmedVotes' = confirmedVotes @ [cv_voteRef confVote] in
      if currVoteStanding \<ge> required
      then gbind (commitBlock X c send blockHeaderRef confirmedVotes') (\<lambda>_. gret Idle)
      else gret (Collecting blockHeaderRef required confirmedVotes'))"

fun ManageProposer_step ::
  "('e, 'x) externals_scheme \<Rightarrow> chain \<Rightarrow> peer_store \<Rightarrow> ('e, 'z) proposer_world_scheme sender \<Rightarrow>
     'e block_proposer option \<Rightarrow> proposer \<Rightarrow> proposer_event \<Rightarrow> proposer_phase \<Rightarrow>
     (('e, 'z) proposer_world_scheme, proposer_phase) go" where
  "ManageProposer_step X c ps send bp p (StateArrived snap nowTs) Idle = handleState X c ps send bp p snap nowTs"
| "ManageProposer_step X c ps send bp p (CtxDone err) Idle = gret (Stopped err)"
| "ManageProposer_step X c ps send bp p (VoteConfirmed cv) (Collecting ref required votes) =
     collectVote X c send ref required votes cv"
| "ManageProposer_step X c ps send bp p StateCtxDone (Collecting ref required votes) = gret Idle"
| "ManageProposer_step X c ps send bp p _ ph = gret ph"

section \<open>The threshold\<close>





section \<open>Counting votes\<close>

fun proposer_run ::
  "('e, 'x) externals_scheme \<Rightarrow> chain \<Rightarrow> peer_store \<Rightarrow> ('e, 'z) proposer_world_scheme sender \<Rightarrow>
     'e block_proposer option \<Rightarrow> proposer \<Rightarrow> proposer_event list \<Rightarrow> proposer_phase \<Rightarrow>
     (('e, 'z) proposer_world_scheme, proposer_phase) go" where
  "proposer_run X c ps send bp p [] ph = gret ph"
| "proposer_run X c ps send bp p (ev # evs) ph =
     gbind (ManageProposer_step X c ps send bp p ev ph) (proposer_run X c ps send bp p evs)"

lemma gbind_gret: "gbind m gret = m"
  by (rule ext) (auto simp: gbind_def split: prod.splits res.splits)

lemma proposer_run_nil: "proposer_run X c ps send bp p [] = gret"
  by (rule ext) simp

lemma weak_votes_wait:
  "(\<forall>cv\<in>set cvs. i32 (cv_power cv) < required) \<Longrightarrow>
     proposer_run X c ps send bp p (map VoteConfirmed cvs) (Collecting ref required votes) w =
       (Ok (Collecting ref required (votes @ map cv_voteRef cvs)), w)"
  by (induction cvs arbitrary: votes) (simp_all add: collectVote_def Let_def gbind_def)

lemma proposer_run_append:
  "proposer_run X c ps send bp p (evs @ evs') ph w =
     gbind (proposer_run X c ps send bp p evs ph) (proposer_run X c ps send bp p evs') w"
  by (induction evs arbitrary: ph w) (simp_all add: gbind_def split: prod.splits res.splits)

text \<open>A block is committed on a single sufficient vote. Whatever votes arrive, the proposer commits
  when the first of them arrives whose own power reaches the threshold, with every vote received until
  then; votes below the threshold are listed in the block but never count towards it together.\<close>

theorem commit_on_single_vote:
  assumes weak: "\<forall>cv\<in>set pre. i32 (cv_power cv) < required"
  shows "proposer_run X c ps send bp p (map VoteConfirmed pre) (Collecting ref required []) w =
      (Ok (Collecting ref required (map cv_voteRef pre)), w) \<and>
    (required \<le> i32 (cv_power cv) \<longrightarrow>
      proposer_run X c ps send bp p (map VoteConfirmed (pre @ [cv])) (Collecting ref required []) w =
        gbind (commitBlock X c send ref (map cv_voteRef (pre @ [cv]))) (\<lambda>_. gret Idle) w)"
proof (intro conjI impI)
  show wait: "proposer_run X c ps send bp p (map VoteConfirmed pre) (Collecting ref required []) w =
      (Ok (Collecting ref required (map cv_voteRef pre)), w)"
    using weak_votes_wait [OF weak, of X c ps send bp p ref "[]" w] by simp
  assume "required \<le> i32 (cv_power cv)"
  then show "proposer_run X c ps send bp p (map VoteConfirmed (pre @ [cv])) (Collecting ref required []) w =
      gbind (commitBlock X c send ref (map cv_voteRef (pre @ [cv]))) (\<lambda>_. gret Idle) w"
    using wait by (simp add: proposer_run_append proposer_run_nil gbind_gret collectVote_def Let_def)
qed

text \<open>The vote that is counted may be for another block. The first readable vote message of a
  validator confirms the proposer's block with the validator's power, whatever header that vote names
  and whatever header was proposed; messages before it that are no votes or cannot be read are
  skipped. Only the subscription is given up.\<close>

theorem vote_counted_for_any_header:
  assumes skip: "\<forall>m\<in>set pre. nm_MessageType m \<noteq> VOTE"
    and vote: "nm_MessageType msg = VOTE"
      "GetBlockEncryptionConfigWithDigest (c_encStrat c) (GetObjectDigest (nm_InnerRef msg)) = Ok conf"
      "follow_vote X (ext w) (nm_InnerRef msg) (Some conf) (GetObjectDigest (nm_InnerRef msg)) = Inr vt"
  shows "\<exists>w'. waitForValidatorVote X c ref vw (pre @ msg # post) w =
      (Ok (Some \<lparr>cv_peer = vw_peer vw, cv_vote = vt, cv_voteRef = nm_InnerRef msg, cv_power = vw_power vw\<rparr>), w') \<and>
    w' = w\<lparr>peers := (peers w)(vw_peer vw := map_option (\<lambda>p. p\<lparr>p_msgSubs := (p_msgSubs p)(vw_sub vw := None)\<rparr>)
      (peers w (vw_peer vw)))\<rparr>"
proof -
  have "firstVote X c ref vw (msg # post) w =
      (Ok (Some \<lparr>cv_peer = vw_peer vw, cv_vote = vt, cv_voteRef = nm_InnerRef msg, cv_power = vw_power vw\<rparr>), w)"
    using vote by (simp add: Let_def gbind_def gtry_def)
  moreover have "firstVote X c ref vw (pre @ msg # post) w = firstVote X c ref vw (msg # post) w"
    using skip by (induction pre) simp_all
  ultimately have "firstVote X c ref vw (pre @ msg # post) w =
      (Ok (Some \<lparr>cv_peer = vw_peer vw, cv_vote = vt, cv_voteRef = nm_InnerRef msg, cv_power = vw_power vw\<rparr>), w)"
    by (simp only:)
  then show ?thesis by (simp add: waitForValidatorVote_def gbind_def UnsubscribeMessages_def)
qed

text \<open>A short reference in a vote stops the program. A vote message whose inner reference has a
  digest of fewer than 24 bytes makes the goroutine that waits for the validator's vote panic.\<close>

theorem short_vote_reference_panics:
  assumes "nm_MessageType msg = VOTE" "length (GetObjectDigest (nm_InnerRef msg)) < 24"
  shows "fst (waitForValidatorVote X c ref vw (msg # msgs) w) = Panic"
  using assms GetBlockEncryptionConfigWithDigest_Panic [of "c_encStrat c" "GetObjectDigest (nm_InnerRef msg)"]
  by (simp add: waitForValidatorVote_def gbind_def Let_def)

section \<open>Proposals only move forward\<close>

definition round_lt :: "round_info option \<Rightarrow> round_info \<Rightarrow> bool" where
  "round_lt prev r \<longleftrightarrow> (case prev of None \<Rightarrow> True | Some l \<Rightarrow>
     Height l < Height r \<or> Height l = Height r \<and> Round l < Round r)"

definition proposal_le :: "proposer_state \<Rightarrow> proposer_state \<Rightarrow> bool" where
  "proposal_le s s' \<longleftrightarrow> (\<forall>r. round_lt (ps_LastProposal s') r \<longrightarrow> round_lt (ps_LastProposal s) r)"

lemma shouldPropose_iff:
  "shouldPropose p st snap \<longleftrightarrow>
     (\<exists>v. sn_CurrentProposer snap = Some v \<and> val_PubKey v = pr_pubKeyBytes p) \<and> sn_RoundStarted snap \<and>
     round_lt (ps_LastProposal st) (sn_BlockRoundInfo snap)"
  by (auto simp: shouldPropose_def round_lt_def Let_def GetPubKey_def split: option.splits)

lemma round_lt_trans: "round_lt a b \<Longrightarrow> round_lt (Some b) c \<Longrightarrow> round_lt a c"
  by (auto simp: round_lt_def split: option.splits)

lemma proposal_le_refl: "proposal_le s s"
  by (simp add: proposal_le_def)

lemma proposal_le_trans: "proposal_le a b \<Longrightarrow> proposal_le b c \<Longrightarrow> proposal_le a c"
  by (simp add: proposal_le_def)

lemma recordProposal_state:
  assumes "recordProposal X p snap w = (r, w')"
  shows "\<exists>b. r = Ok b \<and> (b \<longrightarrow> shouldPropose p (pr_state w) snap) \<and>
    pr_state w' = (if shouldPropose p (pr_state w) snap then \<lparr>ps_LastProposal = Some (sn_BlockRoundInfo snap)\<rparr>
      else pr_state w) \<and> (\<not> shouldPropose p (pr_state w) snap \<longrightarrow> w' = w)"
proof (cases "shouldPropose p (pr_state w) snap")
  case False
  with assms show ?thesis by (auto simp: recordProposal_def gbind_def)
next
  case True
  let ?st = "\<lparr>ps_LastProposal = Some (sn_BlockRoundInfo snap)\<rparr>"
  obtain r1 w1 where wr: "write_slot X (pb_proposer_state X) (pr_dbm p) ''/state'' ?st (w\<lparr>pr_state := ?st\<rparr>) = (r1, w1)"
    by force
  then obtain e' where "w1 = w\<lparr>pr_state := ?st, ext := e'\<rparr>" by (rule write_slot_frame)
  moreover have "r1 \<noteq> Panic" using wr by auto
  ultimately show ?thesis using assms True wr
    by (cases r1) (auto simp: recordProposal_def Proposer_writeState_def gbind_def gtry_def)
qed

lemma recordProposal_le:
  assumes "recordProposal X p snap w = (r, w')"
  shows "proposal_le (pr_state w) (pr_state w')"
  using recordProposal_state [OF assms]
  by (auto simp: proposal_le_def shouldPropose_iff split: if_splits intro: round_lt_trans)

text \<open>What the proposer relies on of the node: sending a message does not touch the proposer's state.\<close>

locale quiet_sender =
  fixes send :: "('e, 'z) proposer_world_scheme sender"
  assumes send_frame: "keeps (\<lambda>w. pr_state w = s) (send t a r)"
begin

lemma keeps_makeProposal: "keeps (\<lambda>w. pr_state w = s) (makeProposal X c bp p ts snap)"
  unfolding makeProposal_def by (intro keeps_intros) simp_all

lemma keeps_waitForVotes: "keeps (\<lambda>w. pr_state w = s) (waitForVotes X ps vs)"
proof (induction vs)
  case (Cons v vs)
  have sub: "keeps (\<lambda>w. pr_state w = s) (SubscribeMessages pr)" for pr
    by (rule keepsI) (simp add: SubscribeMessages_def Let_def split: option.splits)
  have get: "keeps (\<lambda>w. pr_state w = s) (GetPeerWithPubKey X ps k)" for k
    unfolding GetPeerWithPubKey_def GetPeer_def Let_def by (intro keeps_intros) simp
  show ?case
    by (simp, intro conjI impI) (intro keeps_intros sub get Cons)+
qed (simp add: keeps_def)

lemma keeps_startCollecting: "keeps (\<lambda>w. pr_state w = s) (startCollecting X c ps send p snap ref)"
  unfolding startCollecting_def Proposer_makeVote_def Let_def
  by (intro keeps_intros keeps_waitForVotes send_frame) simp

lemma keeps_collectVote: "keeps (\<lambda>w. pr_state w = s) (collectVote X c send ref req votes cv)"
  unfolding collectVote_def commitBlock_def Let_def by (intro keeps_intros send_frame) simp

lemma handleState_after:
  assumes "handleState X c ps send bp p snap ts w = (r, w')"
  shows "pr_state w' = (if shouldPropose p (pr_state w) snap
    then \<lparr>ps_LastProposal = Some (sn_BlockRoundInfo snap)\<rparr> else pr_state w)"
proof -
  obtain r1 w1 where rec: "recordProposal X p snap w = (r1, w1)" by force
  let ?rest = "\<lambda>ok. if \<not> ok then gret Idle else
     gbind (gtry (makeProposal X c bp p ts snap)) (\<lambda>r.
     let blockHeaderRef = (case r of Inl _ \<Rightarrow> None | Inr (ref, _) \<Rightarrow> ref) in
     if blockHeaderRef = None then gret Idle else startCollecting X c ps send p snap blockHeaderRef)"
  have "keeps (\<lambda>w. pr_state w = pr_state w1) (?rest ok)" for ok
    unfolding Let_def by (intro keeps_intros keeps_makeProposal keeps_startCollecting)
  moreover obtain ok where "r1 = Ok ok" using recordProposal_state [OF rec] by blast
  ultimately have "pr_state w' = pr_state w1"
    using assms rec keepsD [of "\<lambda>w. pr_state w = pr_state w1" "?rest ok" w1 r w']
    by (simp add: handleState_def gbind_def)
  with recordProposal_state [OF rec] show ?thesis by auto
qed

lemma step_le:
  assumes "ManageProposer_step X c ps send bp p ev ph w = (r, w')"
  shows "proposal_le (pr_state w) (pr_state w')"
proof -
  have keep: "pr_state w' = pr_state w" if "keeps (\<lambda>v. pr_state v = pr_state w) m" "m w = (r, w')" for m :: "(_, proposer_phase) go"
    using keepsD [OF that] by simp
  show ?thesis
  proof (cases "(X, c, ps, send, bp, p, ev, ph)" rule: ManageProposer_step.cases)
    case (1 X' c' ps' send' bp' p' snap ts)
    then have "pr_state w' = (if shouldPropose p (pr_state w) snap
        then \<lparr>ps_LastProposal = Some (sn_BlockRoundInfo snap)\<rparr> else pr_state w)"
      using assms by (intro handleState_after) simp
    then show ?thesis
      by (auto simp: proposal_le_def shouldPropose_iff split: if_splits intro: round_lt_trans)
  next
    case (3 X' c' ps' send' bp' p' cv ref required votes)
    with assms keep [OF keeps_collectVote, of X c ref required votes cv] show ?thesis
      by (simp add: proposal_le_refl)
  qed (use assms in \<open>auto simp: proposal_le_refl\<close>)
qed

lemma run_le:
  "proposer_run X c ps send bp p evs ph w = (r, w') \<Longrightarrow> proposal_le (pr_state w) (pr_state w')"
proof (induction evs arbitrary: ph w)
  case (Cons ev evs)
  obtain r1 w1 where st: "ManageProposer_step X c ps send bp p ev ph w = (r1, w1)" by force
  show ?case
  proof (cases r1)
    case (Ok ph1)
    with Cons.prems st have "proposer_run X c ps send bp p evs ph1 w1 = (r, w')" by (simp add: gbind_def)
    from proposal_le_trans [OF step_le [OF st] Cons.IH [OF this]] show ?thesis .
  qed (use Cons.prems st step_le [OF st] in \<open>simp_all add: gbind_def\<close>)
qed (simp add: proposal_le_refl)

lemma no_second_proposal:
  assumes first: "shouldPropose p (pr_state w) s1" "handleState X c ps send bp p s1 t1 w = (Ok ph, w1)"
    and run: "proposer_run X c ps send bp p evs ph w1 = (r, w2)"
    and later: "\<not> round_lt (Some (sn_BlockRoundInfo s1)) (sn_BlockRoundInfo s2)"
  shows "handleState X c ps send bp p s2 t2 w2 = (Ok Idle, w2)"
proof -
  have "ps_LastProposal (pr_state w1) = Some (sn_BlockRoundInfo s1)"
    using handleState_after [OF first(2)] first(1) by simp
  with run_le [OF run] later have "\<not> shouldPropose p (pr_state w2) s2"
    by (auto simp: proposal_le_def shouldPropose_iff)
  then show ?thesis by (simp add: handleState_def recordProposal_def gbind_def)
qed

end

section \<open>Restarts\<close>

interpretation proposer_slot: persisted
  "\<lambda>(X, p). db_ok X \<and> codec_ok (pb_proposer_state X)"
  "\<lambda>(X, p) st. gbind (gmodify (\<lambda>w. w\<lparr>pr_state := st\<rparr>)) (\<lambda>_. Proposer_writeState X p)"
  "\<lambda>(X, p) st. read_slot X (pb_proposer_state X) (pr_dbm p) ''/state'' st"
proof (unfold_locales, goal_cases)
  case (1 p x s s' y)
  then show ?case
    by (auto simp: Proposer_writeState_def gbind_def intro!: read_after_write split: prod.splits)
qed (simp split: prod.splits)

lemma NewProposer_fields:
  assumes "NewProposer X k dbm b w = (Ok p, w')"
  obtains pid pb where "id_from_priv X k = Inr pid" "pub_bytes X (priv_public X k) = Inr pb"
    "p = \<lparr>pr_dbm = WithPrefix dbm (''/proposer/'' @ pretty_id X pid), pr_privKey = k, pr_validatorID = pid,
      pr_pubKeyBytes = pb\<rparr>"
  using assms by (auto simp: NewProposer_def Let_def gbind_Ok_iff split: if_splits)

lemma Proposer_writeState_frame:
  assumes "Proposer_writeState X p w = (r, w')"
  shows "pr_state w' = pr_state w"
proof -
  have "keeps (\<lambda>v. pr_state v = pr_state w) (Proposer_writeState X p)"
    unfolding Proposer_writeState_def by (intro keeps_intros) simp
  from keepsD [OF this assms] show ?thesis by simp
qed

lemma NewProposer_state:
  assumes run: "NewProposer X k dbm b w = (Ok p, w')"
    and rd: "\<And>st. fst (read_slot X (pb_proposer_state X) (pr_dbm p) ''/state'' st w) = Ok x"
  shows "pr_state w' = x"
proof -
  let ?w = "w\<lparr>pr_state := \<lparr>ps_LastProposal = None\<rparr>\<rparr>"
  have "Proposer_readState X p ?w = (Ok (), ?w\<lparr>pr_state := x\<rparr>)"
    using rd [of "\<lparr>ps_LastProposal = None\<rparr>"] read_slot_ext [of ?w w X "pb_proposer_state X"]
    by (simp add: Proposer_readState_def gbind_Ok_iff read_slot_eq)
  with run show ?thesis
    by (auto simp: NewProposer_def Let_def gbind_Ok_iff split: if_splits dest!: Proposer_writeState_frame)
qed

text \<open>C22: a restart does not forget a proposal. As soon as a round has been recorded, a proposer built
  again for the same key over the same database starts from that round, so that it refuses every
  snapshot of that round or an earlier one.\<close>

theorem proposal_survives_restart:
  assumes ok: "db_ok X" "codec_ok (pb_proposer_state X)"
    and p: "NewProposer X k dbm b w0 = (Ok p, w1)"
    and rec: "recordProposal X p snap w = (Ok True, w')"
    and restart: "NewProposer X k dbm b' v = (Ok p', v')" and db: "ext v = ext w'"
  shows "p' = p \<and> ps_LastProposal (pr_state v') = Some (sn_BlockRoundInfo snap) \<and>
    (\<forall>snap2. \<not> round_lt (Some (sn_BlockRoundInfo snap)) (sn_BlockRoundInfo snap2) \<longrightarrow>
       \<not> shouldPropose p' (pr_state v') snap2)"
proof -
  let ?st = "\<lparr>ps_LastProposal = Some (sn_BlockRoundInfo snap)\<rparr>"
  have same: "p' = p" using p restart by (auto elim!: NewProposer_fields)
  have wr: "gbind (gmodify (\<lambda>w. w\<lparr>pr_state := ?st\<rparr>)) (\<lambda>_. Proposer_writeState X p) w = (Ok (), w')"
    using rec by (auto simp: recordProposal_def gbind_Ok_iff gtry_Ok_iff split: if_splits)
  have "fst (read_slot X (pb_proposer_state X) (pr_dbm p) ''/state'' st v) = Ok ?st" for st
    using proposer_slot.rd_after_wr [of "(X, p)" ?st w w' st] ok wr
      read_slot_ext [OF db, of X "pb_proposer_state X" "pr_dbm p" "''/state''" st] by simp
  then have "pr_state v' = ?st" using NewProposer_state [OF restart] same by blast
  with same show ?thesis by (auto simp: shouldPropose_iff)
qed

section \<open>An honest proposal\<close>

text \<open>What a state check publishes right after it has adopted a head block.\<close>

lemma adopted_snapshot:
  assumes run: "gbind (setHeadBlock X c b) (\<lambda>_. computeEmitSnapshot X c now now2) w = (Ok (), w1)"
    and snap: "lastStateSnapshot w1 = Some snap" "lastStateSnapshot w \<noteq> Some snap"
  obtains cc vs where "block_time X b \<le> now"
    "chain_config_of X (ext w1) (c_encStrat c) (hdr_NextChainConfigRef (b_header b)) = Some cc"
    "validator_set_of X (ext w1) (c_encStrat c) (cc_ValidatorSetRef cc) = Some vs"
    "sn_LastBlockHeader snap = Some (b_header b)" "sn_LastBlockRef snap = b_blkRef b"
    "Height (sn_BlockRoundInfo snap) = block_height b + 1"
    "sn_CurrentProposer snap = fst (select_proposer X (sort_validators X vs) (GetObjectDigest (b_blkRef b))
       (Height (sn_BlockRoundInfo snap)) (Round (sn_BlockRoundInfo snap)))"
proof -
  from run obtain w2 where set: "setHeadBlock X c b w = (Ok (), w2)"
    and comp: "computeEmitSnapshot X c now now2 w2 = (Ok (), w1)" by (auto simp: gbind_Ok_iff)
  from set obtain w3 where wr: "Chain_writeState X c w3 = (Ok (), w2)"
    and w3: "lastBlockHeader w3 = Some (b_header b)" "lastBlockRef w3 = b_blkRef b"
      "lastHeadDigest w3 = GetObjectDigest (b_blkRef b)" "lastStateSnapshot w3 = lastStateSnapshot w"
      "cs_LastHeight (ch_state w3) = block_height b + 1"
    by (auto simp: setHeadBlock_def gbind_Ok_iff block_height_def)
  have k: "keeps (\<lambda>v. (lastBlockHeader v, lastBlockRef v, lastHeadDigest v, lastStateSnapshot v, ch_state v) = k)
      (Chain_writeState X c)" for k by (rule Chain_writeState_keeps) auto
  note w2 = keepsD [OF k wr refl, unfolded prod.inject w3]
  have hd: "lastBlockHeader w2 = Some (b_header b)" using w2 by simp
  obtain cc rnd w4 where cc: "chain_config_of X (ext w2) (c_encStrat c) (hdr_NextChainConfigRef (b_header b)) = Some cc"
    and time: "ts_to_time X (hdr_BlockTs (b_header b)) \<le> now"
    and w4: "w4 = w2\<lparr>ch_state := (at_height (b_header b) (ch_state w2))\<lparr>cs_LastRound := rnd\<rparr>\<rparr>"
    and emit: "emitRound X c (b_header b) cc (round_duration cc) rnd now2 w4 = (Ok (), w1)"
    using computeEmitSnapshot_Ok [OF comp hd] by metis
  have height: "cs_LastHeight (at_height (b_header b) (ch_state w2)) = block_height b + 1"
    using w2 w3(5) by (simp add: at_height_LastHeight block_height_def)
  have e: "ext w1 = ext w2" using keepsD [OF compute_keeps_head comp refl] by (simp add: head_view_def)
  from emit obtain vs where vs: "validator_set_of X (ext w4) (c_encStrat c) (cc_ValidatorSetRef cc) = Some vs"
    and "if lastStateSnapshot w4 = None \<or>
        snapshot_changed (the (lastStateSnapshot w4)) (currentSnapshot X (b_header b) cc (round_duration cc) rnd now2 vs w4)
     then emitNextChainState (currentSnapshot X (b_header b) cc (round_duration cc) rnd now2 vs w4) w4 = (Ok (), w1)
     else w1 = w4"
    by (rule emitRound_Ok)
  moreover have "lastStateSnapshot w4 \<noteq> lastStateSnapshot w1" using snap w2 w4 by simp
  ultimately have "emitNextChainState (currentSnapshot X (b_header b) cc (round_duration cc) rnd now2 vs w4) w4 = (Ok (), w1)"
    by (auto split: if_splits)
  from emitted_snapshot [OF this] snap(1) obtain n where
    s: "snap = (currentSnapshot X (b_header b) cc (round_duration cc) rnd now2 vs w4)\<lparr>sn_Context := n\<rparr>" by auto
  show thesis
    by (rule that [of cc vs])
       (use cc vs time e w2 w4 height in \<open>simp_all add: s currentSnapshot_def Let_def split_def block_time_def\<close>)
qed


text \<open>
  The order of the validator set matters: the check selects the proposer from the sorted set, \<open>ValidateChild\<close> from the stored
  one. When they select validators of different names, the proposal of the validator that the snapshot names is refused.
\<close>

theorem unsorted_set_refuses_proposal:
  assumes adopt: "gbind (setHeadBlock X c b) (\<lambda>_. computeEmitSnapshot X c now now2) w = (Ok (), w1)"
    and snap: "lastStateSnapshot w1 = Some snap" "lastStateSnapshot w \<noteq> Some snap"
    and run: "makeProposal X c bp p ts snap w2 = (Ok (ref, Some hdr), w3)"
    and head: "b_encStrat b = c_encStrat c" "hdr_NextChainConfigRef (b_header b) = hdr_ChainConfigRef (b_header b)"
    and other: "\<And>cc vs v. chain_config_of X (ext w1) (c_encStrat c) (hdr_ChainConfigRef (b_header b)) = Some cc \<Longrightarrow>
      validator_set_of X (ext w1) (c_encStrat c) (cc_ValidatorSetRef cc) = Some vs \<Longrightarrow>
      fst (select_proposer X vs (GetObjectDigest (b_blkRef b)) (Height (sn_BlockRoundInfo snap)) (Round (sn_BlockRoundInfo snap))) =
        Some v \<Longrightarrow> proposer_name X v \<noteq> Some (pretty_id X (pr_validatorID p))"
    and child: "b_header child = hdr"
  shows "ValidateChild X b child bv w1 \<noteq> (Ok m, w1)"
proof -
  obtain cc vs where cfg: "chain_config_of X (ext w1) (c_encStrat c) (hdr_NextChainConfigRef (b_header b)) = Some cc"
      "validator_set_of X (ext w1) (c_encStrat c) (cc_ValidatorSetRef cc) = Some vs"
    using adopt snap by (rule adopted_snapshot)
  from run obtain sr where hdr: "hdr = proposal_header X c p ts snap sr"
    by (auto simp: makeProposal_def Let_def gbind_Ok_iff split: option.splits if_splits)
  have "expected_proposer X (ext w1) b (Height (sn_BlockRoundInfo snap)) (Round (sn_BlockRoundInfo snap)) \<noteq>
      Some (pretty_id X (pr_validatorID p))"
    using cfg head other by (auto simp: expected_proposer_Some)
  then have "\<not> valid_child X (ext w1) b child"
    using child by (simp add: valid_child_def hdr proposal_header_def block_height_def Let_def)
  then show ?thesis by (simp add: validate_child_rule)
qed

end
