(* ===== verification/ValidatorActor.thy ===== *)
theory ValidatorActor
  imports Proposer
begin

text \<open>
  \<^verbatim>\<open>chain/validator.go\<close>: the actor that waits for the proposer's vote in each round and votes for the
  proposed block header. Its persisted state, the last height and round it took part in, is the field
  \<open>va_state\<close> of the world. What a subscription to a peer delivers before the round's context ends is an argument of
  the operations that wait for it, a function of the peer and of the identifier of the subscription.
\<close>

section \<open>State\<close>

record validator_actor =
  va_dbm :: db_view
  va_privKey :: priv_key
  va_pubKeyBytes :: bytes

record 'e validator_world = "'e proposer_world" +
  va_state :: validator_state

definition Validator_readState ::
  "('e, 'x) externals_scheme \<Rightarrow> validator_actor \<Rightarrow> (('e, 'z) validator_world_scheme, unit) go" where
  "Validator_readState X p =
     gbind (gasks va_state) (\<lambda>st.
     gbind (read_slot X (pb_validator_state X) (va_dbm p) ''/state'' st) (\<lambda>st'.
     gmodify (\<lambda>w. w\<lparr>va_state := st'\<rparr>)))"

definition Validator_writeState ::
  "('e, 'x) externals_scheme \<Rightarrow> validator_actor \<Rightarrow> (('e, 'z) validator_world_scheme, unit) go" where
  "Validator_writeState X p =
     gbind (gasks va_state) (\<lambda>st. write_slot X (pb_validator_state X) (va_dbm p) ''/state'' st)"

definition NewValidator ::
  "('e, 'x) externals_scheme \<Rightarrow> priv_key \<Rightarrow> db_view \<Rightarrow> bool \<Rightarrow>
     (('e, 'z) validator_world_scheme, validator_actor) go" where
  "NewValidator X privKey dbm hasObjStore =
     gbind (gres (res_of (id_from_priv X privKey))) (\<lambda>pid.
     gbind (gres (res_of (pub_bytes X (priv_public X privKey)))) (\<lambda>pubKeyBytes.
     let p = \<lparr>va_dbm = WithPrefix dbm (''/validator/'' @ pretty_id X pid), va_privKey = privKey,
           va_pubKeyBytes = pubKeyBytes\<rparr> in
     gbind (gmodify (\<lambda>w. w\<lparr>va_state := \<lparr>vs_LastVote = None\<rparr>\<rparr>)) (\<lambda>_.
     gbind (Validator_readState X p) (\<lambda>_.
     gbind (Validator_writeState X p) (\<lambda>_.
     if \<not> hasObjStore then gfail (Errorf ''object store must be specified in ctx'')
     else gret p)))))"

section \<open>Voting\<close>

text \<open>The messages that a subscription of a peer delivers, in order.\<close>

type_synonym deliveries = "peer_id \<Rightarrow> u32 \<Rightarrow> node_message list"

text \<open>The loop of \<open>makeVote\<close>; \<open>None\<close> when the context ends first.\<close>

fun awaitProposal ::
  "('e, 'x) externals_scheme \<Rightarrow> chain \<Rightarrow> snapshot \<Rightarrow> node_message list \<Rightarrow>
     (('e, 'z) validator_world_scheme, sref option) go" where
  "awaitProposal X c snap [] = gret None"
| "awaitProposal X c snap (peerMsg # msgs) =
     (if nm_MessageType peerMsg \<noteq> VOTE then awaitProposal X c snap msgs
      else
      let voteRef = nm_InnerRef peerMsg in
      gbind (gres (GetBlockEncryptionConfigWithDigest (c_encStrat c) (GetObjectDigest voteRef))) (\<lambda>encConf.
      gbind (gext (\<lambda>e. follow_vote X e voteRef (Some encConf) [])) (\<lambda>vt.
      let blockHeaderRef = vote_BlockHeaderRef vt in
      gbind (gres (GetBlockEncryptionConfigWithDigest (c_encStrat c) (GetObjectDigest blockHeaderRef))) (\<lambda>encConf2.
      gbind (gext (\<lambda>e. follow_header X e blockHeaderRef (Some encConf2) [])) (\<lambda>blockHeader.
      if GetHeight (hdr_RoundInfo blockHeader) \<noteq> Height (sn_BlockRoundInfo snap) \<or>
         GetRound (hdr_RoundInfo blockHeader) \<noteq> Round (sn_BlockRoundInfo snap)
      then awaitProposal X c snap msgs
      else if \<not> ref_equals X (hdr_LastBlockRef blockHeader) (sn_LastBlockRef snap)
      then awaitProposal X c snap msgs
      else gret (Some blockHeaderRef))))))"

text \<open>The subscription is cancelled by a deferred call, after the vote has been sent.\<close>

definition Validator_makeVote ::
  "('e, 'x) externals_scheme \<Rightarrow> chain \<Rightarrow> peer_store \<Rightarrow> ('e, 'z) validator_world_scheme sender \<Rightarrow>
     validator_actor \<Rightarrow> deliveries \<Rightarrow> snapshot \<Rightarrow> validator \<Rightarrow>
     (('e, 'z) validator_world_scheme, sref option) go" where
  "Validator_makeVote X c ps send p recv snap currentProposer =
     gbind (gres (res_of (parse_peer_id X currentProposer))) (\<lambda>(_, pubKey).
     gbind (GetPeerWithPubKey X ps pubKey) (\<lambda>proposerPeer.
     gbind (SubscribeMessages proposerPeer) (\<lambda>sub.
     gbind (gtry
       (gbind (awaitProposal X c snap (recv proposerPeer sub)) (\<lambda>found.
        case found of
          None \<Rightarrow> gret None
        | Some blockHeaderRef \<Rightarrow>
            gbind (gcall (\<lambda>e. store_vote X e \<lparr>vote_BlockHeaderRef = blockHeaderRef\<rparr>
                     (GetNodeMessageEncryptionConfig X (c_encStrat c) (va_privKey p)))) (\<lambda>voteStorageRef.
            gbind (send VOTE 0 voteStorageRef) (\<lambda>_.
            gret (Some voteStorageRef)))))) (\<lambda>r.
     gbind (UnsubscribeMessages proposerPeer sub) (\<lambda>_.
     gres (res_of r))))))"

section \<open>Snapshots\<close>

definition shouldVote :: "validator_state \<Rightarrow> time \<Rightarrow> snapshot \<Rightarrow> bool" where
  "shouldVote st now nextState =
     (let lastHeight = GetHeight (vs_LastVote st);
          currHeight = Height (sn_BlockRoundInfo nextState);
          lastRound = GetRound (vs_LastVote st);
          currRound = Round (sn_BlockRoundInfo nextState) in
      if sn_CurrentProposer nextState = None then False
      else if sn_RoundStartTime nextState > now then False
      else if vs_LastVote st \<noteq> None \<and> lastHeight > currHeight then False
      else if vs_LastVote st \<noteq> None \<and> lastRound \<ge> currRound then False
      else True)"

definition processStateSnapshot ::
  "('e, 'x) externals_scheme \<Rightarrow> chain \<Rightarrow> peer_store \<Rightarrow> ('e, 'z) validator_world_scheme sender \<Rightarrow>
     validator_actor \<Rightarrow> time \<Rightarrow> deliveries \<Rightarrow> snapshot \<Rightarrow> (('e, 'z) validator_world_scheme, unit) go" where
  "processStateSnapshot X c ps send p now recv nextState =
     gbind (gasks (\<lambda>w. shouldVote (va_state w) now nextState)) (\<lambda>ok.
     case sn_CurrentProposer nextState of
       None \<Rightarrow> gret ()
     | Some currentProposer \<Rightarrow>
     if \<not> ok then gret ()
     else
     gbind (gmodify (\<lambda>w. w\<lparr>va_state := \<lparr>vs_LastVote = Some (sn_BlockRoundInfo nextState)\<rparr>\<rparr>)) (\<lambda>_.
     gbind (gtry (Validator_writeState X p)) (\<lambda>r.
     case r of Inl _ \<Rightarrow> gret () | Inr _ \<Rightarrow>
     case parse_public_key X currentProposer of Inl _ \<Rightarrow> gret () | Inr proposerPubKey \<Rightarrow>
     if pub_equals X proposerPubKey (priv_public X (va_privKey p)) then gret ()
     else if \<exists>v\<in>set (Validators (sn_ValidatorSet nextState)). va_pubKeyBytes p = val_PubKey v then
       gbind (Validator_makeVote X c ps send p recv nextState currentProposer) (\<lambda>_. gret ())
     else gret ())))"

text \<open>The loop of \<open>ManageValidator\<close> logs an error and goes on with the next snapshot.\<close>

fun ManageValidator ::
  "('e, 'x) externals_scheme \<Rightarrow> chain \<Rightarrow> peer_store \<Rightarrow> ('e, 'z) validator_world_scheme sender \<Rightarrow>
     validator_actor \<Rightarrow> (time \<times> deliveries \<times> snapshot) list \<Rightarrow> (('e, 'z) validator_world_scheme, unit) go" where
  "ManageValidator X c ps send p [] = gret ()"
| "ManageValidator X c ps send p ((now, recv, nextState) # evs) =
     gbind (gtry (processStateSnapshot X c ps send p now recv nextState)) (\<lambda>_.
     ManageValidator X c ps send p evs)"

section \<open>What a vote is for\<close>

lemma awaitProposal_pure: "keeps P (awaitProposal X c snap msgs)"
proof (induction msgs)
  case (Cons m ms)
  show ?case
    by (simp only: awaitProposal.simps Let_def) (intro keeps_intros Cons)
qed (simp add: keeps_def)

definition matching_proposal ::
  "('e, 'x) externals_scheme \<Rightarrow> chain \<Rightarrow> 'e \<Rightarrow> snapshot \<Rightarrow> node_message \<Rightarrow> sref \<Rightarrow> bool" where
  "matching_proposal X c e snap msg ref \<longleftrightarrow>
     nm_MessageType msg = VOTE \<and>
     (\<exists>conf vt conf2 hdr.
        follow_vote X e (nm_InnerRef msg) (Some conf) [] = Inr vt \<and> vote_BlockHeaderRef vt = ref \<and>
        follow_header X e ref (Some conf2) [] = Inr hdr \<and>
        GetHeight (hdr_RoundInfo hdr) = Height (sn_BlockRoundInfo snap) \<and>
        GetRound (hdr_RoundInfo hdr) = Round (sn_BlockRoundInfo snap) \<and>
        ref_equals X (hdr_LastBlockRef hdr) (sn_LastBlockRef snap))"

lemma awaitProposal_matching:
  "awaitProposal X c snap msgs w = (Ok (Some ref), w') \<Longrightarrow> \<exists>msg\<in>set msgs. matching_proposal X c (ext w) snap msg ref"
proof (induction msgs)
  case (Cons m ms)
  show ?case
  proof (cases "awaitProposal X c snap ms w = (Ok (Some ref), w')")
    case True
    with Cons.IH show ?thesis by auto
  next
    case False
    with Cons.prems have "matching_proposal X c (ext w) snap m ref"
      by (fastforce simp: matching_proposal_def Let_def gbind_Ok_iff split: if_splits)
    then show ?thesis by auto
  qed
qed simp

lemma GetPeerWithPubKey_ext: "GetPeerWithPubKey X ps k w = (r, w') \<Longrightarrow> ext w' = ext w"
proof -
  assume run: "GetPeerWithPubKey X ps k w = (r, w')"
  have "keeps (\<lambda>v. ext v = ext w) (GetPeerWithPubKey X ps k)"
    unfolding GetPeerWithPubKey_def GetPeer_def Let_def by (intro keeps_intros) simp
  from keepsD [OF this run] show ?thesis by simp
qed

text \<open>C20: a validator votes only for what the round's proposer announced for this round. When it has
  cast a vote, it had opened a new subscription to the peer whose identifier is that of the proposer's public key, one of the
  messages that this subscription delivered was a readable vote for that very header,
  whose height and round are the snapshot's and which extends the snapshot's last block; and the vote it
  stored is for that header.\<close>

theorem vote_matches_snapshot:
  assumes "Validator_makeVote X c ps send p recv snap v w = (Ok (Some voteRef), w')"
  shows "\<exists>i key pid w1 sub w2 q msg ref e e'. parse_peer_id X v = Inr (i, key) \<and> pid = fst (id_from_pub X key) \<and>
    GetPeerWithPubKey X ps key w = (Ok pid, w1) \<and> SubscribeMessages pid w1 = (Ok sub, w2) \<and>
    peers w2 pid = Some q \<and> p_msgSubs q sub = Some [] \<and>
    msg \<in> set (recv pid sub) \<and> matching_proposal X c (ext w) snap msg ref \<and>
    store_vote X e \<lparr>vote_BlockHeaderRef = ref\<rparr>
      (GetNodeMessageEncryptionConfig X (c_encStrat c) (va_privKey p)) = (Inr voteRef, e')"
proof -
  from assms obtain i k pid w1 sub w2 ref w3 e' where key: "parse_peer_id X v = Inr (i, k)" and
    get: "GetPeerWithPubKey X ps k w = (Ok pid, w1)" and sub: "SubscribeMessages pid w1 = (Ok sub, w2)"
    and wait: "awaitProposal X c snap (recv pid sub) w2 = (Ok (Some ref), w3)"
    and st: "store_vote X (ext w3) \<lparr>vote_BlockHeaderRef = ref\<rparr>
      (GetNodeMessageEncryptionConfig X (c_encStrat c) (va_privKey p)) = (Inr voteRef, e')"
    by (fastforce simp: Validator_makeVote_def gbind_Ok_iff gtry_Ok_iff gcall_Ok split: option.splits)
  have pid: "pid = fst (id_from_pub X k)"
    using get by (auto simp: GetPeerWithPubKey_def GetPeer_def gbind_Ok_iff Let_def split: option.splits)
  from sub obtain q where q: "peers w2 pid = Some q" "p_msgSubs q sub = Some []" and "ext w2 = ext w1"
    by (auto simp: SubscribeMessages_def Let_def split: option.splits)
  with GetPeerWithPubKey_ext [OF get] awaitProposal_matching [OF wait] obtain msg where
    "msg \<in> set (recv pid sub)" "matching_proposal X c (ext w) snap msg ref" by auto
  with key pid get sub q st show ?thesis by blast
qed

section \<open>One vote per round\<close>

definition vote_le :: "validator_state \<Rightarrow> validator_state \<Rightarrow> bool" where
  "vote_le s s' \<longleftrightarrow> (\<forall>now snap. shouldVote s' now snap \<longrightarrow> shouldVote s now snap)"

lemma shouldVote_iff:
  "shouldVote st now snap \<longleftrightarrow> sn_CurrentProposer snap \<noteq> None \<and> sn_RoundStartTime snap \<le> now \<and>
     (\<forall>l. vs_LastVote st = Some l \<longrightarrow> Height l \<le> Height (sn_BlockRoundInfo snap) \<and>
        Round l < Round (sn_BlockRoundInfo snap))"
  by (auto simp: shouldVote_def Let_def not_less not_le)

lemma vote_le_refl: "vote_le s s"
  by (simp add: vote_le_def)

lemma vote_le_trans: "vote_le a b \<Longrightarrow> vote_le b c \<Longrightarrow> vote_le a c"
  by (simp add: vote_le_def)

lemma vote_le_next: "shouldVote s now snap \<Longrightarrow> vote_le s \<lparr>vs_LastVote = Some (sn_BlockRoundInfo snap)\<rparr>"
  by (auto simp: vote_le_def shouldVote_iff intro: order_trans dest: less_trans)

locale quiet_vote_sender =
  fixes send :: "('e, 'z) validator_world_scheme sender"
  assumes vote_send_frame: "keeps (\<lambda>w. va_state w = s) (send t a r)"
begin

lemma keeps_makeVote: "keeps (\<lambda>w. va_state w = s) (Validator_makeVote X c ps send p recv snap v)"
proof -
  have sub: "keeps (\<lambda>w. va_state w = s) (SubscribeMessages pr)" for pr
    by (rule keepsI) (simp add: SubscribeMessages_def Let_def split: option.splits)
  have get: "keeps (\<lambda>w. va_state w = s) (GetPeerWithPubKey X ps k)" for k
    unfolding GetPeerWithPubKey_def GetPeer_def Let_def by (intro keeps_intros) simp
  show ?thesis
    unfolding Validator_makeVote_def UnsubscribeMessages_def
    by (intro keeps_intros sub get awaitProposal_pure vote_send_frame) simp_all
qed

lemma snapshot_after:
  assumes "processStateSnapshot X c ps send p now recv snap w = (r, w')"
  shows "va_state w' = (if shouldVote (va_state w) now snap
      then \<lparr>vs_LastVote = Some (sn_BlockRoundInfo snap)\<rparr> else va_state w) \<and>
    (\<not> shouldVote (va_state w) now snap \<longrightarrow> (r, w') = (Ok (), w))"
proof (cases "shouldVote (va_state w) now snap")
  case False
  with assms show ?thesis by (auto simp: processStateSnapshot_def gbind_def split: option.splits)
next
  case True
  then obtain v where v: "sn_CurrentProposer snap = Some v" by (auto simp: shouldVote_iff)
  let ?st = "\<lparr>vs_LastVote = Some (sn_BlockRoundInfo snap)\<rparr>"
  let ?rest = "gbind (gtry (Validator_writeState X p)) (\<lambda>r.
     case r of Inl _ \<Rightarrow> gret () | Inr _ \<Rightarrow>
     case parse_public_key X v of Inl _ \<Rightarrow> gret () | Inr proposerPubKey \<Rightarrow>
     if pub_equals X proposerPubKey (priv_public X (va_privKey p)) then gret ()
     else if \<exists>u\<in>set (Validators (sn_ValidatorSet snap)). va_pubKeyBytes p = val_PubKey u then
       gbind (Validator_makeVote X c ps send p recv snap v) (\<lambda>_. gret ())
     else gret ())"
  have "keeps (\<lambda>w. va_state w = ?st) ?rest"
    unfolding Validator_writeState_def by (intro keeps_intros keeps_makeVote) simp
  moreover have "?rest (w\<lparr>va_state := ?st\<rparr>) = (r, w')"
    using assms True v by (simp add: processStateSnapshot_def gbind_def)
  ultimately show ?thesis using True by (auto dest: keepsD)
qed

lemma snapshot_le:
  assumes "processStateSnapshot X c ps send p now recv snap w = (r, w')"
  shows "vote_le (va_state w) (va_state w')"
  using snapshot_after [OF assms] vote_le_next vote_le_refl by metis

lemma ManageValidator_le:
  "ManageValidator X c ps send p evs w = (r, w') \<Longrightarrow> vote_le (va_state w) (va_state w')"
proof (induction evs arbitrary: w)
  case (Cons ev evs)
  obtain now recv snap where ev: "ev = (now, recv, snap)" by (cases ev)
  obtain r1 w1 where st: "processStateSnapshot X c ps send p now recv snap w = (r1, w1)" by force
  have le: "vote_le (va_state w) (va_state w1)" by (rule snapshot_le [OF st])
  show ?case
  proof (cases "r1 = Panic")
    case True
    with Cons.prems st le show ?thesis by (simp add: ev gbind_def gtry_def)
  next
    case False
    with Cons.prems st have "ManageValidator X c ps send p evs w1 = (r, w')"
      by (cases r1) (simp_all add: ev gbind_def gtry_def)
    from vote_le_trans [OF le Cons.IH [OF this]] show ?thesis .
  qed
qed (simp add: vote_le_refl)

lemma no_second_vote:
  assumes first: "shouldVote (va_state w) t1 s1" "processStateSnapshot X c ps send p t1 m1 s1 w = (r1, w1)"
    and run: "ManageValidator X c ps send p evs w1 = (r, w2)"
    and later: "\<not> (Height (sn_BlockRoundInfo s1) \<le> Height (sn_BlockRoundInfo s2) \<and>
      Round (sn_BlockRoundInfo s1) < Round (sn_BlockRoundInfo s2))"
  shows "processStateSnapshot X c ps send p t2 m2 s2 w2 = (Ok (), w2)"
proof -
  have "va_state w1 = \<lparr>vs_LastVote = Some (sn_BlockRoundInfo s1)\<rparr>"
    using snapshot_after [OF first(2)] first(1) by simp
  with later have "\<not> shouldVote (va_state w1) t2 s2" by (auto simp: shouldVote_iff)
  with ManageValidator_le [OF run] have "\<not> shouldVote (va_state w2) t2 s2" by (auto simp: vote_le_def)
  then show ?thesis
    using snapshot_after [of X c ps p t2 m2 s2 w2 "fst (processStateSnapshot X c ps send p t2 m2 s2 w2)"
        "snd (processStateSnapshot X c ps send p t2 m2 s2 w2)"] by simp
qed

end

text \<open>After a vote in some round a validator sits out the earlier rounds of the next heights. Although
  the head has moved on to a larger height, a snapshot whose round is not larger than the round of the
  last vote is ignored without any change, where the proposer compares rounds only at the same height.\<close>

theorem validator_abstains_at_next_height:
  assumes "vs_LastVote (va_state w) = Some l" "Height l < Height (sn_BlockRoundInfo snap)"
    and "Round (sn_BlockRoundInfo snap) \<le> Round l"
  shows "processStateSnapshot X c ps send p now recv snap w = (Ok (), w) \<and>
    (\<forall>pr v. pr_state w = \<lparr>ps_LastProposal = Some l\<rparr> \<and> sn_RoundStarted snap \<and> sn_CurrentProposer snap = Some v \<and>
       val_PubKey v = pr_pubKeyBytes pr \<longrightarrow> shouldPropose pr (pr_state w) snap)"
proof -
  have "\<not> shouldVote (va_state w) now snap" using assms by (auto simp: shouldVote_iff)
  then have "processStateSnapshot X c ps send p now recv snap w = (Ok (), w)"
    by (simp add: processStateSnapshot_def gbind_def split: option.splits)
  with assms show ?thesis by (auto simp: shouldPropose_iff round_lt_def)
qed

end
