(* ===== verification/Node.thy ===== *)
theory Node
  imports ValidatorActor
begin

text \<open>
  Package \<^verbatim>\<open>node\<close>: the process that ties a chain to the network. It owns the peer store, the proposer
  and the validator, signs and publishes outgoing messages, each linked to the one before, and hands
  the messages it receives to their peers.

  The outbox is an unbuffered channel; \<open>outboxCh\<close> lists the messages that have been handed over and not
  yet been emitted by the process loop. The clock and the outcome of a \<open>select\<close> on a context are
  functions of the state, so that every call may see another reading.
\<close>

section \<open>State\<close>

record node =
  n_db :: db_view
  n_privKey :: priv_key
  n_pubKeyBytes :: bytes
  n_nodeAddr :: peer_id

record 'e node_world = "'e validator_world" +
  n_state :: node_state
  outboxCh :: "node_message list"

definition Node_readState ::
  "('e, 'x) externals_scheme \<Rightarrow> node \<Rightarrow> (('e, 'z) node_world_scheme, unit) go" where
  "Node_readState X n =
     gbind (gasks n_state) (\<lambda>st.
     gbind (read_slot X (pb_node_state X) (n_db n) ''/state'' st) (\<lambda>st'.
     gmodify (\<lambda>w. w\<lparr>n_state := st'\<rparr>)))"

definition Node_writeState ::
  "('e, 'x) externals_scheme \<Rightarrow> node \<Rightarrow> (('e, 'z) node_world_scheme, unit) go" where
  "Node_writeState X n =
     gbind (gasks n_state) (\<lambda>st. write_slot X (pb_node_state X) (n_db n) ''/state'' st)"

section \<open>The node's configuration\<close>

text \<open>The encoding of private keys is a library's; \<open>marshalPriv\<close> and \<open>unmarshalPriv\<close> stand for it.\<close>

record node_config =
  cfg_PrivKey :: bytes

definition UnmarshalPrivKey :: "(bytes \<Rightarrow> go_error + priv_key) \<Rightarrow> node_config \<Rightarrow> priv_key res" where
  "UnmarshalPrivKey unmarshalPriv c = res_of (unmarshalPriv (cfg_PrivKey c))"

definition SetPrivKey :: "(priv_key \<Rightarrow> go_error + bytes) \<Rightarrow> priv_key \<Rightarrow> (node_config, unit) go" where
  "SetPrivKey marshalPriv priv =
     gbind (gres (res_of (marshalPriv priv))) (\<lambda>privDat. gmodify (\<lambda>c. c\<lparr>cfg_PrivKey := privDat\<rparr>))"

lemma configured_key:
  assumes "\<And>k bs. marshalPriv k = Inr bs \<Longrightarrow> unmarshalPriv bs = Inr k"
    and "SetPrivKey marshalPriv priv c = (Ok (), c')"
  shows "UnmarshalPrivKey unmarshalPriv c' = Ok priv"
  using assms by (auto simp: SetPrivKey_def UnmarshalPrivKey_def gbind_Ok_iff split: sum.splits)

section \<open>Sending\<close>

definition SendMessage ::
  "chain \<Rightarrow> node \<Rightarrow> (('e, 'z) node_world_scheme \<Rightarrow> timestamp) \<Rightarrow>
     (('e, 'z) node_world_scheme \<Rightarrow> go_error option) \<Rightarrow> ('e, 'z) node_world_scheme sender" where
  "SendMessage c n clock ctxDone msgType appMsgType msgInnerRef = (\<lambda>w.
     let nm = \<lparr>nm_MessageType = msgType, nm_GenesisRef = c_GenesisRef c, nm_InnerRef = msgInnerRef,
           nm_Timestamp = Some (clock w), nm_AppMessageType = appMsgType, nm_PubKey = n_pubKeyBytes n,
           nm_PrevMsgRef = None\<rparr> in
     case ctxDone w of
       None \<Rightarrow> (Ok (), w\<lparr>outboxCh := outboxCh w @ [nm]\<rparr>)
     | Some e \<Rightarrow> (Err e, w))"

definition pubsubSendMsg ::
  "('e, 'x) externals_scheme \<Rightarrow> chain \<Rightarrow> node \<Rightarrow> timestamp \<Rightarrow> node_message \<Rightarrow>
     (('e, 'z) node_world_scheme, unit) go" where
  "pubsubSendMsg X c n tsNow msg =
     gbind (gasks (\<lambda>w. ns_LastMsgRef (n_state w))) (\<lambda>lastMsgRef.
     let msg' = msg\<lparr>nm_PrevMsgRef := lastMsgRef, nm_Timestamp := Some tsNow\<rparr> in
     gbind (gcall (\<lambda>e. store_node_message X e msg'
              (GetNodeMessageEncryptionConfig X (c_encStrat c) (n_privKey n)))) (\<lambda>msgSref.
     let pubSubMsg = \<lparr>pm_NodeMessageRef = msgSref, pm_PeerId = pretty_id X (n_nodeAddr n)\<rparr> in
     gbind (gres (res_of (marshal (pb_pubsub_message X) pubSubMsg))) (\<lambda>dat.
     gbind (gmodify (\<lambda>w. w\<lparr>n_state := \<lparr>ns_LastMsgRef = msgSref\<rparr>\<rparr>)) (\<lambda>_.
     gbind (Node_writeState X n) (\<lambda>_.
     gcall (\<lambda>e. pubsub_publish X e (c_pubsubTopic c) (b64_encode dat)))))))"

text \<open>One message taken from the outbox by the loop of \<open>processNode\<close>.\<close>

definition processNode_outbox ::
  "('e, 'x) externals_scheme \<Rightarrow> chain \<Rightarrow> node \<Rightarrow> timestamp \<Rightarrow> (('e, 'z) node_world_scheme, unit) go" where
  "processNode_outbox X c n tsNow =
     gbind (gasks outboxCh) (\<lambda>box.
     case box of
       [] \<Rightarrow> gret ()
     | msg # rest \<Rightarrow>
         gbind (gmodify (\<lambda>w. w\<lparr>outboxCh := rest\<rparr>)) (\<lambda>_.
         gbind (gtry (pubsubSendMsg X c n tsNow msg)) (\<lambda>_. gret ())))"

section \<open>Receiving\<close>

text \<open>One record of the pub-sub subscription in the loop of \<open>processPubSub\<close>.\<close>

definition processPubSub_record ::
  "('e, 'x) externals_scheme \<Rightarrow> peer_store \<Rightarrow> ('e, 'z) commit_handler \<Rightarrow> time \<Rightarrow> string \<Rightarrow>
     (('e, 'z) peer_world_scheme, unit) go" where
  "processPubSub_record X ps handler now dat =
     (case b64_decode dat of
        None \<Rightarrow> gret ()
      | Some bs \<Rightarrow>
          (case unmarshal (pb_pubsub_message X) bs of
             Inl _ \<Rightarrow> gret ()
           | Inr msg \<Rightarrow>
               (case id_decode X (pm_PeerId msg) of
                  Inl _ \<Rightarrow> gret ()
                | Inr peerID \<Rightarrow>
                    gbind (GetPeer peerID) (\<lambda>peer.
                    case peer of
                      None \<Rightarrow> gret ()
                    | Some pid \<Rightarrow> ProcessNodePubsubMessage X ps handler now pid msg))))"

section \<open>Starting a node\<close>

fun peersForValidators ::
  "('e, 'x) externals_scheme \<Rightarrow> peer_store \<Rightarrow> validator list \<Rightarrow> (('e, 'z) peer_world_scheme, unit) go" where
  "peersForValidators X ps [] = gret ()"
| "peersForValidators X ps (v # vs) =
     gbind (gres (res_of (parse_public_key X v))) (\<lambda>validatorPub.
     gbind (GetPeerWithPubKey X ps validatorPub) (\<lambda>_.
     peersForValidators X ps vs))"

definition readGenesisState ::
  "('e, 'x) externals_scheme \<Rightarrow> chain \<Rightarrow> peer_store \<Rightarrow> (('e, 'z) peer_world_scheme, unit) go" where
  "readGenesisState X c ps =
     (let genRef = c_GenesisRef c in
      gbind (gres (GetGenesisEncryptionConfigWithDigest (c_encStrat c) (GetObjectDigest genRef))) (\<lambda>genEncConf.
      gbind (gext (\<lambda>e. follow_genesis X e genRef (Some genEncConf) [])) (\<lambda>gen.
      let confRef = gen_InitChainConfigRef gen in
      gbind (gres (GetBlockEncryptionConfigWithDigest (c_encStrat c) (GetObjectDigest confRef))) (\<lambda>encConf.
      gbind (gext (\<lambda>e. follow_chain_config X e confRef (Some encConf) [])) (\<lambda>initChainConfig.
      let validatorSetRef = cc_ValidatorSetRef initChainConfig in
      gbind (gres (GetBlockEncryptionConfigWithDigest (c_encStrat c) (GetObjectDigest validatorSetRef))) (\<lambda>encConf2.
      gbind (gext (\<lambda>e. follow_validator_set X e validatorSetRef (Some encConf2) [])) (\<lambda>initValidatorSet.
      peersForValidators X ps (Validators initValidatorSet))))))))"

text \<open>\<open>subscribed\<close> is the answer of the IPFS shell to the subscription of \<open>initPubSub\<close>.\<close>

definition NewNode ::
  "('e, 'x) externals_scheme \<Rightarrow> db_view \<Rightarrow> bool \<Rightarrow> chain \<Rightarrow> priv_key \<Rightarrow> go_error + unit \<Rightarrow>
     (('e, 'z) node_world_scheme, node \<times> peer_store \<times> proposer \<times> validator_actor) go" where
  "NewNode X dbm hasObjStore c privKey subscribed =
     gbind (gres (res_of (id_from_priv X privKey))) (\<lambda>nodeAddr.
     gbind (gres (res_of (pub_bytes X (priv_public X privKey)))) (\<lambda>pubKeyBytes.
     let n = \<lparr>n_db = WithPrefix dbm (''/node/'' @ pretty_id X nodeAddr), n_privKey = privKey,
           n_pubKeyBytes = pubKeyBytes, n_nodeAddr = nodeAddr\<rparr>;
         ps = NewPeerStore dbm (GetObjectDigest (c_GenesisRef c)) (c_encStrat c) in
     gbind (gmodify (\<lambda>w. w\<lparr>peers := Map.empty, n_state := \<lparr>ns_LastMsgRef = None\<rparr>, outboxCh := []\<rparr>)) (\<lambda>_.
     gbind (NewProposer X privKey dbm hasObjStore) (\<lambda>pr.
     gbind (NewValidator X privKey dbm hasObjStore) (\<lambda>va.
     gbind (GetPeerWithPubKey X ps (priv_public X privKey)) (\<lambda>_.
     gbind (Node_readState X n) (\<lambda>_.
     gbind (readGenesisState X c ps) (\<lambda>_.
     gbind (gres (res_of subscribed)) (\<lambda>_.
     gret (n, ps, pr, va))))))))))"

section \<open>The node as the actors' sender\<close>

lemma SendMessage_frame:
  assumes "\<And>w box. P w \<Longrightarrow> P (w\<lparr>outboxCh := box\<rparr>)"
  shows "keeps P (SendMessage c n clock ctxDone t a r)"
  by (rule keepsI) (simp add: SendMessage_def Let_def assms split: option.splits)

interpretation node_sender: quiet_sender "SendMessage c n clock ctxDone" for c n clock ctxDone
  by unfold_locales (rule SendMessage_frame, simp)

interpretation node_vote_sender: quiet_vote_sender "SendMessage c n clock ctxDone" for c n clock ctxDone
  by unfold_locales (rule SendMessage_frame, simp)

text \<open>A node never proposes twice. Once the proposer has taken up a round, whatever happens in its
  loop afterwards, a snapshot of the same round, or of an earlier one, leaves everything as it is: no
  second header is stored, no vote is sent.\<close>

theorem no_equivocation_proposer:
  assumes "shouldPropose p (pr_state w) s1"
    and "handleState X c ps (SendMessage c n clock ctxDone) bp p s1 t1 w = (Ok ph, w1)"
    and "proposer_run X c ps (SendMessage c n clock ctxDone) bp p evs ph w1 = (r, w2)"
    and "\<not> round_lt (Some (sn_BlockRoundInfo s1)) (sn_BlockRoundInfo s2)"
  shows "handleState X c ps (SendMessage c n clock ctxDone) bp p s2 t2 w2 = (Ok Idle, w2)"
  using assms by (rule node_sender.no_second_proposal)

text \<open>A validator never votes twice. Once it has taken up a round, whatever snapshots follow, a
  snapshot of that round, of an earlier round or of an earlier height changes nothing and sends
  nothing.\<close>

theorem no_equivocation_validator:
  assumes "shouldVote (va_state w) t1 s1"
    and "processStateSnapshot X c ps (SendMessage c n clock ctxDone) p t1 m1 s1 w = (r1, w1)"
    and "ManageValidator X c ps (SendMessage c n clock ctxDone) p evs w1 = (r, w2)"
    and "\<not> (Height (sn_BlockRoundInfo s1) \<le> Height (sn_BlockRoundInfo s2) \<and>
      Round (sn_BlockRoundInfo s1) < Round (sn_BlockRoundInfo s2))"
  shows "processStateSnapshot X c ps (SendMessage c n clock ctxDone) p t2 m2 s2 w2 = (Ok (), w2)"
  using assms by (rule node_vote_sender.no_second_vote)

section \<open>From one node to another\<close>

text \<open>
  What the node relies on of its services. A stored node message is found under its reference, whose
  digest is long enough for a nonce, by a reader with the same strategy and the signer's public key;
  neither the database nor the network disturbs stored messages, and the network does not write the
  database. A public key survives its encoding and an identifier survives its printing.
\<close>

definition network_ok :: "('e, 'x) externals_scheme \<Rightarrow> bool" where
  "network_ok X \<longleftrightarrow>
     (\<forall>e nm s k ref e' conf.
        store_node_message X e nm (GetNodeMessageEncryptionConfig X s k) = (Inr ref, e') \<longrightarrow>
        24 \<le> length (GetObjectDigest ref) \<and>
        (GetNodeMessageEncryptionConfigWithDigest s (priv_public X k) (GetObjectDigest ref) = Ok conf \<longrightarrow>
         follow_node_message X e' ref (Some conf) [] = Inr nm)) \<and>
     (\<forall>e h k v. follow_node_message X (snd (db_set X e h k v)) = follow_node_message X e) \<and>
     (\<forall>e t m. follow_node_message X (snd (pubsub_publish X e t m)) = follow_node_message X e \<and>
        db_get X (snd (pubsub_publish X e t m)) = db_get X e)"

definition keys_ok :: "('e, 'x) externals_scheme \<Rightarrow> bool" where
  "keys_ok X \<longleftrightarrow>
     (\<forall>k bs. pub_bytes X k = Inr bs \<longrightarrow> unmarshal_pub X bs = Inr k) \<and>
     (\<forall>k. pub_equals X k k) \<and> (\<forall>p. id_decode X (pretty_id X p) = Inr p)"

text \<open>The message that \<open>pubsubSendMsg\<close> stores.\<close>

definition linked_message :: "('e, 'z) node_world_scheme \<Rightarrow> timestamp \<Rightarrow> node_message \<Rightarrow> node_message" where
  "linked_message w ts msg = msg\<lparr>nm_PrevMsgRef := ns_LastMsgRef (n_state w), nm_Timestamp := Some ts\<rparr>"

lemma linked_message_simps [simp]:
  "nm_PubKey (linked_message w ts msg) = nm_PubKey msg"
  "nm_MessageType (linked_message w ts msg) = nm_MessageType msg"
  "nm_PrevMsgRef (linked_message w ts msg) = ns_LastMsgRef (n_state w)"
  "nm_InnerRef (linked_message w ts msg) = nm_InnerRef msg"
  "nm_Timestamp (linked_message w ts msg) = Some ts"
  by (simp_all add: linked_message_def)

lemma pubsubSendMsg_Ok:
  assumes "pubsubSendMsg X c n ts msg w = (Ok (), w')"
  obtains ref e1 dat w1 where
    "store_node_message X (ext w) (linked_message w ts msg)
       (GetNodeMessageEncryptionConfig X (c_encStrat c) (n_privKey n)) = (Inr ref, e1)"
    "marshal (pb_pubsub_message X) \<lparr>pm_NodeMessageRef = ref, pm_PeerId = pretty_id X (n_nodeAddr n)\<rparr> = Inr dat"
    "write_slot X (pb_node_state X) (n_db n) ''/state'' \<lparr>ns_LastMsgRef = ref\<rparr>
       (w\<lparr>ext := e1, n_state := \<lparr>ns_LastMsgRef = ref\<rparr>\<rparr>) = (Ok (), w1)"
    "pubsub_publish X (ext w1) (c_pubsubTopic c) (b64_encode dat) = (Inr (), ext w')"
    "w' = w1\<lparr>ext := ext w'\<rparr>"
  using assms
  by (auto simp: pubsubSendMsg_def Node_writeState_def linked_message_def Let_def gbind_Ok_iff gcall_Ok)

lemma sent_message_readable:
  assumes net: "network_ok X" and run: "pubsubSendMsg X c n ts msg w = (Ok (), w')"
  obtains ref dat e conf where
    "marshal (pb_pubsub_message X) \<lparr>pm_NodeMessageRef = ref, pm_PeerId = pretty_id X (n_nodeAddr n)\<rparr> = Inr dat"
    "pubsub_publish X e (c_pubsubTopic c) (b64_encode dat) = (Inr (), ext w')"
    "24 \<le> length (GetObjectDigest ref)" "ns_LastMsgRef (n_state w') = ref"
    "GetNodeMessageEncryptionConfigWithDigest (c_encStrat c) (priv_public X (n_privKey n)) (GetObjectDigest ref) = Ok conf"
    "follow_node_message X (ext w') ref (Some conf) [] = Inr (linked_message w ts msg)"
proof -
  from run obtain ref e1 dat w1 where
    st: "store_node_message X (ext w) (linked_message w ts msg)
       (GetNodeMessageEncryptionConfig X (c_encStrat c) (n_privKey n)) = (Inr ref, e1)" and
    dat: "marshal (pb_pubsub_message X) \<lparr>pm_NodeMessageRef = ref, pm_PeerId = pretty_id X (n_nodeAddr n)\<rparr> = Inr dat" and
    wr: "write_slot X (pb_node_state X) (n_db n) ''/state'' \<lparr>ns_LastMsgRef = ref\<rparr>
       (w\<lparr>ext := e1, n_state := \<lparr>ns_LastMsgRef = ref\<rparr>\<rparr>) = (Ok (), w1)" and
    pub: "pubsub_publish X (ext w1) (c_pubsubTopic c) (b64_encode dat) = (Inr (), ext w')" "w' = w1\<lparr>ext := ext w'\<rparr>"
    by (rule pubsubSendMsg_Ok)
  have long: "24 \<le> length (GetObjectDigest ref)" using net st unfolding network_ok_def by blast
  then obtain conf where conf:
    "GetNodeMessageEncryptionConfigWithDigest (c_encStrat c) (priv_public X (n_privKey n)) (GetObjectDigest ref) = Ok conf"
    by (simp add: enc_config_defs nonce_of_digest_def)
  have "follow_node_message X e1 ref (Some conf) [] = Inr (linked_message w ts msg)"
    using net st conf unfolding network_ok_def by blast
  moreover obtain bs where "db_set X e1 (n_db n) ''/state'' bs = (Inr (), ext w1)"
    using wr by (auto simp: write_slot_Ok)
  then have "ext w1 = snd (db_set X e1 (n_db n) ''/state'' bs)" by simp
  moreover have "ext w' = snd (pubsub_publish X (ext w1) (c_pubsubTopic c) (b64_encode dat))" using pub by simp
  ultimately have follow: "follow_node_message X (ext w') ref (Some conf) [] = Inr (linked_message w ts msg)"
    using net unfolding network_ok_def by metis
  have "n_state w1 = \<lparr>ns_LastMsgRef = ref\<rparr>" using wr by (auto simp: write_slot_Ok)
  then have "ns_LastMsgRef (n_state w') = ref" by (subst pub(2)) simp
  with that dat pub(1) long conf follow show thesis by blast
qed
text \<open>C15: from one node's outbox to another node's subscribers. When a node has emitted a vote or an
  application message, the text it published, received by any node that knows the sender and shares the
  chain's key, is decoded, decrypted and checked there, and every channel subscribed to the sender ends
  with exactly the message that was sent, linked to the one before and stamped with the sending time,
  provided it is acceptable to the receiver at that time.\<close>

theorem sent_message_delivered:
  assumes laws: "network_ok X" "keys_ok X" "codec_ok (pb_pubsub_message X)"
    and key: "pub_bytes X (priv_public X (n_privKey n)) = Inr (n_pubKeyBytes n)" "n_pubKeyBytes n \<noteq> []"
    and msg: "nm_PubKey msg = n_pubKeyBytes n" "nm_MessageType msg \<noteq> BLOCK_COMMIT"
    and send: "pubsubSendMsg X c n ts msg w = (Ok (), w')"
    and receiver: "peers_inv X v" "peers v (n_nodeAddr n) = Some p" "p_pubKey p = priv_public X (n_privKey n)"
      "ps_encStrat ps = c_encStrat c" "ext v = ext w'"
    and acc: "acceptable X ps now p (linked_message w ts msg)"
  shows "\<exists>text e. pubsub_publish X e (c_pubsubTopic c) text = (Inr (), ext w') \<and>
    (\<exists>v' p'. processPubSub_record X ps h now text v = (Ok (), v') \<and> peers v' (n_nodeAddr n) = Some p' \<and>
       (\<forall>k ch. p_msgSubs p k = Some ch \<longrightarrow>
          (\<exists>old. p_msgSubs p' k = Some (old @ [linked_message w ts msg]))))"
proof -
  from sent_message_readable [OF laws(1) send] obtain ref dat e conf where
    dat: "marshal (pb_pubsub_message X) \<lparr>pm_NodeMessageRef = ref, pm_PeerId = pretty_id X (n_nodeAddr n)\<rparr> = Inr dat"
    and pub: "pubsub_publish X e (c_pubsubTopic c) (b64_encode dat) = (Inr (), ext w')"
    and long: "24 \<le> length (GetObjectDigest ref)"
    and conf: "GetNodeMessageEncryptionConfigWithDigest (c_encStrat c) (priv_public X (n_privKey n)) (GetObjectDigest ref) = Ok conf"
    and follow: "follow_node_message X (ext w') ref (Some conf) [] = Inr (linked_message w ts msg)"
    by metis
  let ?pm = "\<lparr>pm_NodeMessageRef = ref, pm_PeerId = pretty_id X (n_nodeAddr n)\<rparr>"
  have keys: "unmarshal_pub X (n_pubKeyBytes n) = Inr (priv_public X (n_privKey n))"
    "pub_equals X (priv_public X (n_privKey n)) (priv_public X (n_privKey n))"
    "id_decode X (pretty_id X (n_nodeAddr n)) = Inr (n_nodeAddr n)"
    using laws(2) key(1) unfolding keys_ok_def by blast+
  have id: "p_peerID p = n_nodeAddr n" using peer_of_inv [OF receiver(1,2)] by simp
  have auth: "authentic X ps (ext v) p ?pm (linked_message w ts msg)"
    using id conf follow receiver keys msg by (auto simp: authentic_def)
  have ne: "nm_PubKey (linked_message w ts msg) \<noteq> []" "GetObjectDigest (pm_NodeMessageRef ?pm) \<noteq> []"
    using msg key(2) long by auto
  from acceptable_delivery [OF auth ne acc _ receiver(1,2), of h] msg(2)
  obtain v' p' where run: "ProcessNodePubsubMessage X ps h now (n_nodeAddr n) ?pm v = (Ok (), v')"
    and out: "peers v' (n_nodeAddr n) = Some p'"
      "\<forall>k ch. p_msgSubs p k = Some ch \<longrightarrow> (\<exists>old. p_msgSubs p' k = Some (old @ [linked_message w ts msg]))"
    by auto
  have "processPubSub_record X ps h now (b64_encode dat) v = (Ok (), v')"
    using run codec_okD [OF laws(3) dat] keys(3) receiver(2)
    by (simp add: processPubSub_record_def b64_roundtrip GetPeer_def gbind_def)
  with pub out show ?thesis by blast
qed

text \<open>C16: the messages of a node form a linked list that survives a restart. An emitted message refers to
  the one before it, it becomes the last message in memory, and reading the node's state back from the
  database in any later incarnation gives its reference again.\<close>

theorem messages_linked:
  assumes laws: "network_ok X" "db_ok X" "codec_ok (pb_node_state X)"
    and send: "pubsubSendMsg X c n ts msg w = (Ok (), w')"
    and restart: "ext v = ext w'"
  shows "\<exists>ref conf. follow_node_message X (ext w') ref (Some conf) [] = Inr (linked_message w ts msg) \<and>
    nm_PrevMsgRef (linked_message w ts msg) = ns_LastMsgRef (n_state w) \<and>
    n_state w' = \<lparr>ns_LastMsgRef = ref\<rparr> \<and>
    Node_readState X n v = (Ok (), v\<lparr>n_state := \<lparr>ns_LastMsgRef = ref\<rparr>\<rparr>)"
proof -
  from sent_message_readable [OF laws(1) send] obtain ref conf where
    follow: "follow_node_message X (ext w') ref (Some conf) [] = Inr (linked_message w ts msg)"
    and last: "ns_LastMsgRef (n_state w') = ref" by metis
  from send obtain ref2 e1 dat w1 where
    wr: "write_slot X (pb_node_state X) (n_db n) ''/state'' \<lparr>ns_LastMsgRef = ref2\<rparr>
       (w\<lparr>ext := e1, n_state := \<lparr>ns_LastMsgRef = ref2\<rparr>\<rparr>) = (Ok (), w1)" and
    pub: "pubsub_publish X (ext w1) (c_pubsubTopic c) (b64_encode dat) = (Inr (), ext w')" "w' = w1\<lparr>ext := ext w'\<rparr>"
    by (rule pubsubSendMsg_Ok)
  have st: "n_state w' = \<lparr>ns_LastMsgRef = ref2\<rparr>" using wr by (subst pub(2)) (auto simp: write_slot_Ok)
  then have same: "ref2 = ref" using last by simp
  have db: "db_get X (ext w') = db_get X (ext w1)"
    using laws(1) pub(1) unfolding network_ok_def by (metis snd_conv)
  have "fst (read_slot X (pb_node_state X) (n_db n) ''/state'' st v) =
      fst (read_slot X (pb_node_state X) (n_db n) ''/state'' st w1)" for st
    using db restart by (auto simp: read_slot_def gbind_def split: res.splits option.splits)
  then have "fst (read_slot X (pb_node_state X) (n_db n) ''/state'' st v) = Ok \<lparr>ns_LastMsgRef = ref\<rparr>" for st
    using read_after_write [OF laws(2,3) wr] same by simp
  then have "Node_readState X n v = (Ok (), v\<lparr>n_state := \<lparr>ns_LastMsgRef = ref\<rparr>\<rparr>)"
    by (simp add: Node_readState_def gbind_Ok_iff read_slot_eq)
  with follow st same show ?thesis by auto
qed

section \<open>A node that has started\<close>

lemma peersForValidators_Ok:
  assumes "peersForValidators X ps vs w = (Ok (), w')" "peers_inv X w"
  shows "peers_inv X w' \<and> dom (peers w) \<subseteq> dom (peers w') \<and>
    (\<forall>v\<in>set vs. \<exists>k. parse_public_key X v = Inr k \<and> fst (id_from_pub X k) \<in> dom (peers w'))"
  using assms
proof (induction vs arbitrary: w)
  case (Cons v vs)
  from Cons.prems obtain k pid w1 where k: "parse_public_key X v = Inr k"
    and get: "GetPeerWithPubKey X ps k w = (Ok pid, w1)" and rest: "peersForValidators X ps vs w1 = (Ok (), w')"
    by (auto simp: gbind_Ok_iff)
  from GetPeerWithPubKey_outcome [OF get Cons.prems(2)] obtain p where
    pid: "pid = fst (id_from_pub X k)" and inv: "peers_inv X w1" and w1: "peers w1 = (peers w)(pid \<mapsto> p)" by blast
  have "dom (peers w1) = insert pid (dom (peers w))" using w1 by simp
  with Cons.IH [OF rest inv] k pid show ?case by auto
qed auto

text \<open>C31: a node that has started knows its validators. The peer store is consistent and holds a peer for
  the node's own key and one for every validator of the genesis configuration's validator set.\<close>

theorem started_node_knows_validators:
  assumes run: "NewNode X dbm hasObjStore c k sub w = (Ok (n, ps, pr, va), w')"
  shows "peers_inv X w' \<and> fst (id_from_pub X (priv_public X k)) \<in> dom (peers w') \<and>
    id_from_priv X k = Inr (n_nodeAddr n) \<and> pr_validatorID pr = n_nodeAddr n \<and>
    (\<exists>gen cc vs e. (\<exists>conf. follow_genesis X e (c_GenesisRef c) (Some conf) [] = Inr gen) \<and>
       (\<exists>conf. follow_chain_config X e (gen_InitChainConfigRef gen) (Some conf) [] = Inr cc) \<and>
       (\<exists>conf. follow_validator_set X e (cc_ValidatorSetRef cc) (Some conf) [] = Inr vs) \<and>
       (\<forall>v\<in>set (Validators vs). \<exists>key. parse_public_key X v = Inr key \<and> fst (id_from_pub X key) \<in> dom (peers w')))"
proof -
  let ?w = "w\<lparr>peers := Map.empty, n_state := \<lparr>ns_LastMsgRef = None\<rparr>, outboxCh := []\<rparr>"
  from run obtain w1 w2 own w3 w4 where
    addr: "id_from_priv X k = Inr (n_nodeAddr n)"
    and pr: "NewProposer X k dbm hasObjStore ?w = (Ok pr, w1)"
    and va: "NewValidator X k dbm hasObjStore w1 = (Ok va, w2)"
    and own: "GetPeerWithPubKey X ps (priv_public X k) w2 = (Ok own, w3)"
    and st: "Node_readState X n w3 = (Ok (), w4)"
    and gen: "readGenesisState X c ps w4 = (Ok (), w')"
    by (auto simp: NewNode_def Let_def gbind_Ok_iff)
  have "keeps (\<lambda>w. peers w = Map.empty) (NewProposer X k dbm hasObjStore)"
    unfolding NewProposer_def Proposer_readState_def Proposer_writeState_def Let_def
    by (intro keeps_intros) simp_all
  from keepsD [OF this pr] have w1: "peers w1 = Map.empty" by simp
  have "keeps (\<lambda>w. peers w = Map.empty) (NewValidator X k dbm hasObjStore)"
    unfolding NewValidator_def Validator_readState_def Validator_writeState_def Let_def
    by (intro keeps_intros) simp_all
  from keepsD [OF this va w1] have "peers_inv X w2" by (simp add: peers_inv_def)
  from GetPeerWithPubKey_outcome [OF own this] obtain p where
    w3: "peers_inv X w3" "fst (id_from_pub X (priv_public X k)) \<in> dom (peers w3)" by auto
  have w4: "peers w4 = peers w3" using st by (auto simp: Node_readState_def gbind_Ok_iff read_slot_eq)
  from gen obtain genObj cc vs where g: "peersForValidators X ps (Validators vs) w4 = (Ok (), w')"
    "\<exists>conf. follow_genesis X (ext w4) (c_GenesisRef c) (Some conf) [] = Inr genObj"
    "\<exists>conf. follow_chain_config X (ext w4) (gen_InitChainConfigRef genObj) (Some conf) [] = Inr cc"
    "\<exists>conf. follow_validator_set X (ext w4) (cc_ValidatorSetRef cc) (Some conf) [] = Inr vs"
    by (auto simp: readGenesisState_def Let_def gbind_Ok_iff)
  have "peers_inv X w4" using w3 w4 by (simp add: peers_inv_def)
  from peersForValidators_Ok [OF g(1) this] w3 w4
  have "peers_inv X w'" "fst (id_from_pub X (priv_public X k)) \<in> dom (peers w')"
    "\<forall>v\<in>set (Validators vs). \<exists>key. parse_public_key X v = Inr key \<and> fst (id_from_pub X key) \<in> dom (peers w')"
    by auto
  moreover have "pr_validatorID pr = n_nodeAddr n" using pr addr by (auto elim!: NewProposer_fields)
  ultimately show ?thesis using addr g(2-4) by blast
qed

end
