(* ===== verification/NodeWitnesses.thy ===== *)
theory NodeWitnesses
  imports Demo Node
begin

text \<open>
  Witnesses for the properties of the peers, the proposer, the validator and the node: a node on the
  small chain of \<open>Demo\<close> that knows itself and one other validator.
\<close>

section \<open>A small network\<close>

lemma pair_run: "p = (fst p, snd p)"
  by simp

definition demo_info :: "nat \<Rightarrow> nat \<Rightarrow> round_info" where
  "demo_info h r = \<lparr>Height = of_nat h, Round = of_nat r\<rparr>"

definition demo_tables1 :: demo_tables where
  "demo_tables1 = demo_tables0\<lparr>
     tab_proposer := [\<lparr>ps_LastProposal = None\<rparr>, \<lparr>ps_LastProposal = Some (demo_info 1 0)\<rparr>],
     tab_validator := [\<lparr>vs_LastVote = None\<rparr>, \<lparr>vs_LastVote = Some (demo_info 1 0)\<rparr>],
     tab_node := [\<lparr>ns_LastMsgRef = demo_ref 220\<rparr>],
     tab_pubsub := [\<lparr>pm_NodeMessageRef = demo_ref 220, pm_PeerId = ''p''\<rparr>,
       \<lparr>pm_NodeMessageRef = demo_ref 60, pm_PeerId = ''p''\<rparr>]\<rparr>"

abbreviation demo_Y :: "demo_env externals" where
  "demo_Y \<equiv> demo_externals demo_tables1"

definition demo_message :: "node_message_type \<Rightarrow> nat \<Rightarrow> node_message" where
  "demo_message t s = \<lparr>nm_MessageType = t, nm_GenesisRef = demo_ref 32, nm_InnerRef = demo_ref 41,
     nm_Timestamp = Some \<lparr>TimeUnixMs = of_nat (1000 * s)\<rparr>, nm_AppMessageType = 0, nm_PubKey = [0],
     nm_PrevMsgRef = None\<rparr>"

text \<open>The stored vote is for the header of block one, and message 60 carries it.\<close>

definition demo_env1 :: demo_env where
  "demo_env1 = demo_env0\<lparr>env_votes := [(replicate 24 41, \<lparr>vote_BlockHeaderRef = demo_ref 21\<rparr>)],
     env_messages := [(replicate 24 60, demo_message VOTE 5)]\<rparr>"

definition demo_pubsub :: chain_pubsub_message where
  "demo_pubsub = \<lparr>pm_NodeMessageRef = demo_ref 60, pm_PeerId = ''p''\<rparr>"

definition demo_peer :: peer_obj where
  "demo_peer = \<lparr>p_pubKey = PubKey 1, p_peerID = PeerID ''p'', p_db = [''/d'', ''/peers'', ''/p''],
     p_state = \<lparr>LastObservedMessage = None\<rparr>, p_nextSubId = 1, p_msgSubs = [1 \<mapsto> []]\<rparr>"

definition demo_store :: peer_store where
  "demo_store = NewPeerStore [''/d''] (replicate 24 32) demo_strategy"

definition demo_nw :: "demo_env node_world" where
  "demo_nw = \<lparr>ext = demo_env1, segmentMap = Map.empty, segmentQueue = \<lparr>pq = [], notifyCh = []\<rparr>,
     ch_state = \<lparr>cs_StateSegment = ''s'', cs_LastHeight = 1, cs_LastRound = 0\<rparr>,
     recheckStateTrigger = [], stateSnapshotCtx = None, canceledCtxs = [], lastStateSnapshot = None,
     stateSubs = Map.empty, pendingSubs = Map.empty, lastHeadDigest = [], lastBlock = None, lastBlockHeader = None,
     lastBlockRef = None, peers = [PeerID ''p'' \<mapsto> demo_peer], pr_state = \<lparr>ps_LastProposal = None\<rparr>,
     va_state = \<lparr>vs_LastVote = None\<rparr>, n_state = \<lparr>ns_LastMsgRef = None\<rparr>, outboxCh = []\<rparr>"

lemma demo_nw_fields [simp]:
  "ext demo_nw = demo_env1" "peers demo_nw = [PeerID ''p'' \<mapsto> demo_peer]"
  "pr_state demo_nw = \<lparr>ps_LastProposal = None\<rparr>" "va_state demo_nw = \<lparr>vs_LastVote = None\<rparr>"
  "n_state demo_nw = \<lparr>ns_LastMsgRef = None\<rparr>"
  by (simp_all add: demo_nw_def)

lemma demo_peer_fields [simp]:
  "p_peerID demo_peer = PeerID ''p''" "p_pubKey demo_peer = PubKey 1"
  "p_state demo_peer = \<lparr>LastObservedMessage = None\<rparr>" "p_msgSubs demo_peer = [1 \<mapsto> []]"
  by (simp_all add: demo_peer_def)

lemma demo_Y_fields [simp]:
  "id_from_pub demo_Y (PubKey (Suc 0)) = (PeerID ''p'', None)" "pretty_id demo_Y (PeerID s) = s"
  "ts_validate demo_Y t = Inr ()" "ts_to_time demo_Y (Some ts) = uint (TimeUnixMs ts) * millisecond"
  "unmarshal_pub demo_Y [0] = Inr (PubKey (Suc 0))" "pub_equals demo_Y = (=)"
  by (simp_all add: demo_externals_def demo_pub_def)

lemma demo_peers_inv: "peers_inv demo_Y demo_nw"
  by (auto simp: peers_inv_def split: if_splits)

section \<open>Peers\<close>

theorem message_delivery_checked_witness:
  "\<exists>p'. peers (snd (ProcessNodePubsubMessage demo_Y demo_store (chain_handler demo_Y demo_chain ''u'') 0
     (PeerID ''p'') demo_pubsub demo_nw)) = (peers demo_nw)(PeerID ''p'' \<mapsto> p')"
  using message_delivery_checked [OF pair_run demo_peers_inv, where ps = demo_store and c = demo_chain and uid = "''u''" and now = 0 and pid = "PeerID ''p''" and msg = demo_pubsub and p = demo_peer]
  by auto

lemma demo_authentic: "authentic demo_Y demo_store demo_env1 demo_peer demo_pubsub (demo_message VOTE 5)"
proof -
  have "follow_node_message demo_Y demo_env1 (demo_ref 60) c [] = Inr (demo_message VOTE 5)" for c
    by (simp add: demo_externals_def demo_env1_def lookup_ref_def demo_ref_def)
  then show ?thesis
    by (simp add: authentic_def demo_pubsub_def enc_config_defs nonce_of_digest_def demo_ref_def demo_message_def)
qed

lemma demo_acceptable: "acceptable demo_Y demo_store (6 * second) demo_peer (demo_message VOTE 5)"
  by (simp add: acceptable_def demo_store_def NewPeerStore_def demo_message_def demo_ref_def peer_time_def)

theorem acceptable_message_delivered_witness:
  "\<exists>w' p'. ProcessNodePubsubMessage demo_Y demo_store (chain_handler demo_Y demo_chain ''u'') (6 * second)
     (PeerID ''p'') demo_pubsub demo_nw = (Ok (), w') \<and> peers w' (PeerID ''p'') = Some p' \<and>
     LastObservedMessage (p_state p') = Some (demo_message VOTE 5)"
proof -
  have "nm_PubKey (demo_message VOTE 5) \<noteq> []" "GetObjectDigest (pm_NodeMessageRef demo_pubsub) \<noteq> []"
    "nm_MessageType (demo_message VOTE 5) \<noteq> BLOCK_COMMIT"
    by (simp_all add: demo_message_def demo_pubsub_def demo_ref_def)
  then show ?thesis
    using acceptable_message_delivered [of demo_Y demo_store demo_nw demo_peer demo_pubsub "demo_message VOTE 5" "6 * second" "PeerID ''p''"]
      demo_authentic demo_acceptable demo_peers_inv by fastforce
qed

theorem peer_time_monotone_witness:
  "peers_inv demo_Y (snd (ProcessNodePubsubMessage demo_Y demo_store (chain_handler demo_Y demo_chain ''u'') 0
     (PeerID ''p'') demo_pubsub demo_nw))"
  using peer_time_monotone [OF pair_run demo_peers_inv, where ps = demo_store and c = demo_chain and uid = "''u''" and now = 0 and pid = "PeerID ''p''" and msg = demo_pubsub and p = demo_peer]
  by simp

theorem future_message_locks_out_witness:
  "\<exists>e. fst (processIncomingNodeMessage demo_Y demo_store (chain_handler demo_Y demo_chain ''u'') 0
     demo_peer (demo_message VOTE 5) demo_nw) = Err e"
proof -
  have "admissible demo_Y demo_store demo_peer (demo_message VOTE 5)"
    using demo_acceptable by (rule acceptable_admissible)
  moreover have "0 < ts_to_time demo_Y (nm_Timestamp (demo_message VOTE 5))" by (simp add: demo_message_def)
  moreover have "peers demo_nw (p_peerID demo_peer) = Some demo_peer" by simp
  ultimately show ?thesis by (rule future_message_locks_out [OF _ _ _ pair_run, THEN conjunct1])
qed

lemma demo_get_peer: "GetPeerWithPubKey demo_Y demo_store (PubKey 1) demo_nw = (Ok (PeerID ''p''), demo_nw)"
  by (simp add: GetPeerWithPubKey_def GetPeer_def gbind_def Let_def)

theorem peer_store_singleton_witness:
  "\<exists>p. peers demo_nw = (peers demo_nw)(PeerID ''p'' \<mapsto> p)"
  using peer_store_singleton [OF demo_get_peer demo_peers_inv] by blast

section \<open>The proposer\<close>

definition demo_proposer :: proposer where
  "demo_proposer = \<lparr>pr_dbm = [''/d'', ''/proposer/p''], pr_privKey = PrivKey 1, pr_validatorID = PeerID ''p'',
     pr_pubKeyBytes = [0]\<rparr>"

text \<open>The snapshot of a height and round after block zero, with the given proposer key.\<close>

definition demo_snap :: "bytes \<Rightarrow> nat \<Rightarrow> nat \<Rightarrow> snapshot" where
  "demo_snap k h r = \<lparr>sn_Context = 0, sn_RoundStarted = True, sn_BlockRoundInfo = demo_info h r,
     sn_LastBlockHeader = Some (demo_header 0), sn_LastBlockRef = demo_ref 10,
     sn_CurrentProposer = Some \<lparr>val_PubKey = k, val_VotingPower = 10, val_OperationMode = OPERATING\<rparr>,
     sn_RoundEndTime = 9 * second, sn_RoundStartTime = second, sn_NextRoundStartTime = 9 * second,
     sn_TotalVotingPower = 10, sn_ChainConfig = demo_config, sn_ValidatorSet = demo_vset\<rparr>"

definition demo_bp :: "demo_env block_proposer option" where
  "demo_bp = Some (\<lambda>b s e. (Inr (demo_ref 50), e))"

definition demo_node :: node where
  "demo_node = \<lparr>n_db = [''/d'', ''/node/p''], n_privKey = PrivKey 1, n_pubKeyBytes = [0], n_nodeAddr = PeerID ''p''\<rparr>"

abbreviation demo_send :: "demo_env node_world sender" where
  "demo_send \<equiv> SendMessage demo_chain demo_node (\<lambda>w. \<lparr>TimeUnixMs = 6000\<rparr>) (\<lambda>w. None)"

definition demo_confirmed :: confirmedVote where
  "demo_confirmed = \<lparr>cv_peer = PeerID ''p'', cv_vote = \<lparr>vote_BlockHeaderRef = demo_ref 21\<rparr>,
     cv_voteRef = demo_ref 41, cv_power = 10\<rparr>"


text \<open>Three validators of power ten have all voted, nineteen are required, and nothing is committed.\<close>

theorem commit_on_single_vote_witness:
  "proposer_run demo_Y demo_chain demo_store demo_send demo_bp demo_proposer
     (map VoteConfirmed [demo_confirmed, demo_confirmed, demo_confirmed])
     (Collecting (demo_ref 21) (requiredVotingPower 30) []) demo_nw =
   (Ok (Collecting (demo_ref 21) (requiredVotingPower 30) [demo_ref 41, demo_ref 41, demo_ref 41]), demo_nw)"
proof -
  have "\<forall>cv\<in>set [demo_confirmed, demo_confirmed, demo_confirmed]. i32 (cv_power cv) < requiredVotingPower 30"
    by code_simp
  from commit_on_single_vote [OF this, of demo_Y demo_chain demo_store demo_send demo_bp demo_proposer "demo_ref 21" demo_nw]
  show ?thesis by (simp add: demo_confirmed_def)
qed

definition demo_waiter :: vote_waiter where
  "demo_waiter = \<lparr>vw_peer = PeerID ''p'', vw_sub = 1, vw_power = 10\<rparr>"

theorem vote_counted_for_any_header_witness:
  "\<exists>w'. waitForValidatorVote demo_Y demo_chain (demo_ref 99) demo_waiter [demo_message APP 4, demo_message VOTE 5] demo_nw =
     (Ok (Some demo_confirmed), w')"
proof -
  obtain conf where conf: "GetBlockEncryptionConfigWithDigest (c_encStrat demo_chain) (GetObjectDigest (demo_ref 41)) = Ok conf"
    using block_config_long_digest [of "GetObjectDigest (demo_ref 41)" "c_encStrat demo_chain"] by (auto simp: demo_ref_def)
  have vote: "follow_vote demo_Y demo_env1 (demo_ref 41) c d = Inr \<lparr>vote_BlockHeaderRef = demo_ref 21\<rparr>" for c d
    by (simp add: demo_externals_def demo_env1_def lookup_ref_def demo_ref_def)
  have "nm_InnerRef (demo_message VOTE 5) = demo_ref 41" "nm_MessageType (demo_message t s) = t" for t s
    by (simp_all add: demo_message_def)
  then show ?thesis
    using vote_counted_for_any_header [of "[demo_message APP 4]" "demo_message VOTE 5" demo_chain conf demo_Y demo_nw
        "\<lparr>vote_BlockHeaderRef = demo_ref 21\<rparr>" "demo_ref 99" demo_waiter "[]"] conf vote
    by (simp add: demo_waiter_def demo_confirmed_def)
qed

theorem short_vote_reference_panics_witness:
  "fst (waitForValidatorVote demo_Y demo_chain (demo_ref 21) demo_waiter
     [(demo_message VOTE 5)\<lparr>nm_InnerRef := None\<rparr>] demo_nw) = Panic"
  by (rule short_vote_reference_panics) (simp_all add: demo_message_def)

lemma demo_new_proposer: "NewProposer demo_Y (PrivKey 1) [''/d''] True demo_nw =
    (Ok demo_proposer, snd (NewProposer demo_Y (PrivKey 1) [''/d''] True demo_nw))"
  by (rule prod_eqI) (simp_all, code_simp)

definition demo_rec :: "demo_env node_world" where
  "demo_rec = snd (recordProposal demo_Y demo_proposer (demo_snap [0] 1 0) demo_nw)"

lemma demo_record: "recordProposal demo_Y demo_proposer (demo_snap [0] 1 0) demo_nw = (Ok True, demo_rec)"
  unfolding demo_rec_def by (rule prod_eqI) (simp_all, code_simp)

lemma demo_restart: "NewProposer demo_Y (PrivKey 1) [''/d''] True demo_rec =
    (Ok demo_proposer, snd (NewProposer demo_Y (PrivKey 1) [''/d''] True demo_rec))"
  by (rule prod_eqI) (simp_all, code_simp)

theorem proposal_survives_restart_witness:
  "ps_LastProposal (pr_state (snd (NewProposer demo_Y (PrivKey 1) [''/d''] True demo_rec))) = Some (demo_info 1 0)"
  using proposal_survives_restart [OF demo_db_ok demo_codecs_ok(4) demo_new_proposer demo_record demo_restart refl]
  by (simp add: demo_snap_def)

lemma demo_should_propose: "shouldPropose demo_proposer (pr_state demo_nw) (demo_snap [0] 1 0)"
  by code_simp

text \<open>The proposer's node adopts the genesis block and announces its own key two seconds after it; a node of the same view
  accepts its proposal.\<close>

abbreviation "demo_parent \<equiv> demo_obj 0 (demo_bstate ''s'' None)"








definition demo_ph :: "proposer_phase \<times> demo_env node_world" where
  "demo_ph = (Collecting (demo_ref 123) 6 [], snd (handleState demo_Y demo_chain demo_store demo_send demo_bp
     demo_proposer (demo_snap [0] 1 0) \<lparr>TimeUnixMs = 2000\<rparr> demo_nw))"

lemma demo_handle: "handleState demo_Y demo_chain demo_store demo_send demo_bp demo_proposer (demo_snap [0] 1 0)
    \<lparr>TimeUnixMs = 2000\<rparr> demo_nw = (Ok (fst demo_ph), snd demo_ph)"
  unfolding demo_ph_def by (rule prod_eqI) (simp_all, code_simp)

theorem no_equivocation_proposer_witness:
  "handleState demo_Y demo_chain demo_store demo_send demo_bp demo_proposer (demo_snap [0] 1 0) \<lparr>TimeUnixMs = 3000\<rparr> (snd demo_ph) =
     (Ok Idle, snd demo_ph)"
  using no_equivocation_proposer [OF demo_should_propose demo_handle, of "[]" "Ok (fst demo_ph)" "snd demo_ph" "demo_snap [0] 1 0"]
  by (simp add: round_lt_def demo_info_def)

section \<open>The validator\<close>

definition demo_validator_actor :: validator_actor where
  "demo_validator_actor = \<lparr>va_dbm = [''/d'', ''/validator/pp''], va_privKey = PrivKey 2, va_pubKeyBytes = [0, 0]\<rparr>"

definition demo_recv :: deliveries where
  "demo_recv pid sub = (if pid = PeerID ''p'' \<and> sub = 2 then [demo_message APP 4, demo_message VOTE 5] else [])"

lemma demo_vote: "Validator_makeVote demo_Y demo_chain demo_store demo_send demo_validator_actor demo_recv
    (demo_snap [0] 1 0) (the (sn_CurrentProposer (demo_snap [0] 1 0))) demo_nw =
  (Ok (Some (demo_ref 141)), snd (Validator_makeVote demo_Y demo_chain demo_store demo_send demo_validator_actor
     demo_recv (demo_snap [0] 1 0) (the (sn_CurrentProposer (demo_snap [0] 1 0))) demo_nw))"
  by (rule prod_eqI) (simp_all, code_simp)

theorem vote_matches_snapshot_witness:
  "\<exists>msg ref. msg \<in> {demo_message APP 4, demo_message VOTE 5} \<and>
     matching_proposal demo_Y demo_chain demo_env1 (demo_snap [0] 1 0) msg ref"
proof -
  have "set (demo_recv pid sub) \<subseteq> {demo_message APP 4, demo_message VOTE 5}" for pid sub by (auto simp: demo_recv_def)
  with vote_matches_snapshot [OF demo_vote] show ?thesis by fastforce
qed

theorem validator_abstains_at_next_height_witness:
  "processStateSnapshot demo_Y demo_chain demo_store demo_send demo_validator_actor (5 * second) (\<lambda>_ _. []) (demo_snap [0] 2 3)
     (demo_nw\<lparr>va_state := \<lparr>vs_LastVote = Some (demo_info 1 3)\<rparr>\<rparr>) =
   (Ok (), demo_nw\<lparr>va_state := \<lparr>vs_LastVote = Some (demo_info 1 3)\<rparr>\<rparr>)"
proof -
  have "Height (demo_info 1 3) < Height (sn_BlockRoundInfo (demo_snap [0] 2 3))"
    "Round (sn_BlockRoundInfo (demo_snap [0] 2 3)) \<le> Round (demo_info 1 3)" by code_simp+
  moreover have "vs_LastVote (va_state (demo_nw\<lparr>va_state := \<lparr>vs_LastVote = Some (demo_info 1 3)\<rparr>\<rparr>)) = Some (demo_info 1 3)"
    by simp
  ultimately show ?thesis by (rule validator_abstains_at_next_height [THEN conjunct1, rotated])
qed

abbreviation demo_process :: "demo_env node_world \<Rightarrow> unit res \<times> demo_env node_world" where
  "demo_process \<equiv> processStateSnapshot demo_Y demo_chain demo_store demo_send demo_validator_actor (5 * second) (\<lambda>_ _. []) (demo_snap [0] 1 0)"

theorem no_equivocation_validator_witness:
  "demo_process (snd (demo_process demo_nw)) = (Ok (), snd (demo_process demo_nw))"
proof -
  have "shouldVote (va_state demo_nw) (5 * second) (demo_snap [0] 1 0)" by code_simp
  moreover have "ManageValidator demo_Y demo_chain demo_store demo_send demo_validator_actor [] w = (Ok (), w)" for w
    by simp
  moreover have "\<not> (Height (sn_BlockRoundInfo (demo_snap [0] 1 0)) \<le> Height (sn_BlockRoundInfo (demo_snap [0] 1 0)) \<and>
      Round (sn_BlockRoundInfo (demo_snap [0] 1 0)) < Round (sn_BlockRoundInfo (demo_snap [0] 1 0)))" by simp
  ultimately show ?thesis by (rule no_equivocation_validator [OF _ pair_run])
qed

section \<open>The node\<close>

lemma demo_network_ok: "network_ok (demo_externals T)"
  by (simp add: network_ok_def demo_externals_def lookup_ref_def Let_def)

lemma demo_keys_ok: "keys_ok (demo_externals T)"
  by (auto simp: keys_ok_def demo_externals_def demo_pub_def split: pub_key.splits peer_id.splits)

definition demo_sent :: "demo_env node_world" where
  "demo_sent = snd (pubsubSendMsg demo_Y demo_chain demo_node \<lparr>TimeUnixMs = 6000\<rparr> (demo_message VOTE 5)
     (demo_nw\<lparr>ext := demo_env1\<lparr>env_messages := []\<rparr>\<rparr>))"

abbreviation demo_sender :: "demo_env node_world" where
  "demo_sender \<equiv> demo_nw\<lparr>ext := demo_env1\<lparr>env_messages := []\<rparr>\<rparr>"

lemma demo_send_run: "pubsubSendMsg demo_Y demo_chain demo_node \<lparr>TimeUnixMs = 6000\<rparr> (demo_message VOTE 5) demo_sender =
    (Ok (), demo_sent)"
  unfolding demo_sent_def by (rule prod_eqI) (simp_all, code_simp)

theorem messages_linked_witness:
  "\<exists>ref. Node_readState demo_Y demo_node demo_sent = (Ok (), demo_sent\<lparr>n_state := \<lparr>ns_LastMsgRef = ref\<rparr>\<rparr>)"
  using messages_linked [OF demo_network_ok demo_db_ok demo_codecs_ok(7) demo_send_run refl] by blast

abbreviation demo_receiver :: "demo_env node_world" where
  "demo_receiver \<equiv> demo_nw\<lparr>ext := ext demo_sent\<rparr>"

theorem sent_message_delivered_witness:
  "\<exists>txt v' p'. processPubSub_record demo_Y demo_store (chain_handler demo_Y demo_chain ''u'') (7 * second) txt demo_receiver = (Ok (), v') \<and>
     peers v' (PeerID ''p'') = Some p' \<and>
     (\<exists>old. p_msgSubs p' 1 = Some (old @ [linked_message demo_sender \<lparr>TimeUnixMs = 6000\<rparr> (demo_message VOTE 5)]))"
proof -
  have key: "pub_bytes demo_Y (priv_public demo_Y (n_privKey demo_node)) = Inr (n_pubKeyBytes demo_node)" "n_pubKeyBytes demo_node \<noteq> []"
    and msg: "nm_PubKey (demo_message VOTE 5) = n_pubKeyBytes demo_node" "nm_MessageType (demo_message VOTE 5) \<noteq> BLOCK_COMMIT"
    by (simp_all add: demo_externals_def demo_node_def demo_message_def demo_pub_def)
  have inv: "peers_inv demo_Y demo_receiver" using demo_peers_inv by (simp add: peers_inv_def)
  have peer: "peers demo_receiver (n_nodeAddr demo_node) = Some demo_peer"
    "p_pubKey demo_peer = priv_public demo_Y (n_privKey demo_node)"
    "ps_encStrat demo_store = c_encStrat demo_chain" "ext demo_receiver = ext demo_sent"
    by (simp_all add: demo_node_def demo_externals_def demo_store_def NewPeerStore_def demo_chain_def)
  have acc: "acceptable demo_Y demo_store (7 * second) demo_peer (linked_message demo_sender \<lparr>TimeUnixMs = 6000\<rparr> (demo_message VOTE 5))"
    by (simp add: acceptable_def demo_store_def NewPeerStore_def demo_message_def demo_ref_def peer_time_def linked_message_def)
  show ?thesis
    using sent_message_delivered [OF demo_network_ok demo_keys_ok demo_codecs_ok(8) key msg demo_send_run inv peer acc,
        of "chain_handler demo_Y demo_chain ''u''"]
    by (fastforce simp: demo_node_def)
qed

lemma demo_new_node: "\<exists>r w'. NewNode demo_Y [''/d''] True demo_chain (PrivKey 1) (Inr ()) demo_nw = (Ok r, w')"
proof -
  have "case fst (NewNode demo_Y [''/d''] True demo_chain (PrivKey 1) (Inr ()) demo_nw) of Ok _ \<Rightarrow> True | _ \<Rightarrow> False"
    by code_simp
  then show ?thesis
    by (cases "NewNode demo_Y [''/d''] True demo_chain (PrivKey 1) (Inr ()) demo_nw") (auto split: res.splits)
qed

theorem started_node_knows_validators_witness:
  "\<exists>w'. snd (NewNode demo_Y [''/d''] True demo_chain (PrivKey 1) (Inr ()) demo_nw) = w' \<and> peers_inv demo_Y w'"
proof -
  obtain n ps pr va w' where "NewNode demo_Y [''/d''] True demo_chain (PrivKey 1) (Inr ()) demo_nw = (Ok (n, ps, pr, va), w')"
    using demo_new_node by auto
  from started_node_knows_validators [OF this] this show ?thesis by simp
qed

end
