(* ===== verification/Sha1.thy ===== *)
theory Sha1
  imports GoLib
begin

text \<open>
  The parts of Go's \<^verbatim>\<open>crypto/sha1\<close> and \<^verbatim>\<open>encoding/binary\<close> that transaction identifiers rest on: the
  SHA-1 digest of a byte string and the little-endian encoding of a 64-bit number.
\<close>

unbundle bit_operations_syntax

definition le64 :: "u64 \<Rightarrow> bytes" where
  "le64 x = map (\<lambda>i. ucast (drop_bit (8 * i) x)) [0..<8]"

definition be64 :: "u64 \<Rightarrow> bytes" where
  "be64 x = rev (le64 x)"

definition be32 :: "u32 \<Rightarrow> bytes" where
  "be32 x = map (\<lambda>i. ucast (drop_bit (8 * i) x)) [3, 2, 1, 0]"

definition rotl32 :: "nat \<Rightarrow> u32 \<Rightarrow> u32" where
  "rotl32 n x = push_bit n x OR drop_bit (32 - n) x"

definition sha1_pad :: "bytes \<Rightarrow> bytes" where
  "sha1_pad msg = msg @ [0x80] @ replicate ((119 - length msg mod 64) mod 64) 0 @ be64 (8 * of_nat (length msg))"

fun words_be :: "bytes \<Rightarrow> u32 list" where
  "words_be (a # b # c # d # bs) =
     (push_bit 24 (ucast a) OR push_bit 16 (ucast b) OR push_bit 8 (ucast c) OR ucast d) # words_be bs"
| "words_be _ = []"

text \<open>The schedule is kept newest word first.\<close>

fun sha1_expand :: "nat \<Rightarrow> u32 list \<Rightarrow> u32 list" where
  "sha1_expand 0 ws = ws"
| "sha1_expand (Suc n) ws =
     sha1_expand n (rotl32 1 (ws ! 2 XOR ws ! 7 XOR ws ! 13 XOR ws ! 15) # ws)"

type_synonym sha1_state = "u32 \<times> u32 \<times> u32 \<times> u32 \<times> u32"

definition sha1_round :: "nat \<Rightarrow> u32 \<Rightarrow> sha1_state \<Rightarrow> sha1_state" where
  "sha1_round t w = (\<lambda>(a, b, c, d, e).
     let (f, k) = (if t < 20 then ((b AND c) OR (NOT b AND d), 0x5A827999)
           else if t < 40 then (b XOR c XOR d, 0x6ED9EBA1)
           else if t < 60 then (((b OR c) AND d) OR (b AND c), 0x8F1BBCDC)
           else (b XOR c XOR d, 0xCA62C1D6)) in
     (rotl32 5 a + f + e + w + k, a, rotl32 30 b, c, d))"

fun sha1_rounds :: "nat \<Rightarrow> u32 list \<Rightarrow> sha1_state \<Rightarrow> sha1_state" where
  "sha1_rounds t [] s = s"
| "sha1_rounds t (w # ws) s = sha1_rounds (Suc t) ws (sha1_round t w s)"

definition sha1_block :: "bytes \<Rightarrow> sha1_state \<Rightarrow> sha1_state" where
  "sha1_block blk = (\<lambda>(h0, h1, h2, h3, h4).
     case sha1_rounds 0 (rev (sha1_expand 64 (rev (words_be blk)))) (h0, h1, h2, h3, h4) of
       (a, b, c, d, e) \<Rightarrow> (h0 + a, h1 + b, h2 + c, h3 + d, h4 + e))"

fun sha1_blocks :: "nat \<Rightarrow> bytes \<Rightarrow> sha1_state \<Rightarrow> sha1_state" where
  "sha1_blocks 0 bs s = s"
| "sha1_blocks (Suc n) bs s = sha1_blocks n (drop 64 bs) (sha1_block (take 64 bs) s)"

definition sha1_sum :: "bytes \<Rightarrow> bytes" where
  "sha1_sum msg =
     (let bs = sha1_pad msg in
      case sha1_blocks (length bs div 64) bs (0x67452301, 0xEFCDAB89, 0x98BADCFE, 0x10325476, 0xC3D2E1F0) of
        (a, b, c, d, e) \<Rightarrow> be32 a @ be32 b @ be32 c @ be32 d @ be32 e)"

lemma sha1_sum_length [simp]: "length (sha1_sum msg) = 20"
  by (simp add: sha1_sum_def be32_def Let_def split: prod.splits)

lemma sha1_pad_length: "64 dvd length (sha1_pad msg)"
proof -
  define q where "q = length msg div 64"
  define r where "r = length msg mod 64"
  have len: "length msg = 64 * q + r" and r: "r < 64" by (simp_all add: q_def r_def)
  have pad: "length (sha1_pad msg) = 64 * q + r + 1 + (119 - r) mod 64 + 8"
    by (simp add: sha1_pad_def be64_def le64_def r_def q_def)
  show ?thesis
  proof (cases "r \<le> 55")
    case True
    then have "119 - r = 64 + (55 - r)" by simp
    then have "(119 - r) mod 64 = (55 - r) mod 64" by (simp only: mod_add_self1)
    then have "(119 - r) mod 64 = 55 - r" by simp
    with pad True have "length (sha1_pad msg) = 64 * (q + 1)" by simp
    then show ?thesis by (metis dvd_triv_left)
  next
    case False
    with r have "(119 - r) mod 64 = 119 - r" by simp
    with pad False r have "length (sha1_pad msg) = 64 * (q + 2)" by simp
    then show ?thesis by (metis dvd_triv_left)
  qed
qed

end
