(* ===== verification/Transactions.thy ===== *)
theory Transactions
  imports Encryption Sha1
begin

text \<open>
  Packages \<^verbatim>\<open>utils/transaction\<close>, \<^verbatim>\<open>utils/transaction/txdb\<close> and \<^verbatim>\<open>utils/dbcontainer\<close>: transactions carried
  by node messages, their identifiers, the database that maps an identifier to the reference of its
  message, and containers that are saved to a database key.

  The application message identifier of a transaction is a checksum computed by \<^verbatim>\<open>pbobject\<close>; it is the
  argument \<open>txMsgID\<close>. The encryption configuration carried by a context is the argument \<open>ctxConf\<close>.
\<close>

section \<open>Transactions\<close>

record transaction =
  tx_id :: string
  tx_nodeMessage :: node_message
  tx_nodeMessageRef :: sref
  tx_innerRef :: sref

definition GetTimeUnixMs :: "timestamp option \<Rightarrow> u64" where
  "GetTimeUnixMs t = (case t of None \<Rightarrow> 0 | Some x \<Rightarrow> TimeUnixMs x)"

definition SetNodeMessageRef :: "sref \<Rightarrow> transaction \<Rightarrow> transaction" where
  "SetNodeMessageRef r t = t\<lparr>tx_nodeMessageRef := r\<rparr>"

text \<open>\<open>strings.ToLower\<close> on ASCII.\<close>

definition ToLower :: "string \<Rightarrow> string" where
  "ToLower = map (\<lambda>c. if 65 \<le> (of_char c :: nat) \<and> (of_char c :: nat) \<le> 90
     then char_of ((of_char c :: nat) + 32) else c)"

text \<open>When the key cannot be encoded the function returns the empty identifier and no error.\<close>

definition ComputeTxID ::
  "('e, 'x) externals_scheme \<Rightarrow> timestamp option \<Rightarrow> pub_key \<Rightarrow> string res" where
  "ComputeTxID X messageTimestamp nodeKey =
     (let unixMs = GetTimeUnixMs messageTimestamp in
      case pub_bytes X nodeKey of
        Inl _ \<Rightarrow> Ok ''''
      | Inr keyBytes \<Rightarrow> Ok (ToLower (hex_encode (sha1_sum (le64 unixMs @ keyBytes)))))"

definition FromNodeMessage ::
  "('e, 'x) externals_scheme \<Rightarrow> u32 \<Rightarrow> node_message \<Rightarrow> transaction res" where
  "FromNodeMessage X txMsgID nodeMessage =
     rbind (res_of (unmarshal_pub X (nm_PubKey nodeMessage))) (\<lambda>nodeKey.
     if nm_MessageType nodeMessage \<noteq> APP then
       Err (Errorf ''expected app node message type for transaction'')
     else if nm_AppMessageType nodeMessage \<noteq> txMsgID then
       Err (Errorf ''expected transaction app message id %d for tx, given: %d'')
     else if GetTimeUnixMs (nm_Timestamp nodeMessage) = 0 then
       Err (Errorf ''expected timestamped nodemessage for transaction'')
     else
     rbind (ComputeTxID X (nm_Timestamp nodeMessage) nodeKey) (\<lambda>tid.
     Ok \<lparr>tx_id = tid, tx_nodeMessage = nodeMessage, tx_nodeMessageRef = None,
         tx_innerRef = nm_InnerRef nodeMessage\<rparr>))"

section \<open>The transaction database\<close>

record tx_info =
  ti_NodeMessageRef :: sref

definition getIDKey :: "string \<Rightarrow> string" where
  "getIDKey txID = ''/'' @ txID"

definition getEntry ::
  "('e, 'x) externals_scheme \<Rightarrow> tx_info codec \<Rightarrow> db_view \<Rightarrow> string \<Rightarrow> (('e, 'z) world_scheme, tx_info option) go" where
  "getEntry X pb h txID =
     (if txID = '''' then gret None
      else
      gbind (gext (\<lambda>e. db_get X e h (getIDKey txID))) (\<lambda>d.
      case d of
        None \<Rightarrow> gret None
      | Some bs \<Rightarrow> gbind (gres (res_of (unmarshal pb bs))) (\<lambda>entry. gret (Some entry))))"

definition setEntry ::
  "('e, 'x) externals_scheme \<Rightarrow> tx_info codec \<Rightarrow> db_view \<Rightarrow> string \<Rightarrow> tx_info \<Rightarrow> (('e, 'z) world_scheme, unit) go" where
  "setEntry X pb h txID entry = write_slot X pb h (getIDKey txID) entry"

definition TxDb_Get ::
  "('e, 'x) externals_scheme \<Rightarrow> tx_info codec \<Rightarrow> db_view \<Rightarrow> string \<Rightarrow> (('e, 'z) world_scheme, tx_info option) go" where
  "TxDb_Get X pb h txID = getEntry X pb h txID"

text \<open>A transaction that is not in the database is returned as nil, without an error.\<close>

definition GetTx ::
  "('e, 'x) externals_scheme \<Rightarrow> tx_info codec \<Rightarrow> u32 \<Rightarrow> enc_conf option \<Rightarrow> db_view \<Rightarrow> string \<Rightarrow>
     (('e, 'z) world_scheme, transaction option) go" where
  "GetTx X pb txMsgID ctxConf h txID =
     gbind (getEntry X pb h txID) (\<lambda>info.
     case info of
       None \<Rightarrow> gret None
     | Some i \<Rightarrow>
         let nmRef = ti_NodeMessageRef i in
         gbind (gext (\<lambda>e. follow_node_message X e nmRef ctxConf [])) (\<lambda>nm.
         gbind (gres (FromNodeMessage X txMsgID nm)) (\<lambda>tx.
         gret (Some (SetNodeMessageRef nmRef tx)))))"

definition TxDb_Put ::
  "('e, 'x) externals_scheme \<Rightarrow> tx_info codec \<Rightarrow> db_view \<Rightarrow> string \<Rightarrow> sref \<Rightarrow> (('e, 'z) world_scheme, unit) go" where
  "TxDb_Put X pb h txID nodeMessageRef =
     write_slot X pb h (getIDKey txID) \<lparr>ti_NodeMessageRef = nodeMessageRef\<rparr>"

section \<open>Containers saved to a database\<close>

text \<open>The container is any type with a JSON codec.\<close>

record 'c db_container =
  dc_Container :: 'c
  dc_db :: db_view
  dc_dbKey :: string

definition NewDbContainer :: "db_view \<Rightarrow> string \<Rightarrow> 'c \<Rightarrow> 'c db_container" where
  "NewDbContainer parentDB containerID container =
     \<lparr>dc_Container = container, dc_db = parentDB, dc_dbKey = ''/dbcontainer/'' @ containerID\<rparr>"

definition DbContainer_WriteState ::
  "('e, 'x) externals_scheme \<Rightarrow> 'c codec \<Rightarrow> 'c db_container \<Rightarrow> (('e, 'z) world_scheme, unit) go" where
  "DbContainer_WriteState X json d = write_slot X json (dc_db d) (dc_dbKey d) (dc_Container d)"

definition DbContainer_ReadState ::
  "('e, 'x) externals_scheme \<Rightarrow> 'c codec \<Rightarrow> 'c db_container \<Rightarrow> (('e, 'z) world_scheme, 'c db_container) go" where
  "DbContainer_ReadState X json d =
     gbind (read_slot X json (dc_db d) (dc_dbKey d) (dc_Container d)) (\<lambda>v. gret (d\<lparr>dc_Container := v\<rparr>))"

interpretation container_slot: persisted
  "\<lambda>(X, json, d). db_ok X \<and> codec_ok json"
  "\<lambda>(X, json, d) v. DbContainer_WriteState X json (d\<lparr>dc_Container := v\<rparr>)"
  "\<lambda>(X, json, d) v. gbind (DbContainer_ReadState X json (d\<lparr>dc_Container := v\<rparr>)) (\<lambda>d'. gret (dc_Container d'))"
proof (unfold_locales, goal_cases)
  case (1 p x s s' y)
  then show ?case
    by (auto simp: DbContainer_WriteState_def DbContainer_ReadState_def gbind_def read_after_write
        split: prod.splits)
next
  case (2 p y s)
  show ?case
    by (auto simp: DbContainer_ReadState_def split: prod.splits intro!: keeps_all_snd keeps_intros)
qed

section \<open>Properties\<close>

lemma ToLower_digit: "n < 16 \<Longrightarrow> ToLower [hex_digit n] = [hex_digit n]"
  by (simp add: ToLower_def of_char_hex_digit)

lemma ToLower_append: "ToLower (xs @ ys) = ToLower xs @ ToLower ys"
  by (simp add: ToLower_def)

lemma ToLower_hex: "ToLower (hex_encode bs) = hex_encode bs"
proof (induction bs)
  case (Cons b bs)
  have "unat b div 16 < 16" "unat b mod 16 < 16" using unat_byte_bound [of b] by auto
  then show ?case
    using Cons ToLower_append [of "[hex_digit (unat b div 16)]" "[hex_digit (unat b mod 16)]"]
      ToLower_append [of "[hex_digit (unat b div 16), hex_digit (unat b mod 16)]" "hex_encode bs"]
    by (simp add: ToLower_digit)
qed (simp add: ToLower_def)

lemma length_hex: "length (hex_encode bs) = 2 * length bs"
  by (induction bs) simp_all

lemma ComputeTxID_eq:
  "pub_bytes X k = Inr kb \<Longrightarrow> ComputeTxID X ts k = Ok (hex_encode (sha1_sum (le64 (GetTimeUnixMs ts) @ kb)))"
  by (simp add: ComputeTxID_def ToLower_hex)

lemma FromNodeMessage_Ok:
  "FromNodeMessage X txMsgID nm = Ok tx \<longleftrightarrow>
     nm_MessageType nm = APP \<and> nm_AppMessageType nm = txMsgID \<and> GetTimeUnixMs (nm_Timestamp nm) \<noteq> 0 \<and>
     (\<exists>k. unmarshal_pub X (nm_PubKey nm) = Inr k \<and>
        tx = \<lparr>tx_id = (case pub_bytes X k of Inl _ \<Rightarrow> '''' | Inr kb \<Rightarrow> hex_encode (sha1_sum (le64 (GetTimeUnixMs (nm_Timestamp nm)) @ kb))),
          tx_nodeMessage = nm, tx_nodeMessageRef = None, tx_innerRef = nm_InnerRef nm\<rparr>)"
  by (cases "unmarshal_pub X (nm_PubKey nm)")
     (auto simp: FromNodeMessage_def ComputeTxID_def ToLower_hex split: sum.splits)

definition hex_digits :: string where
  "hex_digits = ''0123456789abcdef''"

text \<open>
  The transactions the program works with: built from an application message of the right type that has a
  timestamp, with the identifier computed from the message, which is 40 lower-case hexadecimal digits unless
  the key of the message has no encoding.
\<close>

definition tx_wf :: "('e, 'x) externals_scheme \<Rightarrow> u32 \<Rightarrow> transaction \<Rightarrow> bool" where
  "tx_wf X txMsgID tx \<longleftrightarrow>
     (let nm = tx_nodeMessage tx in
      nm_MessageType nm = APP \<and> nm_AppMessageType nm = txMsgID \<and> GetTimeUnixMs (nm_Timestamp nm) \<noteq> 0 \<and>
      tx_innerRef tx = nm_InnerRef nm \<and>
      (\<exists>k. unmarshal_pub X (nm_PubKey nm) = Inr k \<and> ComputeTxID X (nm_Timestamp nm) k = Ok (tx_id tx)) \<and>
      (tx_id tx = '''' \<or> length (tx_id tx) = 40 \<and> set (tx_id tx) \<subseteq> set hex_digits))"

lemma hex_digit_mem:
  assumes "n < 16"
  shows "hex_digit n \<in> set hex_digits"
proof -
  have "\<forall>n\<in>set [0..<16]. hex_digit n \<in> set hex_digits" by code_simp
  moreover have "n \<in> set [0..<16]" using assms by simp
  ultimately show ?thesis by blast
qed

lemma set_hex_encode: "set (hex_encode bs) \<subseteq> set hex_digits"
proof (induction bs)
  case (Cons b bs)
  have "unat b div 16 < 16" "unat b mod 16 < 16" using unat_byte_bound [of b] by auto
  from this [THEN hex_digit_mem] Cons show ?case unfolding hex_encode.simps list.set(2) by blast
qed simp

lemma ComputeTxID_digits:
  assumes "ComputeTxID X ts k = Ok i"
  shows "i = '''' \<or> length i = 40 \<and> set i \<subseteq> set hex_digits"
proof (cases "pub_bytes X k")
  case (Inr kb)
  with assms have i: "i = hex_encode (sha1_sum (le64 (GetTimeUnixMs ts) @ kb))" by (simp add: ComputeTxID_eq)
  then have "length i = 40" by (simp add: length_hex)
  with i set_hex_encode show ?thesis by blast
qed (use assms in \<open>simp add: ComputeTxID_def\<close>)

lemma FromNodeMessage_wf: "FromNodeMessage X i nm = Ok tx \<Longrightarrow> tx_wf X i tx"
proof -
  assume ok: "FromNodeMessage X i nm = Ok tx"
  then obtain k where k: "unmarshal_pub X (nm_PubKey nm) = Inr k" "ComputeTxID X (nm_Timestamp nm) k = Ok (tx_id tx)"
    by (auto simp: FromNodeMessage_def rbind_def split: sum.splits res.splits if_splits)
  from ok have nm: "nm_MessageType nm = APP" "nm_AppMessageType nm = i" "GetTimeUnixMs (nm_Timestamp nm) \<noteq> 0"
    "tx_nodeMessage tx = nm" "tx_innerRef tx = nm_InnerRef nm" by (auto simp: FromNodeMessage_Ok)
  show ?thesis unfolding tx_wf_def Let_def nm(4) by (intro conjI nm exI [of _ k] k ComputeTxID_digits [OF k(2)])
qed

lemma SetNodeMessageRef_wf [simp]: "tx_wf X i (SetNodeMessageRef r tx) = tx_wf X i tx"
  by (simp add: tx_wf_def SetNodeMessageRef_def)

lemma GetTx_wf: "GetTx X pb i conf h txID w = (Ok (Some tx), w') \<Longrightarrow> tx_wf X i tx"
  by (auto simp: GetTx_def Let_def gbind_Ok_iff FromNodeMessage_wf split: option.splits)

lemma GetTx_after_put:
  assumes laws: "db_ok X" "codec_ok pb" and txID: "txID \<noteq> ''''"
    and put: "TxDb_Put X pb h txID ref w = (Ok (), w')"
  shows "GetTx X pb txMsgID conf h txID w' =
      (rbind (res_of (follow_node_message X (ext w') ref conf [])) (\<lambda>nm.
       rbind (FromNodeMessage X txMsgID nm) (\<lambda>tx. Ok (Some (tx\<lparr>tx_nodeMessageRef := ref\<rparr>)))), w')"
proof -
  from put obtain bs e' where bs: "marshal pb \<lparr>ti_NodeMessageRef = ref\<rparr> = Inr bs"
    and set: "db_set X (ext w) h (getIDKey txID) bs = (Inr (), e')" and w': "w' = w\<lparr>ext := e'\<rparr>"
    by (auto simp: TxDb_Put_def write_slot_Ok)
  have "getEntry X pb h txID w' = (Ok (Some \<lparr>ti_NodeMessageRef = ref\<rparr>), w')"
    using txID w' db_okD [OF laws(1) set] codec_okD [OF laws(2) bs] by (simp add: getEntry_def gbind_def)
  then show ?thesis
    by (auto simp: GetTx_def SetNodeMessageRef_def Let_def gbind_def rbind_def split: res.splits)
qed

text \<open>C35: a transaction that was put is found again. After a successful \<open>Put\<close> the transaction database
  returns, for that identifier, the transaction of the message behind the reference, carrying that
  reference, or the error of reading the message or of a message that is not a transaction; every other
  identifier is looked up as before.\<close>

theorem put_then_get:
  assumes laws: "db_ok X" "codec_ok pb" and txID: "txID \<noteq> ''''"
    and put: "TxDb_Put X pb h txID ref w = (Ok (), w')"
  shows "GetTx X pb txMsgID conf h txID w' =
      (rbind (res_of (follow_node_message X (ext w') ref conf [])) (\<lambda>nm.
       rbind (FromNodeMessage X txMsgID nm) (\<lambda>tx. Ok (Some (tx\<lparr>tx_nodeMessageRef := ref\<rparr>)))), w') \<and>
    (\<forall>other. other \<noteq> txID \<longrightarrow> fst (TxDb_Get X pb h other w') = fst (TxDb_Get X pb h other w))"
proof -
  from put obtain bs e' where set: "db_set X (ext w) h (getIDKey txID) bs = (Inr (), e')" and w': "w' = w\<lparr>ext := e'\<rparr>"
    by (auto simp: TxDb_Put_def write_slot_Ok)
  have "fst (TxDb_Get X pb h other w') = fst (TxDb_Get X pb h other w)" if "other \<noteq> txID" for other
    using that w' db_okD [OF laws(1) set]
    by (auto simp: TxDb_Get_def getEntry_def getIDKey_def gbind_def split: res.splits option.splits)
  with GetTx_after_put [OF laws txID put] show ?thesis by blast
qed

text \<open>A saved container is loaded as it was. What \<open>WriteState\<close> stored under a container's key is what
  \<open>ReadState\<close> puts into any container built for the same database and name, whatever it held before.\<close>

theorem container_roundtrip:
  assumes "db_ok X" "codec_ok json" "DbContainer_WriteState X json (NewDbContainer db name c) w = (Ok (), w')"
  shows "DbContainer_ReadState X json (NewDbContainer db name old) w' = (Ok (NewDbContainer db name c), w')"
  using container_slot.rd_after_wr [of "(X, json, NewDbContainer db name c)" c w w' old] assms
  by (auto simp: NewDbContainer_def gbind_def DbContainer_ReadState_def split: prod.splits res.splits)

end
