(* ===== verification/TxVector.thy ===== *)
theory TxVector
  imports Transactions
begin

text \<open>
  The test vector of \<^verbatim>\<open>utils/transaction/transaction_test.go\<close>, evaluated on the model: the public key
  \<open>testPubKeyDat\<close> and the timestamp of one thousand seconds give the identifier the test expects. The
  schedule and the eighty rounds of the digest are evaluated in steps.
\<close>

lemma sha1_expand_add: "sha1_expand (m + n) ws = sha1_expand n (sha1_expand m ws)"
  by (induction m arbitrary: ws) simp_all

lemma sha1_rounds_append:
  "sha1_rounds t (xs @ ys) s = sha1_rounds (t + length xs) ys (sha1_rounds t xs s)"
  by (induction xs arbitrary: t s) simp_all

definition testPubKeyDat :: bytes where
  "testPubKeyDat = [0x8, 0x1, 0x12, 0x20, 0x7C, 0x9F, 0x1C, 0xE7, 0xA2, 0x7E, 0x88, 0x78, 0x43, 0x19, 0x5A, 0x67, 0x4E,
     0x2C, 0x98, 0x4A, 0x66, 0x12, 0x84, 0xED, 0xD7, 0x8, 0x70, 0x42, 0x7, 0x14, 0x52, 0x6C, 0x2F, 0x14,
     0x3E, 0x93]"

definition test_schedule :: "u32 list" where
  "test_schedule = [0x40420F00, 0x0, 0x8011220, 0x7C9F1CE7, 0xA27E8878, 0x43195A67, 0x4E2C984A, 0x661284ED, 0xD7087042,
     0x714526C, 0x2F143E93, 0x80000000, 0x0, 0x0, 0x0, 0x160, 0x3E96DAC5, 0xF7169D16, 0xAD74B57,
     0x221388B, 0x36891A48, 0x5FB92BBA, 0x360BA107, 0xAF1F9B52, 0x32677F5D, 0x8C12DCFA, 0x15B9DD2D,
     0x608C8FAD, 0x75378D65, 0x9401EFEE, 0xD023E8DE, 0x5A7D1482, 0x244E0243, 0x520D2373, 0xE7353160,
     0x32B53DBE, 0x4F702AB2, 0x724DCCD, 0xCDF41675, 0x6C00F330, 0x968F9FC, 0xE6CECCA2, 0xD7772431,
     0x9EA14803, 0x19550756, 0x3C5E0720, 0x4E7169D7, 0xFA4B872E, 0xEC9B9BFF, 0x900F7771, 0xAF3719B,
     0x8F56651E, 0x17BC99C0, 0xBB12B28C, 0xB77C680, 0xCE7242F8, 0x132DE97D, 0xC62E6AA1, 0x15462008,
     0x7D098680, 0xD6D3BC1, 0xD0822514, 0xA9296451, 0x52B712CD, 0x4B8E4C1A, 0xE0BC393E, 0xB57DB53C,
     0x5863A10, 0xE234BB7F, 0x213EC0B8, 0x69EAE379, 0x71BF03D7, 0xD9B68BAE, 0x64E26CCC, 0xB9D35A45,
     0xE3762454, 0x45251046, 0x35B15A48, 0xD077DECC, 0xD2270C5]"

lemma test_expand_0: "sha1_expand 16 (rev (take 16 test_schedule)) = rev (take 32 test_schedule)"
  by code_simp

lemma test_expand_1: "sha1_expand 16 (rev (take 32 test_schedule)) = rev (take 48 test_schedule)"
  by code_simp

lemma test_expand_2: "sha1_expand 16 (rev (take 48 test_schedule)) = rev (take 64 test_schedule)"
  by code_simp

lemma test_expand_3: "sha1_expand 16 (rev (take 64 test_schedule)) = rev (take 80 test_schedule)"
  by code_simp

lemma test_rounds_0: "sha1_rounds 0 (take 20 (drop 0 test_schedule))
    (0x67452301, 0xEFCDAB89, 0x98BADCFE, 0x10325476, 0xC3D2E1F0) =
    (0x1AEAB12D, 0xCEE28C4D, 0x804459A6, 0xF395BF76, 0xA1BA3BFA)"
  by code_simp

lemma test_rounds_1: "sha1_rounds 20 (take 20 (drop 20 test_schedule))
    (0x1AEAB12D, 0xCEE28C4D, 0x804459A6, 0xF395BF76, 0xA1BA3BFA) =
    (0x2F8CCB20, 0x35A03CBE, 0x36AC3EAE, 0xF50BDCB4, 0x860721E7)"
  by code_simp

lemma test_rounds_2: "sha1_rounds 40 (take 20 (drop 40 test_schedule))
    (0x2F8CCB20, 0x35A03CBE, 0x36AC3EAE, 0xF50BDCB4, 0x860721E7) =
    (0xE51A05E6, 0xE8F60E2E, 0x9D0B43CC, 0xD514B1A3, 0xC835C226)"
  by code_simp

lemma test_rounds_3: "sha1_rounds 60 (take 20 (drop 60 test_schedule))
    (0xE51A05E6, 0xE8F60E2E, 0x9D0B43CC, 0xD514B1A3, 0xC835C226) =
    (0xD8ACBD94, 0x1844060D, 0x5B7A7A0A, 0xBEAED8E3, 0xDB99A81D)"
  by code_simp

lemma test_expand: "sha1_expand 64 (rev (take 16 test_schedule)) = rev test_schedule"
proof -
  have "sha1_expand (16 + (16 + (16 + 16))) (rev (take 16 test_schedule)) = rev (take 80 test_schedule)"
    by (simp only: sha1_expand_add test_expand_0 test_expand_1 test_expand_2 test_expand_3)
  moreover have "take 80 test_schedule = test_schedule" by (simp add: test_schedule_def)
  ultimately show ?thesis by simp
qed

lemma test_schedule_length: "length test_schedule = 80"
  by (simp add: test_schedule_def)

lemma test_rounds: "sha1_rounds 0 test_schedule (0x67452301, 0xEFCDAB89, 0x98BADCFE, 0x10325476, 0xC3D2E1F0) = (0xD8ACBD94, 0x1844060D, 0x5B7A7A0A, 0xBEAED8E3, 0xDB99A81D)"
proof -
  have split: "test_schedule = take 20 (drop 0 test_schedule) @ take 20 (drop 20 test_schedule) @
      take 20 (drop 40 test_schedule) @ take 20 (drop 60 test_schedule)"
    by (simp add: test_schedule_def)
  have end60: "take 20 (drop 60 test_schedule) = drop 60 test_schedule" by (simp add: test_schedule_length)
  show ?thesis
    by (subst split) (simp add: sha1_rounds_append test_schedule_length test_rounds_0 [simplified] test_rounds_1
        test_rounds_2 test_rounds_3 [unfolded end60])
qed

lemma test_block: "words_be (sha1_pad (le64 1000000 @ testPubKeyDat)) = take 16 test_schedule"
  by code_simp

lemma test_length: "length (sha1_pad (le64 1000000 @ testPubKeyDat)) = 64"
  by code_simp

lemma test_digest: "hex_encode (sha1_sum (le64 1000000 @ testPubKeyDat)) = ''3ff1e0950811b196f4355708cee12d599f6c8a0d''"
proof -
  have "sha1_block (sha1_pad (le64 1000000 @ testPubKeyDat)) (0x67452301, 0xEFCDAB89, 0x98BADCFE, 0x10325476, 0xC3D2E1F0) =
      (case (0xD8ACBD94, 0x1844060D, 0x5B7A7A0A, 0xBEAED8E3, 0xDB99A81D) of (a, b, c, d, e) \<Rightarrow>
        (0x67452301 + a, 0xEFCDAB89 + b, 0x98BADCFE + c, 0x10325476 + d, 0xC3D2E1F0 + e))"
    by (simp only: sha1_block_def prod.case test_block test_expand rev_rev_ident test_rounds)
  then have sum: "sha1_sum (le64 1000000 @ testPubKeyDat) =
      (case (case (0xD8ACBD94, 0x1844060D, 0x5B7A7A0A, 0xBEAED8E3, 0xDB99A81D) of (a, b, c, d, e) \<Rightarrow>
        (0x67452301 + a, 0xEFCDAB89 + b, 0x98BADCFE + c, 0x10325476 + d, 0xC3D2E1F0 + e)) of
       (a, b, c, d, e) \<Rightarrow> be32 a @ be32 b @ be32 c @ be32 d @ be32 e)"
    by (simp add: sha1_sum_def test_length)
  have "hex_encode ((case (case (0xD8ACBD94, 0x1844060D, 0x5B7A7A0A, 0xBEAED8E3, 0xDB99A81D) of (a, b, c, d, e) \<Rightarrow>
        (0x67452301 + a, 0xEFCDAB89 + b, 0x98BADCFE + c, 0x10325476 + d, 0xC3D2E1F0 + e)) of
       (a, b, c, d, e) \<Rightarrow> be32 a @ be32 b @ be32 c @ be32 d @ be32 e)) = ''3ff1e0950811b196f4355708cee12d599f6c8a0d''"
    by code_simp
  with sum show ?thesis by (simp only:)
qed

text \<open>The identifier of a transaction is the one the repository's test expects. For the test's public
  key and timestamp the model of \<open>ComputeTxID\<close> returns
  \<^verbatim>\<open>3ff1e0950811b196f4355708cee12d599f6c8a0d\<close>: the SHA-1 digest, in lower case hexadecimal, of the
  little-endian milliseconds followed by the encoded key.\<close>

theorem tx_id_test_vector:
  assumes "pub_bytes X k = Inr testPubKeyDat"
  shows "ComputeTxID X (Some \<lparr>TimeUnixMs = 1000000\<rparr>) k = Ok ''3ff1e0950811b196f4355708cee12d599f6c8a0d''"
  using assms test_digest by (simp add: ComputeTxID_eq GetTimeUnixMs_def)

end
