(* ===== verification/Mempool.thy ===== *)
theory Mempool
  imports Complex_Main Proposer Transactions
begin

text \<open>
  Package \<^verbatim>\<open>utils/transaction/mempool\<close>: the pool of pending transactions and the block proposer that
  builds a block from it. The heap that orders the pool is \<^verbatim>\<open>objstore/dbds/fibheap\<close>, outside the
  repository; its two operations are the record \<open>fibheap\<close>. The application is the record \<open>application\<close>,
  with the pending state of type \<open>'a\<close>. Loops that wait on channels are step functions over the events
  their \<open>select\<close> statements receive.
\<close>

section \<open>The pool\<close>

record 'e fibheap =
  fh_Enqueue :: "'e \<Rightarrow> db_view \<Rightarrow> string \<Rightarrow> int \<Rightarrow> (go_error + unit) \<times> 'e"
  fh_DequeueMin :: "'e \<Rightarrow> db_view \<Rightarrow> (go_error + string \<times> int) \<times> 'e"

record 'e mempool_world = "'e world" +
  enqueueNotify :: "u32 \<rightharpoonup> unit list"
  notifyIDCtr :: u32

type_synonym 'w orderer = "string \<Rightarrow> ('w, int) go"

record 'w mempool =
  mp_txHeap :: db_view
  mp_txDb :: db_view
  mp_orderer :: "'w orderer"

text \<open>The conversion of a 64-bit number to a \<open>float64\<close>, whose significand has 53 bits.\<close>

definition float64_of :: "u64 \<Rightarrow> int" where
  "float64_of x = (let n = uint x; k = bit_length n - 53 in round_half_even n (2 ^ k) * 2 ^ k)"

definition TimestampOrderer ::
  "('e, 'x) externals_scheme \<Rightarrow> tx_info codec \<Rightarrow> enc_conf option \<Rightarrow> db_view \<Rightarrow> ('e, 'z) world_scheme orderer" where
  "TimestampOrderer X pb ctxConf txDb txID =
     gbind (TxDb_Get X pb txDb txID) (\<lambda>txInfo.
     case txInfo of
       None \<Rightarrow> gfail (Errorf ''transaction not found: %s'')
     | Some i \<Rightarrow>
         gbind (gext (\<lambda>e. follow_node_message X e (ti_NodeMessageRef i) ctxConf [])) (\<lambda>nodeMessage.
         gret (float64_of (GetTimeUnixMs (nm_Timestamp nodeMessage)))))"

text \<open>\<open>heapReady\<close> is the answer of the heap's constructor, \<open>dflt\<close> the orderer used when none is given.\<close>

definition NewMempool ::
  "go_error + unit \<Rightarrow> db_view \<Rightarrow> db_view \<Rightarrow> 'w orderer \<Rightarrow> 'w orderer option \<Rightarrow> 'w mempool res" where
  "NewMempool heapReady dbm txDb dflt opt =
     rbind (res_of heapReady) (\<lambda>_.
     Ok \<lparr>mp_txHeap = WithPrefix dbm ''/txheap'', mp_txDb = txDb,
         mp_orderer = (case opt of None \<Rightarrow> dflt | Some o1 \<Rightarrow> o1)\<rparr>)"

definition Enqueue ::
  "'e fibheap \<Rightarrow> ('e, 'z) world_scheme mempool \<Rightarrow> string \<Rightarrow> (('e, 'z) world_scheme, unit) go" where
  "Enqueue F m txID =
     gbind (mp_orderer m txID) (\<lambda>prio.
     gcall (\<lambda>e. fh_Enqueue F e (mp_txHeap m) txID prio))"

definition DequeueMin ::
  "'e fibheap \<Rightarrow> ('e, 'z) world_scheme mempool \<Rightarrow> (('e, 'z) world_scheme, string) go" where
  "DequeueMin F m =
     gbind (gcall (\<lambda>e. fh_DequeueMin F e (mp_txHeap m))) (\<lambda>(txID, _). gret txID)"

section \<open>Collecting transactions\<close>

datatype collect_phase = Dequeuing int | Offering string int | Waiting int | Collected "go_error option"
datatype collect_event = Advance | Taken | CollectDone go_error | Woken

definition CollectTransactions_begin :: "(('e, 'z) mempool_world_scheme, u32) go" where
  "CollectTransactions_begin = (\<lambda>w.
     let enqueueID = notifyIDCtr w + 1 in
     (Ok enqueueID, w\<lparr>notifyIDCtr := enqueueID, enqueueNotify := (enqueueNotify w)(enqueueID \<mapsto> [])\<rparr>))"

text \<open>A wake-up takes a pending notification; without one the \<open>select\<close> stays blocked.\<close>

fun CollectTransactions_step ::
  "'e fibheap \<Rightarrow> ('e, 'z) mempool_world_scheme mempool \<Rightarrow> u32 \<Rightarrow> collect_event \<Rightarrow> collect_phase \<Rightarrow>
     (('e, 'z) mempool_world_scheme, collect_phase) go" where
  "CollectTransactions_step F m enqueueID Advance (Dequeuing mx) =
     gbind (gtry (DequeueMin F m)) (\<lambda>r.
     case r of
       Inl e \<Rightarrow> gret (Collected (Some e))
     | Inr txID \<Rightarrow> gret (if txID \<noteq> '''' then Offering txID mx else Waiting mx))"
| "CollectTransactions_step F m enqueueID Taken (Offering txID mx) =
     gret (if mx \<noteq> 0 then (if mx - 1 = 0 then Collected None else Dequeuing (mx - 1)) else Dequeuing mx)"
| "CollectTransactions_step F m enqueueID (CollectDone e) (Offering txID mx) =
     gbind (gtry (Enqueue F m txID)) (\<lambda>_. gret (Collected (Some e)))"
| "CollectTransactions_step F m enqueueID (CollectDone e) (Waiting mx) = gret (Collected (Some e))"
| "CollectTransactions_step F m enqueueID Woken (Waiting mx) = (\<lambda>w.
     case enqueueNotify w enqueueID of
       Some (_ # rest) \<Rightarrow> (Ok (Dequeuing mx), w\<lparr>enqueueNotify := (enqueueNotify w)(enqueueID \<mapsto> rest)\<rparr>)
     | _ \<Rightarrow> (Ok (Waiting mx), w))"
| "CollectTransactions_step F m enqueueID _ ph = gret ph"

definition CollectTransactions_end :: "u32 \<Rightarrow> (('e, 'z) mempool_world_scheme, unit) go" where
  "CollectTransactions_end enqueueID =
     gmodify (\<lambda>w. w\<lparr>enqueueNotify := (enqueueNotify w)(enqueueID := None)\<rparr>)"

fun collect_run ::
  "'e fibheap \<Rightarrow> ('e, 'z) mempool_world_scheme mempool \<Rightarrow> u32 \<Rightarrow> collect_event list \<Rightarrow> collect_phase \<Rightarrow>
     (('e, 'z) mempool_world_scheme, collect_phase) go" where
  "collect_run F m i [] ph = gret ph"
| "collect_run F m i (ev # evs) ph = gbind (CollectTransactions_step F m i ev ph) (collect_run F m i evs)"

section \<open>The proposer's options\<close>

text \<open>The two ratios are \<open>float32\<close> values; a conversion to a duration drops their fraction.\<close>

record proposer_opts =
  ProposeDeadlineRatio :: rat
  ProposeWaitRatio :: rat
  MinBlockTransactions :: int
  MaxBlockTranasctions :: int
  opts_EncryptionConfig :: enc_conf

definition ProposerOpts_Validate :: "proposer_opts \<Rightarrow> unit res" where
  "ProposerOpts_Validate opts =
     (if ProposeDeadlineRatio opts > 1 \<or> ProposeDeadlineRatio opts < 0 then
        Err (Errorf ''propose deadline ratio out of range (0, 1): %v'')
      else if ProposeWaitRatio opts > 1 \<or> ProposeWaitRatio opts < 0 then
        Err (Errorf ''propose wait ratio out of range (0, 1): %v'')
      else Ok ())"

definition go_trunc :: "rat \<Rightarrow> int" where
  "go_trunc r = (if 0 \<le> r then \<lfloor>r\<rfloor> else \<lceil>r\<rceil>)"

definition waitUntil :: "proposer_opts \<Rightarrow> snapshot \<Rightarrow> time" where
  "waitUntil opts chainState =
     (let roundDur = time_Sub (sn_RoundEndTime chainState) (sn_RoundStartTime chainState) in
      sn_RoundStartTime chainState + i64 (go_trunc (ProposeWaitRatio opts) * roundDur))"

definition collectDeadline :: "proposer_opts \<Rightarrow> snapshot \<Rightarrow> time option" where
  "collectDeadline opts chainState =
     (let roundDur = time_Sub (sn_RoundEndTime chainState) (sn_RoundStartTime chainState) in
      if ProposeDeadlineRatio opts \<noteq> 0
      then Some (sn_RoundStartTime chainState + i64 (roundDur * go_trunc (ProposeDeadlineRatio opts)))
      else None)"

section \<open>Building a block\<close>

record block_tx_state =
  bts_ApplicationStateRef :: sref
  bts_TransactionSetRef :: sref

record ('e, 'a) application =
  GetStateAtBlock :: "block \<Rightarrow> block_tx_state \<Rightarrow> 'e \<Rightarrow> go_error + 'a"
  PrePoolCheckTx :: "'a \<Rightarrow> transaction option \<Rightarrow> 'e \<Rightarrow> (bool \<times> go_error option) res"
  Apply :: "'a \<Rightarrow> transaction \<Rightarrow> 'e \<Rightarrow> (bool \<times> go_error option) \<times> 'a"
  Serialize :: "'a \<Rightarrow> 'e \<Rightarrow> (go_error + sref) \<times> 'e"

definition NewMempoolProposer ::
  "'w mempool \<Rightarrow> proposer_opts \<Rightarrow> ('e, 'a) application \<Rightarrow> (proposer_opts \<times> 'w mempool \<times> ('e, 'a) application) res" where
  "NewMempoolProposer memPool opts app = rbind (ProposerOpts_Validate opts) (\<lambda>_. Ok (opts, memPool, app))"

record 'e tx_store =
  follow_block_tx_state :: "'e \<Rightarrow> sref \<Rightarrow> enc_conf option \<Rightarrow> go_error + block_tx_state"
  store_tx_set :: "'e \<Rightarrow> sref list \<Rightarrow> enc_conf \<Rightarrow> (go_error + sref) \<times> 'e"
  store_block_tx_state :: "'e \<Rightarrow> block_tx_state \<Rightarrow> enc_conf \<Rightarrow> (go_error + sref) \<times> 'e"

text \<open>The stage that resolves a collected identifier to a transaction.\<close>

datatype resolve_outcome = Resolved "transaction option" | SkipTx | StopResolving | FailResolving go_error

definition requeue1 ::
  "'e fibheap \<Rightarrow> ('e, 'z) world_scheme mempool \<Rightarrow> string \<Rightarrow> (('e, 'z) world_scheme, unit) go" where
  "requeue1 F m txID = gbind (gtry (Enqueue F m txID)) (\<lambda>_. gret ())"

definition resolveTx ::
  "('e, 'x) externals_scheme \<Rightarrow> tx_info codec \<Rightarrow> u32 \<Rightarrow> 'e fibheap \<Rightarrow> ('e, 'z) world_scheme mempool \<Rightarrow>
     ('e, 'a) application \<Rightarrow> proposer_opts \<Rightarrow> 'a \<Rightarrow> string \<Rightarrow> (('e, 'z) world_scheme, resolve_outcome) go" where
  "resolveTx X pb txMsgID F m app opts pendingState txID =
     gbind (gtry (GetTx X pb txMsgID (Some (opts_EncryptionConfig opts)) (mp_txDb m) txID)) (\<lambda>r.
     case r of
       Inl err \<Rightarrow>
         gbind (if err = ContextCanceled \<or> err = DeadlineExceeded then requeue1 F m txID else gret ()) (\<lambda>_.
         gret SkipTx)
     | Inr tx \<Rightarrow>
         gbind (\<lambda>w. (PrePoolCheckTx app pendingState tx (ext w), w)) (\<lambda>(sysErr, txErr).
         case txErr of
           None \<Rightarrow> gret (Resolved tx)
         | Some err \<Rightarrow>
             if sysErr \<or> err = ContextCanceled \<or> err = DeadlineExceeded
             then gbind (requeue1 F m txID) (\<lambda>_. gret (FailResolving err))
             else gret StopResolving))"

text \<open>
  The loop of the resolving stage: it waits for an identifier, and hands the resolved transaction over
  unless the context ends first. The error it sends on the error channel is the argument of \<open>Returned\<close>.
  The application's state is a handle that the applying stage changes meanwhile, so the step takes what it holds at that
  moment.
\<close>

datatype resolver_event = IdReceived string | IdsClosed | ResolverCtxDone | HandedOver
datatype resolver_phase = AwaitID | HandOver string "transaction option" | Returned "go_error option"

fun Resolver_step ::
  "('e, 'x) externals_scheme \<Rightarrow> tx_info codec \<Rightarrow> u32 \<Rightarrow> 'e fibheap \<Rightarrow> ('e, 'z) world_scheme mempool \<Rightarrow>
     ('e, 'a) application \<Rightarrow> proposer_opts \<Rightarrow> 'a \<Rightarrow> resolver_event \<Rightarrow> resolver_phase \<Rightarrow>
     (('e, 'z) world_scheme, resolver_phase) go" where
  "Resolver_step X pb txMsgID F m app opts pendingState (IdReceived txID) AwaitID =
     gbind (resolveTx X pb txMsgID F m app opts pendingState txID) (\<lambda>r.
     gret (case r of
       Resolved tx \<Rightarrow> HandOver txID tx
     | SkipTx \<Rightarrow> AwaitID
     | StopResolving \<Rightarrow> Returned None
     | FailResolving err \<Rightarrow> Returned (Some err)))"
| "Resolver_step X pb txMsgID F m app opts pendingState IdsClosed AwaitID = gret (Returned None)"
| "Resolver_step X pb txMsgID F m app opts pendingState ResolverCtxDone AwaitID = gret (Returned None)"
| "Resolver_step X pb txMsgID F m app opts pendingState ResolverCtxDone (HandOver txID tx) =
     gbind (requeue1 F m txID) (\<lambda>_. gret (Returned None))"
| "Resolver_step X pb txMsgID F m app opts pendingState HandedOver (HandOver txID tx) = gret AwaitID"
| "Resolver_step X pb txMsgID F m app opts pendingState _ ph = gret ph"

text \<open>The stage that applies transactions.\<close>

record 'a propose_state =
  pp_appliedTxs :: "string list"
  pp_txRefs :: "sref list"
  pp_pendingState :: 'a

text \<open>
  Between two events of its \<open>select\<close> the other stages and the rest of the process may change what is outside the
  program; \<open>LoopOther\<close> is such a change. The resolving stage may send a nil transaction, whose \<open>GetID\<close> panics.
\<close>

datatype 'e loop_event =
    LoopErr "go_error option" | LoopCtxDone go_error | LoopTx "transaction option" time | LoopClosed | LoopOther 'e
datatype 'a loop_result = Continue "'a propose_state" | Break "'a propose_state" | ReturnNil | ReturnErr go_error

fun requeueTxs ::
  "'e fibheap \<Rightarrow> ('e, 'z) world_scheme mempool \<Rightarrow> string list \<Rightarrow> (('e, 'z) world_scheme, unit) go" where
  "requeueTxs F m [] = gret ()"
| "requeueTxs F m (txID # txIDs) = gbind (requeue1 F m txID) (\<lambda>_. requeueTxs F m txIDs)"

definition enoughTxs :: "proposer_opts \<Rightarrow> snapshot \<Rightarrow> time \<Rightarrow> nat \<Rightarrow> bool" where
  "enoughTxs opts chainState now n =
     (let txCount = i32 (int n);
          hasMinTxs = (if MinBlockTransactions opts = 0 then txCount \<noteq> 0
            else txCount > MinBlockTransactions opts);
          hasMaxTxs = (txCount \<ge> MaxBlockTranasctions opts);
          waitDurElapsed = (now > waitUntil opts chainState) in
      hasMinTxs \<and> (hasMaxTxs \<or> waitDurElapsed))"

fun TxLoop_step ::
  "'e fibheap \<Rightarrow> ('e, 'z) world_scheme mempool \<Rightarrow> ('e, 'a) application \<Rightarrow> proposer_opts \<Rightarrow> snapshot \<Rightarrow>
     'e loop_event \<Rightarrow> 'a propose_state \<Rightarrow> (('e, 'z) world_scheme, 'a loop_result) go" where
  "TxLoop_step F m app opts cs (LoopErr None) st = gret (Continue st)"
| "TxLoop_step F m app opts cs (LoopErr (Some err)) st =
     (if pp_appliedTxs st = [] \<and> err = ContextCanceled then gret ReturnNil
      else gbind (requeueTxs F m (pp_appliedTxs st)) (\<lambda>_. gret (ReturnErr err)))"
| "TxLoop_step F m app opts cs (LoopCtxDone err) st =
     gbind (requeueTxs F m (pp_appliedTxs st)) (\<lambda>_. gret (ReturnErr err))"
| "TxLoop_step F m app opts cs LoopClosed st = gret (Break st)"
| "TxLoop_step F m app opts cs (LoopOther e) st = gbind (gmodify (\<lambda>w. w\<lparr>ext := e\<rparr>)) (\<lambda>_. gret (Continue st))"
| "TxLoop_step F m app opts cs (LoopTx None now) st = gres Panic"
| "TxLoop_step F m app opts cs (LoopTx (Some tx) now) st =
     (let appliedTxs = pp_appliedTxs st @ [tx_id tx] in
      gbind (gasks (\<lambda>w. Apply app (pp_pendingState st) tx (ext w))) (\<lambda>((sysErr, txErr), pending).
      case txErr of
        Some err \<Rightarrow>
          if sysErr then gbind (requeueTxs F m appliedTxs) (\<lambda>_. gret (ReturnErr err))
          else gret (Continue (st\<lparr>pp_pendingState := pending\<rparr>))
      | None \<Rightarrow>
          let st' = \<lparr>pp_appliedTxs = appliedTxs, pp_txRefs = pp_txRefs st @ [tx_nodeMessageRef tx],
                pp_pendingState = pending\<rparr> in
          if enoughTxs opts cs now (length appliedTxs) then gret (Break st') else gret (Continue st')))"

fun TxLoop ::
  "'e fibheap \<Rightarrow> ('e, 'z) world_scheme mempool \<Rightarrow> ('e, 'a) application \<Rightarrow> proposer_opts \<Rightarrow> snapshot \<Rightarrow>
     'e loop_event list \<Rightarrow> 'a propose_state \<Rightarrow> (('e, 'z) world_scheme, 'a loop_result) go" where
  "TxLoop F m app opts cs [] st = gret (Continue st)"
| "TxLoop F m app opts cs (ev # evs) st =
     gbind (TxLoop_step F m app opts cs ev st) (\<lambda>r.
     case r of Continue st' \<Rightarrow> TxLoop F m app opts cs evs st' | _ \<Rightarrow> gret r)"

text \<open>The end of \<open>ProposeBlock\<close>; \<open>lateErr\<close> is what the non-blocking receive on the error channel finds.\<close>

definition requeueFail ::
  "'e fibheap \<Rightarrow> ('e, 'z) world_scheme mempool \<Rightarrow> string list \<Rightarrow> ('e \<Rightarrow> (go_error + 'b) \<times> 'e) \<Rightarrow>
     (('e, 'z) world_scheme, 'b) go" where
  "requeueFail F m txIDs f =
     gbind (gtry (gcall f)) (\<lambda>r.
     case r of
       Inl err \<Rightarrow> gbind (requeueTxs F m txIDs) (\<lambda>_. gfail err)
     | Inr x \<Rightarrow> gret x)"

definition finishProposal ::
  "'e tx_store \<Rightarrow> 'e fibheap \<Rightarrow> ('e, 'z) world_scheme mempool \<Rightarrow> ('e, 'a) application \<Rightarrow> proposer_opts \<Rightarrow>
     go_error option option \<Rightarrow> 'a propose_state \<Rightarrow> (('e, 'z) world_scheme, sref) go" where
  "finishProposal S F m app opts lateErr st =
     (case lateErr of
        Some (Some err) \<Rightarrow> gfail err
      | _ \<Rightarrow>
          if int (length (pp_txRefs st)) < MinBlockTransactions opts
          then gbind (requeueTxs F m (pp_appliedTxs st)) (\<lambda>_. gret None)
          else
          let encConf = opts_EncryptionConfig opts; requeue = pp_appliedTxs st in
          gbind (requeueFail F m requeue (Serialize app (pp_pendingState st))) (\<lambda>stateRef.
          gbind (requeueFail F m requeue (\<lambda>e. store_tx_set S e (pp_txRefs st) encConf)) (\<lambda>txSetRef.
          requeueFail F m requeue (\<lambda>e. store_block_tx_state S e
            \<lparr>bts_ApplicationStateRef = stateRef, bts_TransactionSetRef = txSetRef\<rparr> encConf))))"

text \<open>The result is \<open>None\<close> while the loop is still waiting for events, otherwise what the call returns.\<close>

definition ProposeBlock ::
  "'e tx_store \<Rightarrow> 'e fibheap \<Rightarrow> ('e, 'z) world_scheme mempool \<Rightarrow> ('e, 'a) application \<Rightarrow> proposer_opts \<Rightarrow>
     bool \<Rightarrow> 'e loop_event list \<Rightarrow> go_error option option \<Rightarrow> block \<Rightarrow> snapshot \<Rightarrow>
     (('e, 'z) world_scheme, sref option) go" where
  "ProposeBlock S F m app opts hasObjStore evs lateErr parentBlk chainState =
     (if \<not> hasObjStore then gfail (Errorf ''object store not set, cannot propose blocks'')
      else
      gbind (gtry (gext (\<lambda>e. follow_block_tx_state S e (GetStateRef parentBlk) (Some (opts_EncryptionConfig opts))))) (\<lambda>b.
      case b of Inl err \<Rightarrow> gfail (Wrapped ''parent block state lookup'' err) | Inr blkState \<Rightarrow>
      gbind (gtry (gext (\<lambda>e. GetStateAtBlock app parentBlk blkState e))) (\<lambda>p.
      case p of Inl err \<Rightarrow> gfail (Wrapped ''parent app state lookup'' err) | Inr pendingState \<Rightarrow>
      gbind (TxLoop F m app opts chainState evs
               \<lparr>pp_appliedTxs = [], pp_txRefs = [], pp_pendingState = pendingState\<rparr>) (\<lambda>r.
      case r of
        ReturnNil \<Rightarrow> gret (Some None)
      | ReturnErr err \<Rightarrow> gfail err
      | Break st \<Rightarrow> gbind (finishProposal S F m app opts lateErr st) (\<lambda>ref. gret (Some ref))
      | Continue st \<Rightarrow> gret None))))"

section \<open>Replaying transactions\<close>

text \<open>
  The reference: the transactions delivered to the loop are applied one after the other, each with the external state of
  that moment, and those the application rejects are left out.
\<close>

fun replay :: "('e, 'a) application \<Rightarrow> (transaction \<times> 'e) list \<Rightarrow> 'a \<Rightarrow> transaction list \<times> 'a" where
  "replay app [] pend = ([], pend)"
| "replay app ((tx, e) # txs) pend =
     (case Apply app pend tx e of
        ((_, None), pend') \<Rightarrow> (case replay app txs pend' of (oks, p) \<Rightarrow> (tx # oks, p))
      | ((_, Some _), pend') \<Rightarrow> replay app txs pend')"

fun ext_after :: "'e \<Rightarrow> 'e loop_event list \<Rightarrow> 'e" where
  "ext_after e [] = e"
| "ext_after e (LoopOther e' # evs) = ext_after e' evs"
| "ext_after e (ev # evs) = ext_after e evs"

fun delivered :: "'e \<Rightarrow> 'e loop_event list \<Rightarrow> (transaction \<times> 'e) list" where
  "delivered e [] = []"
| "delivered e (LoopTx (Some tx) now # evs) = (tx, e) # delivered e evs"
| "delivered e (LoopOther e' # evs) = delivered e' evs"
| "delivered e (ev # evs) = delivered e evs"

definition replayed :: "('e, 'a) application \<Rightarrow> (transaction \<times> 'e) list \<Rightarrow> 'a propose_state \<Rightarrow> 'a propose_state" where
  "replayed app txs st =
     (case replay app txs (pp_pendingState st) of
        (oks, p) \<Rightarrow> \<lparr>pp_appliedTxs = pp_appliedTxs st @ map tx_id oks,
          pp_txRefs = pp_txRefs st @ map tx_nodeMessageRef oks, pp_pendingState = p\<rparr>)"

lemma replayed_Nil [simp]: "replayed app [] st = st"
  by (simp add: replayed_def)

lemma replay_append:
  "replay app (xs @ ys) p =
     (case replay app xs p of (a, p1) \<Rightarrow> case replay app ys p1 of (b, p2) \<Rightarrow> (a @ b, p2))"
  by (induction app xs p rule: replay.induct) (auto split: prod.splits option.splits)

lemma replayed_append: "replayed app (xs @ ys) st = replayed app ys (replayed app xs st)"
  by (auto simp: replayed_def replay_append split: prod.splits)

lemma ext_after_append: "ext_after e (xs @ ys) = ext_after (ext_after e xs) ys"
  by (induction e xs rule: ext_after.induct) simp_all

lemma delivered_append: "delivered e (xs @ ys) = delivered e xs @ delivered (ext_after e xs) ys"
  by (induction e xs rule: delivered.induct) simp_all

lemmas event_Cons = ext_after_append [of _ "[ev]" for ev, simplified append_Cons append_Nil]
  delivered_append [of _ "[ev]" for ev, simplified append_Cons append_Nil]

text \<open>What one event leads to.\<close>

lemma TxLoop_step_cases:
  assumes "TxLoop_step F m app opts cs ev st w = (Ok r, w')"
  shows "case r of
      Continue st' \<Rightarrow> w' = w\<lparr>ext := ext_after (ext w) [ev]\<rparr> \<and> st' = replayed app (delivered (ext w) [ev]) st
    | Break st' \<Rightarrow> w' = w \<and> ext_after (ext w) [ev] = ext w \<and> st' = replayed app (delivered (ext w) [ev]) st \<and>
        pp_appliedTxs st' = pp_appliedTxs st @ map (tx_id \<circ> fst) (delivered (ext w) [ev])
    | ReturnNil \<Rightarrow> w' = w \<and> pp_appliedTxs st = [] \<and> delivered (ext w) [ev] = []
    | ReturnErr err \<Rightarrow> requeueTxs F m (pp_appliedTxs st @ map (tx_id \<circ> fst) (delivered (ext w) [ev])) w = (Ok (), w')"
  using assms
proof (cases "(F, m, app, opts, cs, ev, st)" rule: TxLoop_step.cases)
  case (2 F' m' app' opts' cs' err st')
  then show ?thesis using assms by (auto simp: gbind_Ok_iff split: if_splits)
next
  case (3 F' m' app' opts' cs' err st')
  then show ?thesis using assms by (auto simp: gbind_Ok_iff)
next
  case (7 F' m' app' opts' cs' tx now st')
  obtain sysErr txErr pend where ap: "Apply app (pp_pendingState st) tx (ext w) = ((sysErr, txErr), pend)"
    by (metis prod.exhaust)
  then show ?thesis using 7 assms
    by (cases txErr) (auto simp: gbind_Ok_iff Let_def replayed_def split: if_splits)
qed (auto simp: gbind_Ok_iff)

text \<open>What the loop leads to: it handles the events \<open>pre\<close> and leaves the others.\<close>

lemma TxLoop_cases:
  assumes "TxLoop F m app opts cs evs st w = (Ok r, w')"
  shows "\<exists>pre post. evs = pre @ post \<and> (case r of
      Continue st' \<Rightarrow> post = [] \<and> w' = w\<lparr>ext := ext_after (ext w) pre\<rparr> \<and> st' = replayed app (delivered (ext w) pre) st
    | Break st' \<Rightarrow> w' = w\<lparr>ext := ext_after (ext w) pre\<rparr> \<and> st' = replayed app (delivered (ext w) pre) st
    | _ \<Rightarrow> True)"
  using assms
proof (induction evs arbitrary: st w)
  case (Cons ev evs)
  from Cons.prems obtain r1 w1 where step: "TxLoop_step F m app opts cs ev st w = (Ok r1, w1)"
    and rest: "(case r1 of Continue st' \<Rightarrow> TxLoop F m app opts cs evs st' | _ \<Rightarrow> gret r1) w1 = (Ok r, w')"
    by (auto simp: gbind_Ok_iff)
  show ?case
  proof (cases r1)
    case (Continue st1)
    then have st1: "w1 = w\<lparr>ext := ext_after (ext w) [ev]\<rparr>" "st1 = replayed app (delivered (ext w) [ev]) st"
      using TxLoop_step_cases [OF step] by auto
    with rest Continue have "TxLoop F m app opts cs evs st1 w1 = (Ok r, w')" by simp
    from Cons.IH [OF this] obtain pre post where d: "evs = pre @ post" and c: "case r of
        Continue st' \<Rightarrow> post = [] \<and> w' = w1\<lparr>ext := ext_after (ext w1) pre\<rparr> \<and> st' = replayed app (delivered (ext w1) pre) st1
      | Break st' \<Rightarrow> w' = w1\<lparr>ext := ext_after (ext w1) pre\<rparr> \<and> st' = replayed app (delivered (ext w1) pre) st1
      | _ \<Rightarrow> True"
      by blast
    have "ev # evs = (ev # pre) @ post" using d by simp
    moreover have "replayed app (delivered (ext w1) pre) st1 = replayed app (delivered (ext w) (ev # pre)) st"
      "w1\<lparr>ext := ext_after (ext w1) pre\<rparr> = w\<lparr>ext := ext_after (ext w) (ev # pre)\<rparr>"
      using event_Cons [of _ ev pre] by (simp_all add: replayed_append st1)
    ultimately show ?thesis using c by metis
  next
    case (Break st1)
    with rest TxLoop_step_cases [OF step] have "ev # evs = [ev] @ evs" "r = Break st1" "w' = w\<lparr>ext := ext_after (ext w) [ev]\<rparr>"
      "st1 = replayed app (delivered (ext w) [ev]) st" by auto
    then show ?thesis by (intro exI [of _ "[ev]"] exI [of _ evs]) simp
  qed (use rest in \<open>auto intro: exI [of _ "[]"]\<close>)
qed auto

lemma requeueFail_Ok: "requeueFail F m ids f w = (Ok x, w') \<longleftrightarrow> gcall f w = (Ok x, w')"
  by (auto simp: requeueFail_def gbind_Ok_iff gtry_Ok_iff)

lemma requeueTxs_not_Err: "requeueTxs F m ids w \<noteq> (Err e, w')"
  by (induction ids arbitrary: w) (auto simp: requeue1_def gbind_Err_iff gbind_Ok_iff gtry_not_Err)

lemma requeueFail_Err:
  "requeueFail F m ids f w = (Err e, w') \<Longrightarrow> \<exists>v. gcall f w = (Err e, v) \<and> requeueTxs F m ids v = (Ok (), w')"
  by (auto simp: requeueFail_def gbind_Err_iff gtry_Ok_iff gtry_not_Err requeueTxs_not_Err)

definition start_state :: "'a \<Rightarrow> 'a propose_state" where
  "start_state p = \<lparr>pp_appliedTxs = [], pp_txRefs = [], pp_pendingState = p\<rparr>"

lemma replayed_start:
  "replay app txs p = (oks, q) \<Longrightarrow> replayed app txs (start_state p) =
     \<lparr>pp_appliedTxs = map tx_id oks, pp_txRefs = map tx_nodeMessageRef oks, pp_pendingState = q\<rparr>"
  by (simp add: replayed_def start_state_def)

text \<open>The call in its two halves, once the parent's state is known.\<close>

lemma ProposeBlock_run:
  assumes "follow_block_tx_state S (ext w) (GetStateRef b) (Some (opts_EncryptionConfig opts)) = Inr bst"
    and "GetStateAtBlock app b bst (ext w) = Inr p0"
  shows "ProposeBlock S F m app opts True evs late b cs w =
    gbind (TxLoop F m app opts cs evs (start_state p0)) (\<lambda>r.
      case r of
        ReturnNil \<Rightarrow> gret (Some None)
      | ReturnErr err \<Rightarrow> gfail err
      | Break st \<Rightarrow> gbind (finishProposal S F m app opts late st) (\<lambda>ref. gret (Some ref))
      | Continue st \<Rightarrow> gret None) w"
proof -
  have "gtry (gext (\<lambda>e. follow_block_tx_state S e (GetStateRef b) (Some (opts_EncryptionConfig opts)))) w = (Ok (Inr bst), w)"
    "gtry (gext (\<lambda>e. GetStateAtBlock app b bst e)) w = (Ok (Inr p0), w)"
    using assms by (simp_all add: gtry_def)
  then show ?thesis by (simp add: ProposeBlock_def start_state_def)
qed

section \<open>Properties\<close>

text \<open>C4: what a proposed block contains. Let \<open>ProposeBlock\<close> return a reference. Then it handled the events \<open>pre\<close>, and
  applied the transactions they delivered, in order and each with the external state of that moment, to the parent
  block's application state; the transaction set it stored lists exactly those the application accepted, the
  application state it stored is the result of applying them, there are at least as many as the minimum, and the
  reference is that of the block state with both.\<close>

theorem proposed_block_contents:
  assumes run: "ProposeBlock S F m app opts True evs late b cs w = (Ok (Some (Some ref)), w')"
  shows "\<exists>bst p0 pre post oks q stateRef setRef e1 e2.
    follow_block_tx_state S (ext w) (GetStateRef b) (Some (opts_EncryptionConfig opts)) = Inr bst \<and>
    GetStateAtBlock app b bst (ext w) = Inr p0 \<and>
    evs = pre @ post \<and> replay app (delivered (ext w) pre) p0 = (oks, q) \<and>
    MinBlockTransactions opts \<le> int (length oks) \<and>
    Serialize app q (ext_after (ext w) pre) = (Inr stateRef, e1) \<and>
    store_tx_set S e1 (map tx_nodeMessageRef oks) (opts_EncryptionConfig opts) = (Inr setRef, e2) \<and>
    store_block_tx_state S e2 \<lparr>bts_ApplicationStateRef = stateRef, bts_TransactionSetRef = setRef\<rparr>
      (opts_EncryptionConfig opts) = (Inr (Some ref), ext w')"
proof -
  from run obtain bst p0 where
    bst: "follow_block_tx_state S (ext w) (GetStateRef b) (Some (opts_EncryptionConfig opts)) = Inr bst"
    and p0: "GetStateAtBlock app b bst (ext w) = Inr p0"
    by (auto simp: ProposeBlock_def gbind_Ok_iff gtry_Ok_iff)
  from run obtain r w1 where loop: "TxLoop F m app opts cs evs (start_state p0) w = (Ok r, w1)"
    and fin: "(case r of ReturnNil \<Rightarrow> gret (Some None) | ReturnErr err \<Rightarrow> gfail err
      | Break st \<Rightarrow> gbind (finishProposal S F m app opts late st) (\<lambda>ref. gret (Some ref))
      | Continue st \<Rightarrow> gret None) w1 = (Ok (Some (Some ref)), w')"
    by (auto simp: ProposeBlock_run [OF bst p0] gbind_Ok_iff)
  then obtain st where r: "r = Break st" by (cases r) auto
  from TxLoop_cases [OF loop] r obtain pre post where d: "evs = pre @ post"
    and w1: "w1 = w\<lparr>ext := ext_after (ext w) pre\<rparr>" "st = replayed app (delivered (ext w) pre) (start_state p0)" by auto
  obtain oks q where oks: "replay app (delivered (ext w) pre) p0 = (oks, q)" by force
  have "finishProposal S F m app opts late st w1 = (Ok (Some ref), w')"
    using fin r by (auto simp: gbind_Ok_iff)
  then show ?thesis using bst p0 d oks w1 replayed_start [OF oks]
    by (auto simp: finishProposal_def Let_def gbind_Ok_iff requeueFail_Ok gcall_Ok
        split: option.splits if_splits)
qed

lemma TxLoop_step_not_Err: "TxLoop_step F m app opts cs ev st w \<noteq> (Err e, w')"
  by (cases "(F, m, app, opts, cs, ev, st)" rule: TxLoop_step.cases)
     (auto simp: gbind_Err_iff gbind_Ok_iff requeueTxs_not_Err Let_def split: prod.splits option.splits if_splits)

lemma TxLoop_not_Err: "TxLoop F m app opts cs evs st w \<noteq> (Err e, w')"
  by (induction evs arbitrary: st w)
     (auto simp: gbind_Err_iff TxLoop_step_not_Err split: loop_result.splits)







lemma GetTx_state: "GetTx X pb i conf h txID w = (r, w') \<Longrightarrow> w' = w"
  unfolding GetTx_def getEntry_def Let_def
  by (rule keeps_all_state [rotated], assumption) (intro keeps_intros)

text \<open>C29: the resolving stage does not lose a transaction silently. An identifier taken from the pool is
  handed over as a transaction with the pool unchanged, or enqueued again, or given up, and it is
  given up only when its lookup fails for a reason other than the context, or when the application
  rejects it; giving it up changes nothing. A transaction that is waiting to be handed over when the context ends
  is enqueued again.\<close>

theorem resolver_accounts:
  assumes step: "Resolver_step X pb i F m app opts p (IdReceived txID) AwaitID w = (Ok ph, w')"
  shows "(\<exists>tx. ph = HandOver txID tx \<and> w' = w \<and>
      GetTx X pb i (Some (opts_EncryptionConfig opts)) (mp_txDb m) txID w = (Ok tx, w) \<and>
      (\<forall>p2 w2. Resolver_step X pb i F m app opts p2 ResolverCtxDone ph w2 =
         gbind (requeue1 F m txID) (\<lambda>_. gret (Returned None)) w2)) \<or>
    requeue1 F m txID w = (Ok (), w') \<or>
    (w' = w \<and> ph = AwaitID \<and> (\<exists>err. err \<noteq> ContextCanceled \<and> err \<noteq> DeadlineExceeded \<and>
      GetTx X pb i (Some (opts_EncryptionConfig opts)) (mp_txDb m) txID w = (Err err, w))) \<or>
    (w' = w \<and> ph = Returned None \<and> (\<exists>tx err. PrePoolCheckTx app p tx (ext w) = Ok (False, Some err) \<and>
      GetTx X pb i (Some (opts_EncryptionConfig opts)) (mp_txDb m) txID w = (Ok tx, w)))"
proof -
  obtain g w1 where g: "GetTx X pb i (Some (opts_EncryptionConfig opts)) (mp_txDb m) txID w = (g, w1)" by force
  then have w1: "w1 = w" by (rule GetTx_state)
  show ?thesis
  proof (cases g)
    case (Ok tx)
    with g w1 have "gtry (GetTx X pb i (Some (opts_EncryptionConfig opts)) (mp_txDb m) txID) w = (Ok (Inr tx), w)"
      by (simp add: gtry_def)
    with step obtain sysErr txErr where "PrePoolCheckTx app p tx (ext w) = Ok (sysErr, txErr)"
      by (cases "PrePoolCheckTx app p tx (ext w)") (auto simp: resolveTx_def gbind_def)
    with step g w1 Ok show ?thesis
      by (auto simp: resolveTx_def gtry_def gbind_Ok_iff split: option.splits if_splits)
  next
    case (Err err)
    with step g w1 show ?thesis
      by (auto simp: resolveTx_def gtry_def gbind_Ok_iff split: if_splits)
  next
    case Panic
    with step g show ?thesis by (simp add: resolveTx_def gtry_def gbind_def)
  qed
qed

lemma resolver_step_typed:
  assumes step: "Resolver_step X pb i F m app opts p (IdReceived txID) AwaitID w = (Ok ph, w')"
  shows "case ph of HandOver _ (Some tx) \<Rightarrow>
    tx_wf X i tx \<and> (\<exists>e sysErr. PrePoolCheckTx app p (Some tx) e = Ok (sysErr, None)) | _ \<Rightarrow> True"
proof -
  from step obtain r w1 where r: "resolveTx X pb i F m app opts p txID w = (Ok r, w1)"
    and ph: "ph = (case r of Resolved tx \<Rightarrow> HandOver txID tx | SkipTx \<Rightarrow> AwaitID | StopResolving \<Rightarrow> Returned None
       | FailResolving err \<Rightarrow> Returned (Some err))" by (auto simp: gbind_Ok_iff)
  have "tx_wf X i tx \<and> (\<exists>e sysErr. PrePoolCheckTx app p (Some tx) e = Ok (sysErr, None))" if "r = Resolved (Some tx)" for tx
  proof -
    from r [unfolded resolveTx_def gbind_Ok_iff] obtain g s where
      g: "gtry (GetTx X pb i (Some (opts_EncryptionConfig opts)) (mp_txDb m) txID) w = (Ok g, s)"
      and rest: "(case g of
          Inl err \<Rightarrow> gbind (if err = ContextCanceled \<or> err = DeadlineExceeded then requeue1 F m txID else gret ()) (\<lambda>_. gret SkipTx)
        | Inr t \<Rightarrow> gbind (\<lambda>w. (PrePoolCheckTx app p t (ext w), w)) (\<lambda>(sysErr, txErr).
            case txErr of None \<Rightarrow> gret (Resolved t)
            | Some err \<Rightarrow> if sysErr \<or> err = ContextCanceled \<or> err = DeadlineExceeded
                then gbind (requeue1 F m txID) (\<lambda>_. gret (FailResolving err)) else gret StopResolving)) s = (Ok r, w1)"
      by blast
    from rest that obtain sysErr where gi: "g = Inr (Some tx)" and ok: "PrePoolCheckTx app p (Some tx) (ext s) = Ok (sysErr, None)"
      by (cases g) (auto simp: gbind_Ok_iff split: option.splits if_splits, metis not_None_eq)
    from g gi have "GetTx X pb i (Some (opts_EncryptionConfig opts)) (mp_txDb m) txID w = (Ok (Some tx), s)"
      by (simp add: gtry_Ok_iff)
    moreover note ok
    ultimately show ?thesis using GetTx_wf by blast
  qed
  with ph show ?thesis by (cases r) (auto split: option.splits)
qed

text \<open>The phases the resolving stage can be in: it may be scheduled in any state of the rest of the process, and \<open>P\<close> holds
  the states that the application's handle goes through meanwhile.\<close>

inductive resolver_reaches ::
  "('e, 'x) externals_scheme \<Rightarrow> tx_info codec \<Rightarrow> u32 \<Rightarrow> 'e fibheap \<Rightarrow> ('e, 'z) world_scheme mempool \<Rightarrow>
     ('e, 'a) application \<Rightarrow> proposer_opts \<Rightarrow> 'a set \<Rightarrow> resolver_phase \<Rightarrow> bool"
  for X pb txMsgID F m app opts P where
  resolver_begin: "resolver_reaches X pb txMsgID F m app opts P AwaitID"
| resolver_next: "resolver_reaches X pb txMsgID F m app opts P ph \<Longrightarrow> p \<in> P \<Longrightarrow>
    Resolver_step X pb txMsgID F m app opts p ev ph w = (Ok ph', w') \<Longrightarrow>
    resolver_reaches X pb txMsgID F m app opts P ph'"

text \<open>C30: only well-formed transactions reach a block. Whatever the order of events and whatever the rest of the
  process does in between, changes of the application's state included, a transaction that the resolving stage hands over
  to the stage that applies transactions was built from an application message of the transaction type with a timestamp,
  refers to the object of that message, carries the identifier computed from it, and was accepted by the application's
  check of the pool in a state that the application's handle went through.\<close>

theorem resolved_transactions_typed:
  assumes "resolver_reaches X pb txMsgID F m app opts P (HandOver txID (Some tx))"
  shows "tx_wf X txMsgID tx \<and> (\<exists>p\<in>P. \<exists>e sysErr. PrePoolCheckTx app p (Some tx) e = Ok (sysErr, None))"
proof -
  have "case ph of HandOver _ (Some tx) \<Rightarrow>
      tx_wf X txMsgID tx \<and> (\<exists>p\<in>P. \<exists>e sysErr. PrePoolCheckTx app p (Some tx) e = Ok (sysErr, None)) | _ \<Rightarrow> True"
    if "resolver_reaches X pb txMsgID F m app opts P ph" for ph
    using that
  proof induction
    case (resolver_next ph p ev w ph' w')
    show ?case
    proof (cases "\<exists>txID. ev = IdReceived txID \<and> ph = AwaitID")
      case True
      then obtain txID where "ev = IdReceived txID" "ph = AwaitID" by blast
      with resolver_next.hyps(2,3) resolver_step_typed show ?thesis by (fastforce split: resolver_phase.splits option.splits)
    next
      case False
      with resolver_next show ?thesis
        by (cases ev; cases ph) (auto simp: gbind_Ok_iff split: option.splits)
    qed
  qed simp
  from this [OF assms] show ?thesis by simp
qed

text \<open>An error that comes late costs the block's transactions. If an error is waiting in the channel
  when the loop has ended, the call returns it and leaves the pool as it is, although the transactions it
  applied were taken out of the pool and are not put back, whatever their number.\<close>

theorem late_error_loses_transactions:
  assumes bst: "follow_block_tx_state S (ext w) (GetStateRef b) (Some (opts_EncryptionConfig opts)) = Inr bst"
    and p0: "GetStateAtBlock app b bst (ext w) = Inr p0"
    and loop: "TxLoop F m app opts cs evs (start_state p0) w = (Ok (Break st), w1)"
  shows "ProposeBlock S F m app opts True evs (Some (Some err)) b cs w = (Err err, w1)"
  using loop by (simp add: ProposeBlock_run [OF bst p0] finishProposal_def gbind_def)

text \<open>The two ratios have no effect. For options that \<open>NewProposer\<close> accepts, a wait ratio below one makes
  the proposer wait for nothing but the start of the round, and a deadline ratio between zero and one puts
  the deadline for collecting transactions at the start of the round, because the conversion to a whole
  number of nanoseconds drops the fraction before the multiplication.\<close>

theorem ratios_truncated:
  assumes "NewMempoolProposer memPool opts app = Ok P"
  shows "(ProposeWaitRatio opts < 1 \<longrightarrow> waitUntil opts cs = sn_RoundStartTime cs) \<and>
    (0 < ProposeDeadlineRatio opts \<and> ProposeDeadlineRatio opts < 1 \<longrightarrow>
       collectDeadline opts cs = Some (sn_RoundStartTime cs))"
proof -
  have "go_trunc r = 0" if "0 \<le> r" "r < 1" for r :: rat
    using that by (simp add: go_trunc_def floor_eq_iff)
  moreover have "0 \<le> ProposeWaitRatio opts" using assms
    by (simp add: NewMempoolProposer_def ProposerOpts_Validate_def split: if_splits)
  ultimately show ?thesis by (simp add: waitUntil_def collectDeadline_def)
qed

section \<open>Collecting\<close>

lemma TimestampOrderer_state: "TimestampOrderer X pb conf db txID w = (r, w') \<Longrightarrow> w' = w"
  unfolding TimestampOrderer_def TxDb_Get_def getEntry_def
  by (rule keeps_all_state [rotated], assumption) (intro keeps_intros)

lemma Enqueue_notify:
  assumes "mp_orderer m = TimestampOrderer X pb conf db" "Enqueue F m txID w = (r, w')"
  shows "enqueueNotify w' = enqueueNotify w"
proof -
  have "keeps (\<lambda>v. enqueueNotify v = enqueueNotify w) (TimestampOrderer X pb conf db txID)"
    unfolding TimestampOrderer_def TxDb_Get_def getEntry_def by (intro keeps_intros)
  then have "keeps (\<lambda>v. enqueueNotify v = enqueueNotify w) (Enqueue F m txID)"
    unfolding Enqueue_def assms(1) by (intro keeps_intros) simp_all
  from keepsD [OF this assms(2)] show ?thesis by simp
qed

text \<open>A waiting collector is never woken. Once \<open>CollectTransactions\<close> has found the pool empty it waits
  for a notification that no operation of the pool sends: whatever is enqueued afterwards, its channel
  stays empty and it goes on waiting until its context ends.\<close>

theorem collector_never_woken:
  assumes order: "mp_orderer m = TimestampOrderer X pb conf db"
    and wait: "enqueueNotify w i = Some []"
    and more: "requeueTxs F m ids w = (r, w')"
  shows "enqueueNotify w' i = Some [] \<and>
    CollectTransactions_step F m i Woken (Waiting mx) w' = (Ok (Waiting mx), w')"
proof -
  have "keeps (\<lambda>v. enqueueNotify v = enqueueNotify w) (Enqueue F m txID)" for txID
    by (rule keepsI) (metis Enqueue_notify order prod.collapse)
  then have "keeps (\<lambda>v. enqueueNotify v = enqueueNotify w) (requeueTxs F m ids)"
    by (induction ids) (auto simp: requeue1_def intro!: keeps_intros)
  from keepsD [OF this more] wait show ?thesis by simp
qed

text \<open>Collecting stops at the maximum. While the pool has transactions and the consumer takes them, a
  positive maximum ends the loop without an error after exactly that many, and with a maximum of zero
  it goes on for as long as it is fed.\<close>

theorem collect_stops_at_max:
  assumes fed: "\<And>e. \<exists>txID p e'. fh_DequeueMin F e (mp_txHeap m) = (Inr (txID, p), e') \<and> txID \<noteq> []"
  shows "(\<exists>w'. collect_run F m i (concat (replicate (Suc n) [Advance, Taken])) (Dequeuing (1 + int n)) w = (Ok (Collected None), w')) \<and>
    (\<exists>w'. collect_run F m i (concat (replicate n [Advance, Taken])) (Dequeuing 0) w = (Ok (Dequeuing 0), w'))"
proof
  have adv: "\<exists>txID w'. CollectTransactions_step F m i Advance (Dequeuing mx) w = (Ok (Offering txID mx), w')" for mx w
    using fed [of "ext w"] by (auto simp: DequeueMin_def gbind_def gtry_def gcall_def)
  show "\<exists>w'. collect_run F m i (concat (replicate (Suc n) [Advance, Taken])) (Dequeuing (1 + int n)) w = (Ok (Collected None), w')"
  proof (induction n arbitrary: w)
    case 0
    from adv [of 1 w] show ?case by (auto simp: gbind_def)
  next
    case (Suc n)
    from adv [of "1 + int (Suc n)" w] obtain txID w1 where
      "CollectTransactions_step F m i Advance (Dequeuing (1 + int (Suc n))) w = (Ok (Offering txID (1 + int (Suc n))), w1)" by blast
    with Suc.IH [of w1] show ?case by (simp add: gbind_def add.commute)
  qed
  show "\<exists>w'. collect_run F m i (concat (replicate n [Advance, Taken])) (Dequeuing 0) w = (Ok (Dequeuing 0), w')"
  proof (induction n arbitrary: w)
    case (Suc n)
    from adv [of 0 w] obtain txID w1 where
      "CollectTransactions_step F m i Advance (Dequeuing 0) w = (Ok (Offering txID 0), w1)" by blast
    with Suc.IH [of w1] show ?case by (simp add: gbind_def)
  qed simp
qed

end
