(* ===== verification/Apps.thy ===== *)
theory Apps
  imports Mempool
begin

text \<open>
  The applications in the repository: the mock application of \<^verbatim>\<open>utils/transaction/mock\<close> and the chat of
  \<^verbatim>\<open>examples/chat\<close>, which plug into the mempool's proposer, and the counter of \<^verbatim>\<open>examples/counter\<close>,
  a block proposer of its own. Their objects in the store are read and written through the arguments
  \<open>fetchState\<close>, \<open>fetchTx\<close> and \<open>put\<close>; a nil transaction is \<open>None\<close>, and reading a field of it panics.
\<close>

section \<open>The mock application\<close>

record mock_state =
  AppliedTxCount :: u32
  AppliedTxSize :: u32
  LastTxData :: bytes

definition mock_GetStateAtBlock ::
  "('e \<Rightarrow> sref \<Rightarrow> go_error + mock_state) \<Rightarrow> block \<Rightarrow> block_tx_state \<Rightarrow> 'e \<Rightarrow> go_error + mock_state" where
  "mock_GetStateAtBlock fetchState blk blkState e = fetchState e (bts_ApplicationStateRef blkState)"

definition mock_PrePoolCheckTx ::
  "('e \<Rightarrow> sref \<Rightarrow> go_error + bytes) \<Rightarrow> mock_state \<Rightarrow> transaction option \<Rightarrow> 'e \<Rightarrow> (bool \<times> go_error option) res" where
  "mock_PrePoolCheckTx fetchTx v tx e =
     (case tx of
        None \<Rightarrow> Panic
      | Some t \<Rightarrow>
          (case fetchTx e (nm_InnerRef (tx_nodeMessage t)) of
             Inl err \<Rightarrow> Ok (True, Some err)
           | Inr innerData \<Rightarrow>
               if length innerData = 0 then Ok (False, Some (Errorf ''transaction empty''))
               else Ok (False, None)))"

definition mock_Apply ::
  "('e \<Rightarrow> sref \<Rightarrow> go_error + bytes) \<Rightarrow> mock_state \<Rightarrow> transaction \<Rightarrow> 'e \<Rightarrow>
     (bool \<times> go_error option) \<times> mock_state" where
  "mock_Apply fetchTx v tx e =
     (case fetchTx e (nm_InnerRef (tx_nodeMessage tx)) of
        Inl err \<Rightarrow> ((True, Some err), v)
      | Inr innerData \<Rightarrow>
          ((False, None), \<lparr>AppliedTxCount = AppliedTxCount v + 1,
             AppliedTxSize = AppliedTxSize v + of_nat (length innerData), LastTxData = innerData\<rparr>))"

definition mock_Serialize ::
  "('e \<Rightarrow> mock_state \<Rightarrow> (go_error + sref) \<times> 'e) \<Rightarrow> bool \<Rightarrow> mock_state \<Rightarrow> 'e \<Rightarrow> (go_error + sref) \<times> 'e" where
  "mock_Serialize put hasObjStore v e =
     (if \<not> hasObjStore then (Inl (Errorf ''no objstore attached to context''), e) else put e v)"

definition mock_application ::
  "('e \<Rightarrow> sref \<Rightarrow> go_error + mock_state) \<Rightarrow> ('e \<Rightarrow> sref \<Rightarrow> go_error + bytes) \<Rightarrow>
     ('e \<Rightarrow> mock_state \<Rightarrow> (go_error + sref) \<times> 'e) \<Rightarrow> ('e, mock_state) application" where
  "mock_application fetchState fetchTx put =
     \<lparr>GetStateAtBlock = mock_GetStateAtBlock fetchState, PrePoolCheckTx = mock_PrePoolCheckTx fetchTx,
      Apply = mock_Apply fetchTx, Serialize = mock_Serialize put True\<rparr>"

section \<open>The chat\<close>

record chat_state =
  MessageCount :: u32

text \<open>The decoded chat transaction is not used further; \<open>'t\<close> is its type.\<close>

definition chat_GetTransaction ::
  "('e \<Rightarrow> sref \<Rightarrow> go_error + 't) \<Rightarrow> transaction option \<Rightarrow> 'e \<Rightarrow> 't res" where
  "chat_GetTransaction fetchTx tx e =
     (case tx of None \<Rightarrow> Panic | Some t \<Rightarrow> res_of (fetchTx e (nm_InnerRef (tx_nodeMessage t))))"

definition chat_getVirtualState ::
  "('e \<Rightarrow> sref \<Rightarrow> go_error + chat_state) \<Rightarrow> sref \<Rightarrow> 'e \<Rightarrow> go_error + chat_state" where
  "chat_getVirtualState fetchState appState e = fetchState e appState"

definition chat_GetStateAtBlock ::
  "('e \<Rightarrow> sref \<Rightarrow> go_error + chat_state) \<Rightarrow> block \<Rightarrow> block_tx_state \<Rightarrow> 'e \<Rightarrow> go_error + chat_state" where
  "chat_GetStateAtBlock fetchState blk blkState e =
     chat_getVirtualState fetchState (bts_ApplicationStateRef blkState) e"

definition chat_PrePoolCheckTx ::
  "('e \<Rightarrow> sref \<Rightarrow> go_error + 't) \<Rightarrow> chat_state \<Rightarrow> transaction option \<Rightarrow> 'e \<Rightarrow> (bool \<times> go_error option) res" where
  "chat_PrePoolCheckTx fetchTx s tx e =
     (case chat_GetTransaction fetchTx tx e of
        Ok _ \<Rightarrow> Ok (False, None)
      | Err err \<Rightarrow> Ok (False, Some err)
      | Panic \<Rightarrow> Panic)"

definition chat_Apply ::
  "('e \<Rightarrow> sref \<Rightarrow> go_error + 't) \<Rightarrow> chat_state \<Rightarrow> transaction \<Rightarrow> 'e \<Rightarrow> (bool \<times> go_error option) \<times> chat_state" where
  "chat_Apply fetchTx s tx e =
     (case fetchTx e (nm_InnerRef (tx_nodeMessage tx)) of
        Inl err \<Rightarrow> ((False, Some err), s)
      | Inr txd \<Rightarrow> ((False, None), s\<lparr>MessageCount := MessageCount s + 1\<rparr>))"

definition chat_application ::
  "('e \<Rightarrow> sref \<Rightarrow> go_error + chat_state) \<Rightarrow> ('e \<Rightarrow> sref \<Rightarrow> go_error + 't) \<Rightarrow>
     ('e \<Rightarrow> chat_state \<Rightarrow> (go_error + sref) \<times> 'e) \<Rightarrow> ('e, chat_state) application" where
  "chat_application fetchState fetchTx put =
     \<lparr>GetStateAtBlock = chat_GetStateAtBlock fetchState, PrePoolCheckTx = chat_PrePoolCheckTx fetchTx,
      Apply = chat_Apply fetchTx, Serialize = (\<lambda>s e. put e s)\<rparr>"

definition chat_readState ::
  "('e, 'x) externals_scheme \<Rightarrow> chat_state codec \<Rightarrow> db_view \<Rightarrow> chat_state \<Rightarrow> (('e, 'z) world_scheme, chat_state) go" where
  "chat_readState X pb dbm old = read_slot X pb dbm ''/chat-state'' old"

definition NewChat ::
  "('e, 'x) externals_scheme \<Rightarrow> chat_state codec \<Rightarrow> db_view \<Rightarrow> (('e, 'z) world_scheme, chat_state) go" where
  "NewChat X pb localDb = chat_readState X pb localDb \<lparr>MessageCount = 0\<rparr>"

section \<open>The counter\<close>

record counter_state =
  CounterVal :: u64

definition counter_GetState ::
  "(sref \<Rightarrow> bool) \<Rightarrow> ('e \<Rightarrow> sref \<Rightarrow> go_error + counter_state) \<Rightarrow> block \<Rightarrow> 'e \<Rightarrow> go_error + counter_state" where
  "counter_GetState isEmpty fetchState b e =
     (if \<not> isEmpty (GetStateRef b) then fetchState e (GetStateRef b) else Inr \<lparr>CounterVal = 0\<rparr>)"

definition counter_ProposeBlock ::
  "(sref \<Rightarrow> bool) \<Rightarrow> ('e \<Rightarrow> sref \<Rightarrow> go_error + counter_state) \<Rightarrow> ('e \<Rightarrow> counter_state \<Rightarrow> (go_error + sref) \<times> 'e) \<Rightarrow>
     bool \<Rightarrow> 'e block_proposer" where
  "counter_ProposeBlock isEmpty fetchState put hasObjStore parentBlk chainState e =
     (if \<not> hasObjStore then (Inl (Errorf ''object store not set, cannot propose blocks''), e)
      else case counter_GetState isEmpty fetchState parentBlk e of
        Inl err \<Rightarrow> (Inl err, e)
      | Inr parentState \<Rightarrow> put e \<lparr>CounterVal = CounterVal parentState + 1\<rparr>)"

section \<open>Applications that count\<close>

text \<open>
  The contract the two applications share: an accepted transaction adds one to a counter of the pending
  state, a rejected one leaves the state alone.
\<close>

locale counting_app =
  fixes app :: "('e, 'a) application" and cnt :: "'a \<Rightarrow> u32"
  assumes accepted: "Apply app p tx e = ((s, None), p') \<Longrightarrow> cnt p' = cnt p + 1"
    and rejected: "Apply app p tx e = ((s, Some err), p') \<Longrightarrow> p' = p"
begin

lemma replay_count: "replay app txs p = (oks, q) \<Longrightarrow> cnt q = cnt p + of_nat (length oks)"
proof (induction txs arbitrary: p oks)
  case (Cons t txs)
  obtain tx e where t: "t = (tx, e)" by force
  obtain s r p' where ap: "Apply app p tx e = ((s, r), p')" by (metis prod.exhaust)
  show ?case
  proof (cases r)
    case None
    with Cons.prems ap obtain oks' where "replay app txs p' = (oks', q)" "oks = tx # oks'"
      by (auto simp: t split: prod.splits)
    with Cons.IH [of p' oks'] accepted ap None show ?thesis by simp
  next
    case (Some err)
    then have "p' = p" using rejected [of p tx e s err p'] ap by simp
    with Some Cons.prems ap Cons.IH [of p oks] show ?thesis by (simp add: t)
  qed
qed simp

end

interpretation mock_counts: counting_app "mock_application fetchState fetchTx put" AppliedTxCount
  for fetchState fetchTx put
  by unfold_locales (auto simp: mock_application_def mock_Apply_def split: sum.splits)

interpretation chat_counts: counting_app "chat_application fetchState fetchTx put" MessageCount
  for fetchState fetchTx put
  by unfold_locales (auto simp: chat_application_def chat_Apply_def split: sum.splits)

text \<open>The applications count the transactions of a block. Applying the transactions delivered for a
  block raises the counter of the mock application, and that of the chat, by exactly the number of
  transactions that enter the block's transaction set, modulo its 32 bits.\<close>

theorem block_counts_transactions:
  "(replay (mock_application fs ft put) txs p = (oks, q) \<longrightarrow>
      AppliedTxCount q = AppliedTxCount p + of_nat (length oks)) \<and>
   (replay (chat_application fs2 ft2 put2) txs2 p2 = (oks2, q2) \<longrightarrow>
      MessageCount q2 = MessageCount p2 + of_nat (length oks2))"
  by (intro conjI impI; (erule mock_counts.replay_count | erule chat_counts.replay_count))

text \<open>An unknown transaction stops the program. When the pool holds an identifier that the
  transaction database does not know, resolving it for a block passes a nil transaction to the
  application's check, and both applications read a field of it, which panics.\<close>

theorem unknown_transaction_panics:
  assumes "TxDb_Get X pb (mp_txDb m) txID w = (Ok None, w)"
  shows "resolveTx X pb i F m (mock_application fs ft put) opts p txID w = (Panic, w) \<and>
    resolveTx X pb i F m (chat_application fs2 ft2 put2) opts p2 txID w = (Panic, w)"
proof -
  have "gtry (GetTx X pb i (Some (opts_EncryptionConfig opts)) (mp_txDb m) txID) w = (Ok (Inr None), w)"
    using assms by (simp add: GetTx_def TxDb_Get_def gbind_def gtry_def)
  then show ?thesis
    by (simp add: resolveTx_def gbind_def mock_application_def chat_application_def mock_PrePoolCheckTx_def
        chat_PrePoolCheckTx_def chat_GetTransaction_def)
qed

end
