(* ===== verification/PoolWitnesses.thy ===== *)
theory PoolWitnesses
  imports Demo TxVector Apps
begin

text \<open>
  Witnesses for the properties of the encryption strategy, the transaction database, the pool and the
  applications: a pool kept as a list, a store that answers with fixed references, and the mock
  application on a store where one transaction can be read and another cannot.
\<close>

section \<open>Encryption\<close>

theorem configs_agree_witness:
  "\<exists>n blk nm. length n = 24 \<and>
    GetBlockEncryptionConfigWithDigest demo_strategy (replicate 24 3) = Ok blk \<and>
    GetGenesisEncryptionConfigWithDigest demo_strategy (replicate 24 3) = Ok blk \<and>
    GetNodeMessageEncryptionConfigWithDigest demo_strategy (PubKey 1) (replicate 24 3) = Ok nm \<and>
    ResourceLookup (GetBlockEncryptionConfig demo_X demo_strategy) [1, 2, 3] = Ok (strat_Key demo_strategy, n) \<and>
    ResourceLookup (GetGenesisEncryptionConfig demo_X demo_strategy) [1, 2, 3] = Ok (strat_Key demo_strategy, n) \<and>
    ResourceLookup (GetNodeMessageEncryptionConfig demo_X demo_strategy (PrivKey 1)) [1, 2, 3] = Ok (strat_Key demo_strategy, n) \<and>
    (\<forall>m. ResourceLookup blk m = Ok (strat_Key demo_strategy, n) \<and> ResourceLookup nm m = Ok (strat_Key demo_strategy, n)) \<and>
    EncryptionType blk = EncryptionType (GetBlockEncryptionConfig demo_X demo_strategy) \<and>
    CompressionType blk = CompressionType (GetBlockEncryptionConfig demo_X demo_strategy) \<and>
    SignerKeys (GetNodeMessageEncryptionConfig demo_X demo_strategy (PrivKey 1)) = [PrivKey 1] \<and> VerifyKeys nm = [PubKey 1]"
proof -
  have "digest_data demo_X [1, 2, 3] = Inr (replicate 24 3)" by (simp add: demo_externals_def)
  from configs_agree [OF this] show ?thesis by simp
qed

definition demo_registry :: "bytes ctor_registry" where
  "demo_registry = [ConvergentImmutable \<mapsto> Some (NewConvergentImmutableStrategyFromConfig Inr)]"

theorem strategy_rebuilt_from_args_witness:
  "BuildEncryptionStrategy (\<lambda>_. True) demo_registry ConvergentImmutable (replicate 32 7) = Ok demo_strategy \<and>
   BuildEncryptionStrategy (\<lambda>_. True) demo_registry ConvergentImmutable [1] =
     Err (Errorf ''pre-shared key must be 32 bytes long'')"
proof -
  have init: "init_convergentimmutable Inr Map.empty = (Ok (), demo_registry)"
    by (simp add: init_convergentimmutable_def MustRegisterEncryptionStrategyCtor_def
        RegisterEncryptionStrategyCtor_def demo_registry_def gbind_def gtry_def)
  have made: "NewConvergentImmutableStrategy (Inr (replicate 32 7)) = Ok demo_strategy \<and> length (replicate 32 (7 :: byte)) = 32"
    by (simp add: NewConvergentImmutableStrategy_def demo_strategy_def)
  have args: "BuildArgs Inr demo_strategy = Ok (replicate 32 7)"
    by (simp add: BuildArgs_def demo_strategy_def)
  have "GetEncryptionStrategyType demo_strategy = ConvergentImmutable" by (simp add: GetEncryptionStrategyType_def)
  with strategy_rebuilt_from_args [of Inr Inr "\<lambda>_. True", OF _ _ init disjI1 [OF made] args]
  show ?thesis by simp
qed

section \<open>The transaction database\<close>

definition pool_pb :: "tx_info codec" where
  "pool_pb = table_codec [\<lparr>ti_NodeMessageRef = demo_ref 70\<rparr>]"

definition pool_message :: node_message where
  "pool_message = \<lparr>nm_MessageType = APP, nm_GenesisRef = demo_ref 32, nm_InnerRef = demo_ref 41,
     nm_Timestamp = Some \<lparr>TimeUnixMs = 9000\<rparr>, nm_AppMessageType = 4, nm_PubKey = [0],
     nm_PrevMsgRef = None\<rparr>"

definition pool_w :: "demo_env world" where
  "pool_w = \<lparr>ext = demo_env0\<lparr>env_messages := [(replicate 24 70, pool_message)]\<rparr>\<rparr>"

definition pool_w1 :: "demo_env world" where
  "pool_w1 = snd (TxDb_Put demo_X pool_pb [''/tx''] ''a'' (demo_ref 70) pool_w)"

lemma pool_codec [simp]: "codec_ok pool_pb"
  by (simp add: pool_pb_def)

lemma pool_put: "TxDb_Put demo_X pool_pb [''/tx''] ''a'' (demo_ref 70) pool_w = (Ok (), pool_w1)"
proof -
  have "fst (TxDb_Put demo_X pool_pb [''/tx''] ''a'' (demo_ref 70) pool_w) = Ok ()" by code_simp
  then show ?thesis by (simp add: pool_w1_def prod_eq_iff)
qed

theorem put_then_get_witness:
  "GetTx demo_X pool_pb 4 None [''/tx''] ''a'' pool_w1 =
     (rbind (res_of (follow_node_message demo_X (ext pool_w1) (demo_ref 70) None [])) (\<lambda>nm.
      rbind (FromNodeMessage demo_X 4 nm) (\<lambda>tx. Ok (Some (tx\<lparr>tx_nodeMessageRef := demo_ref 70\<rparr>)))), pool_w1) \<and>
   fst (TxDb_Get demo_X pool_pb [''/tx''] ''b'' pool_w1) = fst (TxDb_Get demo_X pool_pb [''/tx''] ''b'' pool_w)"
  using put_then_get [OF demo_db_ok pool_codec _ pool_put, of 4 None] by simp

theorem tx_id_test_vector_witness:
  "ComputeTxID (demo_X\<lparr>pub_bytes := \<lambda>k. Inr testPubKeyDat\<rparr>) (Some \<lparr>TimeUnixMs = 1000000\<rparr>) (PubKey 1) =
     Ok ''3ff1e0950811b196f4355708cee12d599f6c8a0d''"
  by (rule tx_id_test_vector) simp

theorem container_roundtrip_witness:
  "DbContainer_ReadState demo_X (table_codec [True, False]) (NewDbContainer [''/d''] ''c'' True)
     (snd (DbContainer_WriteState demo_X (table_codec [True, False]) (NewDbContainer [''/d''] ''c'' False) pool_w)) =
   (Ok (NewDbContainer [''/d''] ''c'' False),
     snd (DbContainer_WriteState demo_X (table_codec [True, False]) (NewDbContainer [''/d''] ''c'' False) pool_w))"
proof -
  have "fst (DbContainer_WriteState demo_X (table_codec [True, False]) (NewDbContainer [''/d''] ''c'' False) pool_w) = Ok ()"
    by code_simp
  then have "DbContainer_WriteState demo_X (table_codec [True, False]) (NewDbContainer [''/d''] ''c'' False) pool_w =
      (Ok (), snd (DbContainer_WriteState demo_X (table_codec [True, False]) (NewDbContainer [''/d''] ''c'' False) pool_w))"
    by (metis prod.collapse)
  from container_roundtrip [OF demo_db_ok table_codec_ok this] show ?thesis .
qed

section \<open>The pool\<close>

definition pool_F :: "demo_env fibheap" where
  "pool_F = \<lparr>fh_Enqueue = (\<lambda>e h t p. (Inr (), e\<lparr>env_topics := env_topics e @ [(t, [])]\<rparr>)),
     fh_DequeueMin = (\<lambda>e h. case env_topics e of
        [] \<Rightarrow> (Inr ([], 0), e) | (t, _) # rest \<Rightarrow> (Inr (t, 0), e\<lparr>env_topics := rest\<rparr>))\<rparr>"

definition pool_S :: "demo_env tx_store" where
  "pool_S = \<lparr>follow_block_tx_state = (\<lambda>e r c. Inr \<lparr>bts_ApplicationStateRef = demo_ref 80, bts_TransactionSetRef = demo_ref 81\<rparr>),
     store_tx_set = (\<lambda>e l c. (Inr (demo_ref 83), e)),
     store_block_tx_state = (\<lambda>e x c. (Inr (demo_ref 84), e))\<rparr>"

definition pool_m :: "demo_env world mempool" where
  "pool_m = \<lparr>mp_txHeap = [''/txheap''], mp_txDb = [''/tx''], mp_orderer = (\<lambda>t. gret 0)\<rparr>"

text \<open>Transactions whose content is behind reference 41 can be read.\<close>

definition pool_app :: "(demo_env, mock_state) application" where
  "pool_app = mock_application (\<lambda>e r. Inr \<lparr>AppliedTxCount = 0, AppliedTxSize = 0, LastTxData = []\<rparr>)
     (\<lambda>e r. if r = demo_ref 41 then Inr [1, 2] else Inl (ExtError ''unreadable'')) (\<lambda>e s. (Inr (demo_ref 82), e))"

definition pool_opts :: proposer_opts where
  "pool_opts = \<lparr>ProposeDeadlineRatio = 1 / 2, ProposeWaitRatio = 1 / 4, MinBlockTransactions = 1,
     MaxBlockTranasctions = 2, opts_EncryptionConfig = GetEncryptionConfig demo_X demo_strategy\<rparr>"

definition pool_tx :: "string \<Rightarrow> byte \<Rightarrow> transaction" where
  "pool_tx i n = \<lparr>tx_id = i, tx_nodeMessage = pool_message\<lparr>nm_InnerRef := demo_ref n\<rparr>,
     tx_nodeMessageRef = demo_ref 70, tx_innerRef = demo_ref n\<rparr>"

definition pool_snap :: snapshot where
  "pool_snap = \<lparr>sn_Context = 0, sn_RoundStarted = True, sn_BlockRoundInfo = \<lparr>Height = 1, Round = 0\<rparr>,
     sn_LastBlockHeader = None, sn_LastBlockRef = demo_ref 10, sn_CurrentProposer = None,
     sn_RoundEndTime = 9 * second, sn_RoundStartTime = second, sn_NextRoundStartTime = 9 * second,
     sn_TotalVotingPower = 10, sn_ChainConfig = demo_config, sn_ValidatorSet = demo_vset\<rparr>"

definition pool_parent :: block where
  "pool_parent = demo_obj 0 (demo_bstate ''s'' None)"

lemma pool_start:
  "follow_block_tx_state pool_S (ext pool_w) (GetStateRef pool_parent) (Some (opts_EncryptionConfig pool_opts)) =
     Inr \<lparr>bts_ApplicationStateRef = demo_ref 80, bts_TransactionSetRef = demo_ref 81\<rparr>"
  "GetStateAtBlock pool_app pool_parent \<lparr>bts_ApplicationStateRef = demo_ref 80, bts_TransactionSetRef = demo_ref 81\<rparr> (ext pool_w) =
     Inr \<lparr>AppliedTxCount = 0, AppliedTxSize = 0, LastTxData = []\<rparr>"
  by (simp_all add: pool_S_def pool_app_def mock_application_def mock_GetStateAtBlock_def)

abbreviation pool_init :: mock_state where
  "pool_init \<equiv> \<lparr>AppliedTxCount = 0, AppliedTxSize = 0, LastTxData = []\<rparr>"

definition pool_st1 :: "mock_state propose_state" where
  "pool_st1 = \<lparr>pp_appliedTxs = [''a''], pp_txRefs = [demo_ref 70],
     pp_pendingState = \<lparr>AppliedTxCount = 1, AppliedTxSize = 2, LastTxData = [1, 2]\<rparr>\<rparr>"

definition pool_st2 :: "mock_state propose_state" where
  "pool_st2 = \<lparr>pp_appliedTxs = [''a'', ''b''], pp_txRefs = [demo_ref 70, demo_ref 70],
     pp_pendingState = \<lparr>AppliedTxCount = 2, AppliedTxSize = 4, LastTxData = [1, 2]\<rparr>\<rparr>"

lemma pool_read:
  "Apply pool_app p (pool_tx i 41) e = ((False, None),
     \<lparr>AppliedTxCount = AppliedTxCount p + 1, AppliedTxSize = AppliedTxSize p + 2, LastTxData = [1, 2]\<rparr>)"
  "Apply pool_app p (pool_tx i 42) e = ((True, Some (ExtError ''unreadable'')), p)"
  by (simp_all add: pool_app_def mock_application_def mock_Apply_def pool_tx_def pool_message_def demo_ref_def)

lemma pool_tx_fields: "tx_id (pool_tx i n) = i" "tx_nodeMessageRef (pool_tx i n) = demo_ref 70"
  by (simp_all add: pool_tx_def)

lemma pool_enough:
  "\<not> enoughTxs pool_opts pool_snap second (Suc 0)" "enoughTxs pool_opts pool_snap second 2"
  by (simp_all add: enoughTxs_def pool_opts_def i32_def)

lemma pool_step1:
  "TxLoop_step pool_F pool_m pool_app pool_opts pool_snap (LoopTx (Some (pool_tx ''a'' 41)) second) (start_state pool_init) w =
     (Ok (Continue pool_st1), w)"
  by (simp add: start_state_def pool_read pool_enough pool_st1_def pool_tx_fields Let_def)

lemma pool_step2:
  "TxLoop_step pool_F pool_m pool_app pool_opts pool_snap (LoopTx (Some (pool_tx ''b'' 41)) second) pool_st1 w =
     (Ok (Break pool_st2), w)"
  by (simp add: pool_read pool_enough [simplified numeral_2_eq_2] pool_st1_def pool_st2_def
      pool_tx_fields Let_def)


lemma pool_loop2:
  "TxLoop pool_F pool_m pool_app pool_opts pool_snap [LoopTx (Some (pool_tx ''a'' 41)) second, LoopTx (Some (pool_tx ''b'' 41)) second]
     (start_state pool_init) w = (Ok (Break pool_st2), w)"
  by (simp only: TxLoop.simps gbind_def pool_step1 pool_step2 res.case prod.case loop_result.case) simp


abbreviation pool_events :: "demo_env loop_event list" where
  "pool_events \<equiv> [LoopTx (Some (pool_tx ''a'' 41)) second, LoopTx (Some (pool_tx ''b'' 41)) second]"

lemma pool_proposed:
  "ProposeBlock pool_S pool_F pool_m pool_app pool_opts True pool_events None pool_parent pool_snap pool_w =
     (Ok (Some (Some \<lparr>ObjectDigest = replicate 24 84, refLocation = []\<rparr>)), pool_w)"
proof -
  have "finishProposal pool_S pool_F pool_m pool_app pool_opts None pool_st2 pool_w =
      (Ok (Some \<lparr>ObjectDigest = replicate 24 84, refLocation = []\<rparr>), pool_w)"
    by (simp add: finishProposal_def requeueFail_def pool_st2_def pool_opts_def pool_app_def mock_application_def
        mock_Serialize_def pool_S_def pool_w_def demo_ref_def Let_def gbind_def gtry_def gcall_def)
  then show ?thesis by (simp only: ProposeBlock_run [OF pool_start] gbind_def pool_loop2) simp
qed

theorem proposed_block_contents_witness:
  "\<exists>bst p0 pre post oks q stateRef setRef e1 e2.
    follow_block_tx_state pool_S (ext pool_w) (GetStateRef pool_parent) (Some (opts_EncryptionConfig pool_opts)) = Inr bst \<and>
    GetStateAtBlock pool_app pool_parent bst (ext pool_w) = Inr p0 \<and>
    pool_events = pre @ post \<and> replay pool_app (delivered (ext pool_w) pre) p0 = (oks, q) \<and>
    MinBlockTransactions pool_opts \<le> int (length oks) \<and>
    Serialize pool_app q (ext_after (ext pool_w) pre) = (Inr stateRef, e1) \<and>
    store_tx_set pool_S e1 (map tx_nodeMessageRef oks) (opts_EncryptionConfig pool_opts) = (Inr setRef, e2) \<and>
    store_block_tx_state pool_S e2 \<lparr>bts_ApplicationStateRef = stateRef, bts_TransactionSetRef = setRef\<rparr>
      (opts_EncryptionConfig pool_opts) = (Inr (demo_ref 84), ext pool_w)"
  using proposed_block_contents [OF pool_proposed] by (simp add: demo_ref_def)




theorem late_error_loses_transactions_witness:
  "ProposeBlock pool_S pool_F pool_m pool_app pool_opts True pool_events (Some (Some ContextCanceled))
     pool_parent pool_snap pool_w = (Err ContextCanceled, pool_w)"
  by (rule late_error_loses_transactions [OF pool_start pool_loop2])

theorem ratios_truncated_witness:
  "waitUntil pool_opts pool_snap = second \<and> collectDeadline pool_opts pool_snap = Some second"
proof -
  have "NewMempoolProposer pool_m pool_opts pool_app = Ok (pool_opts, pool_m, pool_app)"
    by (simp add: NewMempoolProposer_def ProposerOpts_Validate_def pool_opts_def)
  from ratios_truncated [OF this, of pool_snap] show ?thesis by (simp add: pool_opts_def pool_snap_def)
qed

text \<open>The message stored before does not have the application message identifier that is asked for.\<close>

lemma pool_lookup_fails:
  "GetTx demo_X pool_pb 5 (Some (opts_EncryptionConfig pool_opts)) [''/tx''] ''a'' pool_w1 =
     (Err (Errorf ''expected transaction app message id %d for tx, given: %d''), pool_w1)"
proof -
  have "fst (GetTx demo_X pool_pb 5 (Some (opts_EncryptionConfig pool_opts)) [''/tx''] ''a'' pool_w1) =
      Err (Errorf ''expected transaction app message id %d for tx, given: %d'')" by code_simp
  then show ?thesis by (metis GetTx_state prod.collapse)
qed

theorem resolver_accounts_witness:
  "\<exists>err. err \<noteq> ContextCanceled \<and> err \<noteq> DeadlineExceeded \<and>
     GetTx demo_X pool_pb 5 (Some (opts_EncryptionConfig pool_opts)) (mp_txDb pool_m) ''a'' pool_w1 = (Err err, pool_w1)"
proof -
  have "Resolver_step demo_X pool_pb 5 pool_F pool_m pool_app pool_opts pool_init (IdReceived ''a'') AwaitID pool_w1 =
      (Ok AwaitID, pool_w1)"
    using pool_lookup_fails by (simp add: resolveTx_def gtry_def gbind_def pool_m_def)
  moreover have "requeue1 pool_F pool_m ''a'' pool_w1 \<noteq> (Ok (), pool_w1)"
  proof
    assume "requeue1 pool_F pool_m ''a'' pool_w1 = (Ok (), pool_w1)"
    then have "env_topics (ext (snd (requeue1 pool_F pool_m ''a'' pool_w1))) = env_topics (ext pool_w1)" by simp
    then show False
      by (simp add: requeue1_def Enqueue_def pool_m_def pool_F_def gtry_def gbind_def gcall_def)
  qed
  ultimately show ?thesis using resolver_accounts by fastforce
qed

theorem resolved_transactions_typed_witness:
  "\<exists>tx. resolver_reaches demo_X pool_pb 4 pool_F pool_m pool_app pool_opts {pool_init} (HandOver ''a'' (Some tx)) \<and>
     tx_nodeMessageRef tx = demo_ref 70 \<and> tx_wf demo_X 4 tx"
proof -
  have m: "follow_node_message demo_X (ext pool_w1) (demo_ref 70) c [] = Inr pool_message" for c by code_simp
  have "unmarshal_pub demo_X (nm_PubKey pool_message) = Inr (PubKey 1)" by (simp add: demo_externals_def pool_message_def)
  then have "\<exists>t. FromNodeMessage demo_X 4 pool_message = Ok t"
    unfolding FromNodeMessage_Ok by (simp add: pool_message_def GetTimeUnixMs_def)
  then obtain t where t: "FromNodeMessage demo_X 4 pool_message = Ok t" by blast
  let ?t = "t\<lparr>tx_nodeMessageRef := demo_ref 70\<rparr>"
  have "''a'' \<noteq> ''''" by simp
  note GetTx_after_put [OF demo_db_ok pool_codec this pool_put, of 4 "Some (opts_EncryptionConfig pool_opts)"]
  then have get: "GetTx demo_X pool_pb 4 (Some (opts_EncryptionConfig pool_opts)) [''/tx''] ''a'' pool_w1 = (Ok (Some ?t), pool_w1)"
    by (simp add: m t rbind_def)
  have "tx_nodeMessage t = pool_message" "tx_innerRef t = demo_ref 41"
    using t by (auto simp: FromNodeMessage_Ok pool_message_def)
  then have "PrePoolCheckTx pool_app pool_init (Some ?t) (ext pool_w1) = Ok (False, None)"
    by (simp add: pool_app_def mock_application_def mock_PrePoolCheckTx_def pool_message_def)
  then have "Resolver_step demo_X pool_pb 4 pool_F pool_m pool_app pool_opts pool_init (IdReceived ''a'') AwaitID pool_w1 =
      (Ok (HandOver ''a'' (Some ?t)), pool_w1)"
    using get by (simp add: resolveTx_def gtry_def gbind_def pool_m_def)
  note reach = resolver_next [OF resolver_begin singletonI this]
  from resolved_transactions_typed [OF reach] reach show ?thesis by (intro exI [of _ ?t]) simp
qed

section \<open>Collecting\<close>

definition pool_mw :: "demo_env mempool_world" where
  "pool_mw = \<lparr>ext = demo_env0, enqueueNotify = [1 \<mapsto> []], notifyIDCtr = 1\<rparr>"

definition pool_mm :: "demo_env mempool_world mempool" where
  "pool_mm = \<lparr>mp_txHeap = [''/txheap''], mp_txDb = [''/tx''],
     mp_orderer = TimestampOrderer demo_X pool_pb None [''/tx'']\<rparr>"

theorem collector_never_woken_witness:
  "enqueueNotify (snd (requeueTxs pool_F pool_mm [''a''] pool_mw)) 1 = Some [] \<and>
   CollectTransactions_step pool_F pool_mm 1 Woken (Waiting 0) (snd (requeueTxs pool_F pool_mm [''a''] pool_mw)) =
     (Ok (Waiting 0), snd (requeueTxs pool_F pool_mm [''a''] pool_mw))"
proof -
  have "mp_orderer pool_mm = TimestampOrderer demo_X pool_pb None [''/tx'']" "enqueueNotify pool_mw 1 = Some []"
    by (simp_all add: pool_mm_def pool_mw_def)
  from collector_never_woken [OF this prod.collapse [symmetric]] show ?thesis by blast
qed

text \<open>A heap that always has a transaction.\<close>

definition pool_full :: "demo_env fibheap" where
  "pool_full = \<lparr>fh_Enqueue = (\<lambda>e h t p. (Inr (), e)), fh_DequeueMin = (\<lambda>e h. (Inr (''a'', 0), e))\<rparr>"

theorem collect_stops_at_max_witness:
  "\<exists>w'. collect_run pool_full pool_mm 1 [Advance, Taken, Advance, Taken] (Dequeuing 2) pool_mw = (Ok (Collected None), w')"
proof -
  have "\<exists>txID p e'. fh_DequeueMin pool_full e (mp_txHeap pool_mm) = (Inr (txID, p), e') \<and> txID \<noteq> []" for e
    by (simp add: pool_full_def)
  from collect_stops_at_max [OF this, where n = 1 and i = 1 and w = pool_mw] show ?thesis by simp
qed

section \<open>Applications\<close>

theorem block_counts_transactions_witness:
  "\<exists>oks q. replay pool_app [(pool_tx ''a'' 41, demo_env0), (pool_tx ''b'' 42, demo_env0), (pool_tx ''c'' 41, demo_env0)] pool_init = (oks, q) \<and>
     map tx_id oks = [''a'', ''c''] \<and> AppliedTxCount q = of_nat (length oks)"
proof -
  have r: "replay pool_app [(pool_tx ''a'' 41, demo_env0), (pool_tx ''b'' 42, demo_env0), (pool_tx ''c'' 41, demo_env0)] pool_init =
      ([pool_tx ''a'' 41, pool_tx ''c'' 41], \<lparr>AppliedTxCount = 2, AppliedTxSize = 4, LastTxData = [1, 2]\<rparr>)"
    by (simp add: pool_read)
  from conjunct1 [OF block_counts_transactions, THEN mp, OF r [unfolded pool_app_def]] r show ?thesis
    by (simp add: pool_tx_fields)
qed

theorem unknown_transaction_panics_witness:
  "resolveTx demo_X pool_pb 4 pool_F pool_m pool_app pool_opts pool_init ''zz'' pool_w = (Panic, pool_w)"
proof -
  have "TxDb_Get demo_X pool_pb (mp_txDb pool_m) ''zz'' pool_w = (Ok None, pool_w)"
    by (simp add: TxDb_Get_def getEntry_def getIDKey_def pool_m_def pool_w_def demo_env0_def demo_externals_def
        gbind_def gext_def)
  from conjunct1 [OF unknown_transaction_panics [OF this]] show ?thesis by (simp only: pool_app_def)
qed

end
