(* ===== verification/Startup.thy ===== *)
theory Startup
  imports Node Apps
begin

text \<open>
  How the programs start: the set-up of the examples (\<^verbatim>\<open>examples/common\<close>), the \<^verbatim>\<open>main.go\<close> files of the chat
  and of the counter, the connection to IPFS (\<^verbatim>\<open>shell\<close>), and the command line program \<^verbatim>\<open>cmd/inca\<close> with its
  \<^verbatim>\<open>init\<close> and \<^verbatim>\<open>node\<close> commands. Each reads its configuration from two files, or mints an identity and a
  chain and writes them.

  The operating system's files are a map from paths to contents; a read, a status request or a write may
  fail for reasons of its own, and a failed write may leave anything in the file. The libraries behind the
  program are the fields of \<open>platform\<close>: IPFS, the database to open, key generation, the JSON and key encodings.
  What is drawn at random or read from the clock while a chain is minted is the record \<open>draws\<close>.
\<close>

section \<open>The platform\<close>

datatype api_shell = ApiShell string

record 'a json_codec =
  MarshalToString :: "string \<Rightarrow> 'a \<Rightarrow> go_error + string"
  UnmarshalString :: "string \<Rightarrow> go_error + 'a"

record ('e, 'w) platform =
  ipfs_version :: "'e \<Rightarrow> api_shell \<Rightarrow> go_error + string \<times> string"
  build_cli_db :: "'e \<Rightarrow> (go_error + db_view) \<times> 'e"
  generate_key :: "'e \<Rightarrow> (go_error + priv_key) \<times> 'e"
  json_node :: "node_config json_codec"
  json_chain :: "'w chain_conf json_codec"
  marshal_priv :: "priv_key \<Rightarrow> go_error + bytes"
  unmarshal_priv :: "bytes \<Rightarrow> go_error + priv_key"
  wrap_args :: "bytes \<Rightarrow> go_error + 'w"
  decode_args :: "'w option \<Rightarrow> go_error + bytes"
  known_strategy :: "encryption_strategy \<Rightarrow> bool"
  strategy_ctors :: "'w option ctor_registry"
  stat_fault :: "'e \<Rightarrow> string \<Rightarrow> go_error option"
  read_fault :: "'e \<Rightarrow> string \<Rightarrow> go_error option"
  write_fault :: "'e \<Rightarrow> string \<Rightarrow> string \<Rightarrow> (go_error \<times> string option) option"

record draws =
  dr_rnd :: "go_error + bytes"
  dr_genesisTs :: timestamp
  dr_nowTs :: timestamp
  dr_uid0 :: string
  dr_uid :: string
  dr_subscribed :: "go_error + unit"

record flags =
  ipfsApi :: string
  chainConfigPath :: string
  nodeConfigPath :: string
  createInitNodeConfig :: bool
  nodeValidatorType :: string
  initChainID :: string

record 'e os_world = "'e node_world" +
  os_files :: "string \<rightharpoonup> string"

definition fileNotExist :: go_error where
  "fileNotExist = ExtError ''file does not exist''"

definition IsNotExist :: "go_error \<Rightarrow> bool" where
  "IsNotExist err \<longleftrightarrow> err = fileNotExist"

definition os_Stat :: "('e, 'w) platform \<Rightarrow> string \<Rightarrow> (('e, 'z) os_world_scheme, unit) go" where
  "os_Stat P path = (\<lambda>w.
     (case stat_fault P (ext w) path of
        Some e \<Rightarrow> Err e
      | None \<Rightarrow> if os_files w path = None then Err fileNotExist else Ok (), w))"

definition ReadFile :: "('e, 'w) platform \<Rightarrow> string \<Rightarrow> (('e, 'z) os_world_scheme, string) go" where
  "ReadFile P path = (\<lambda>w.
     (case read_fault P (ext w) path of
        Some e \<Rightarrow> Err e
      | None \<Rightarrow> (case os_files w path of None \<Rightarrow> Err fileNotExist | Some dat \<Rightarrow> Ok dat), w))"

definition WriteFile :: "('e, 'w) platform \<Rightarrow> string \<Rightarrow> string \<Rightarrow> (('e, 'z) os_world_scheme, unit) go" where
  "WriteFile P path dat = (\<lambda>w.
     case write_fault P (ext w) path dat of
       None \<Rightarrow> (Ok (), w\<lparr>os_files := (os_files w)(path \<mapsto> dat)\<rparr>)
     | Some (e, None) \<Rightarrow> (Err e, w)
     | Some (e, Some left) \<Rightarrow> (Err e, w\<lparr>os_files := (os_files w)(path \<mapsto> left)\<rparr>))"

section \<open>The connection to IPFS\<close>

definition BuildCliShell :: "('e, 'w) platform \<Rightarrow> string \<Rightarrow> (('e, 'z) world_scheme, api_shell) go" where
  "BuildCliShell P url =
     gbind (gtry (gext (\<lambda>e. ipfs_version P e (ApiShell url)))) (\<lambda>r.
     case r of
       Inl err \<Rightarrow> gfail (Wrapped ''cannot contact ipfs'' err)
     | Inr _ \<Rightarrow> gret (ApiShell url))"

section \<open>The set-up of the examples\<close>

text \<open>
  A program that runs: the chain with its proposer, and the node with its parts. \<open>'p\<close> is the type of the
  block proposer, whose calls the theories on proposers describe.
\<close>

record 'p running =
  ru_chain :: chain
  ru_blockProposer :: "'p option"
  ru_node :: node
  ru_peers :: peer_store
  ru_proposer :: proposer
  ru_validator :: validator_actor

record 'p common =
  co_LocalDbm :: db_view
  co_Running :: "'p running"
  co_NodeConfig :: node_config
  co_BlockProposer :: "'p option"
  co_BlockValidator :: "block_validator option"

definition SetBlockProposer :: "'p option \<Rightarrow> 'p running \<Rightarrow> 'p running" where
  "SetBlockProposer bp r = r\<lparr>ru_blockProposer := bp\<rparr>"

text \<open>A new identity, written to the node's configuration file.\<close>

definition mintIdentity :: "('e, 'w) platform \<Rightarrow> string \<Rightarrow> (('e, 'z) os_world_scheme, node_config) go" where
  "mintIdentity P path =
     gbind (gcall (generate_key P)) (\<lambda>privKey.
     case SetPrivKey (marshal_priv P) privKey \<lparr>cfg_PrivKey = []\<rparr> of (r, nodeConf) \<Rightarrow>
     gbind (gres r) (\<lambda>_.
     gbind (gres (res_of (MarshalToString (json_node P) ''  '' nodeConf))) (\<lambda>jdat.
     gbind (WriteFile P path jdat) (\<lambda>_. gret nodeConf))))"

definition loadNodeConfig ::
  "('e, 'w) platform \<Rightarrow> string \<Rightarrow> bool \<Rightarrow> (('e, 'z) os_world_scheme, node_config) go" where
  "loadNodeConfig P path create =
     gbind (gtry (ReadFile P path)) (\<lambda>r.
     case r of
       Inr confDat \<Rightarrow> gres (res_of (UnmarshalString (json_node P) confDat))
     | Inl err \<Rightarrow> if create \<and> IsNotExist err then mintIdentity P path else gfail err)"

definition mintChain ::
  "('e, 'x) externals_scheme \<Rightarrow> ('e, 'w) platform \<Rightarrow> draws \<Rightarrow> string \<Rightarrow> db_view \<Rightarrow> priv_key \<Rightarrow>
     (('e, 'z) os_world_scheme, sref) go option \<Rightarrow> (('e, 'z) os_world_scheme, 'w chain_conf) go" where
  "mintChain X P D path dbm nodePriv buildInitState =
     gbind (case buildInitState of None \<Rightarrow> gret None | Some build \<Rightarrow> build) (\<lambda>initState.
     gbind (NewChain X dbm ''counter-test-1'' nodePriv None initState (dr_rnd D) (wrap_args P)
              (dr_genesisTs D) (dr_nowTs D) (dr_uid0 D) (dr_uid D)) (\<lambda>(nch, chainConf).
     gbind (gres (res_of (MarshalToString (json_chain P) '''' chainConf))) (\<lambda>chainConfStr.
     gbind (WriteFile P path chainConfStr) (\<lambda>_. gret chainConf))))"

definition loadChainConfig ::
  "('e, 'x) externals_scheme \<Rightarrow> ('e, 'w) platform \<Rightarrow> draws \<Rightarrow> string \<Rightarrow> db_view \<Rightarrow> priv_key \<Rightarrow>
     (('e, 'z) os_world_scheme, sref) go option \<Rightarrow> (('e, 'z) os_world_scheme, 'w chain_conf) go" where
  "loadChainConfig X P D path dbm nodePriv buildInitState =
     gbind (gtry (os_Stat P path)) (\<lambda>r.
     if (case r of Inl err \<Rightarrow> IsNotExist err | Inr _ \<Rightarrow> False)
     then mintChain X P D path dbm nodePriv buildInitState
     else gbind (ReadFile P path) (\<lambda>dat. gres (res_of (UnmarshalString (json_chain P) dat))))"

definition Build ::
  "('e, 'x) externals_scheme \<Rightarrow> ('e, 'w) platform \<Rightarrow> draws \<Rightarrow> flags \<Rightarrow> 'p option \<Rightarrow> block_validator option \<Rightarrow>
     (('e, 'z) os_world_scheme, sref) go option \<Rightarrow> (('e, 'z) os_world_scheme, 'p common) go" where
  "Build X P D fl blockProposer blockValidator buildInitState =
     gbind (BuildCliShell P (ipfsApi fl)) (\<lambda>sh.
     gbind (gcall (build_cli_db P)) (\<lambda>dbm.
     gbind (loadNodeConfig P (nodeConfigPath fl) (createInitNodeConfig fl)) (\<lambda>nodeConf.
     gbind (gres (UnmarshalPrivKey (unmarshal_priv P) nodeConf)) (\<lambda>nodePriv.
     gbind (loadChainConfig X P D (chainConfigPath fl) dbm nodePriv buildInitState) (\<lambda>chainConf.
     gbind (FromConfig X (known_strategy P) (strategy_ctors P) dbm chainConf None) (\<lambda>ch.
     gbind (NewNode X dbm True ch nodePriv (dr_subscribed D)) (\<lambda>(nod, ps, pr, va).
     gret \<lparr>co_LocalDbm = dbm,
       co_Running = \<lparr>ru_chain = ch, ru_blockProposer = blockProposer, ru_node = nod, ru_peers = ps,
         ru_proposer = pr, ru_validator = va\<rparr>,
       co_NodeConfig = nodeConf, co_BlockProposer = blockProposer, co_BlockValidator = blockValidator\<rparr>)))))))"

section \<open>The counter and the chat\<close>

definition installValidator :: "flags \<Rightarrow> chain \<Rightarrow> chain res" where
  "installValidator fl ch =
     (if nodeValidatorType fl \<noteq> '''' then
        rbind (GetBuiltInValidator (nodeValidatorType fl)) (\<lambda>nv. Ok (SetBlockValidator nv ch))
      else Ok ch)"

definition runCounterExample ::
  "('e, 'x) externals_scheme \<Rightarrow> ('e, 'w) platform \<Rightarrow> draws \<Rightarrow> flags \<Rightarrow> 'e block_proposer \<Rightarrow>
     (('e, 'z) os_world_scheme, 'e block_proposer running) go" where
  "runCounterExample X P D fl chainProposer =
     gbind (Build X P D fl (Some chainProposer) None None) (\<lambda>conf.
     gbind (gres (installValidator fl (ru_chain (co_Running conf)))) (\<lambda>ch.
     gret ((co_Running conf)\<lparr>ru_chain := ch\<rparr>)))"

text \<open>
  The services of the chat beyond those of every node. \<open>failedRef\<close> is the reference that the object store
  returns next to an error, \<open>noEnc\<close> the empty encryption configuration.
\<close>

record ('e, 't) chat_services =
  tx_objects :: "'e tx_store"
  fetch_chat_state :: "'e \<Rightarrow> sref \<Rightarrow> go_error + chat_state"
  fetch_chat_tx :: "'e \<Rightarrow> sref \<Rightarrow> go_error + 't"
  store_chat_state :: "'e \<Rightarrow> chat_state \<Rightarrow> enc_conf \<Rightarrow> (go_error + sref) \<times> 'e"
  failedRef :: sref
  noEnc :: enc_conf
  pb_tx_info :: "tx_info codec"
  pb_chat_state :: "chat_state codec"
  heapReady :: "go_error + unit"

definition chat_initState :: "('e, 't) chat_services \<Rightarrow> (('e, 'z) world_scheme, sref) go" where
  "chat_initState S =
     gbind (gtry (gcall (\<lambda>e. store_chat_state S e \<lparr>MessageCount = 0\<rparr> (noEnc S)))) (\<lambda>r.
     let ref = (case r of Inl _ \<Rightarrow> failedRef S | Inr ref \<Rightarrow> ref) in
     gcall (\<lambda>e. store_block_tx_state (tx_objects S) e
       \<lparr>bts_ApplicationStateRef = ref, bts_TransactionSetRef = None\<rparr> (noEnc S)))"

definition zeroProposerOpts :: "enc_conf \<Rightarrow> proposer_opts" where
  "zeroProposerOpts conf = \<lparr>ProposeDeadlineRatio = 0, ProposeWaitRatio = 0, MinBlockTransactions = 0,
     MaxBlockTranasctions = 0, opts_EncryptionConfig = conf\<rparr>"

type_synonym ('e, 's) chat_proposer = "proposer_opts \<times> 's mempool \<times> ('e, chat_state) application"

definition chat_app :: "('e, 't) chat_services \<Rightarrow> ('e, chat_state) application" where
  "chat_app S = chat_application (fetch_chat_state S) (fetch_chat_tx S)
     (\<lambda>e st. store_chat_state S e st (noEnc S))"

text \<open>The validator that \<open>runChatExample\<close> looks up is dropped.\<close>

definition runChatExample ::
  "('e, 'x) externals_scheme \<Rightarrow> ('e, 'w) platform \<Rightarrow> draws \<Rightarrow> flags \<Rightarrow> ('e, 't) chat_services \<Rightarrow>
     (('e, 'z) os_world_scheme, ('e, ('e, 'z) os_world_scheme) chat_proposer running) go" where
  "runChatExample X P D fl S =
     gbind (Build X P D fl None None (Some (chat_initState S))) (\<lambda>conf.
     let txdb = WithPrefix (co_LocalDbm conf) ''/txdb'' in
     gbind (gres (NewMempool (heapReady S) (co_LocalDbm conf) txdb (TimestampOrderer X (pb_tx_info S) None txdb) None)) (\<lambda>memPool.
     gbind (NewChat X (pb_chat_state S) (co_LocalDbm conf)) (\<lambda>app.
     gbind (gres (NewMempoolProposer memPool (zeroProposerOpts (noEnc S)) (chat_app S))) (\<lambda>proposer.
     let run = SetBlockProposer (Some proposer) (co_Running conf) in
     gbind (gres (GetBuiltInValidator ''allow'')) (\<lambda>validator.
     gret run)))))"

section \<open>The command line program\<close>

record obj_store =
  os_db :: db_view
  os_shell :: api_shell

text \<open>The package variables, each guarded by a mutex of its own.\<close>

record 'e cli_world = "'e os_world" +
  shellCached :: "api_shell option"
  dbCached :: "db_view option"
  objStoreCached :: "obj_store option"
  nodeCached :: "unit running option"

definition GetShell :: "('e, 'w) platform \<Rightarrow> flags \<Rightarrow> (('e, 'z) cli_world_scheme, api_shell) go" where
  "GetShell P fl =
     gbind (gasks shellCached) (\<lambda>cached. case cached of Some sh \<Rightarrow> gret sh | None \<Rightarrow>
     gbind (BuildCliShell P (ipfsApi fl)) (\<lambda>sh.
     gbind (gmodify (\<lambda>w. w\<lparr>shellCached := Some sh\<rparr>)) (\<lambda>_. gret sh)))"

definition GetDb :: "('e, 'w) platform \<Rightarrow> (('e, 'z) cli_world_scheme, db_view) go" where
  "GetDb P =
     gbind (gasks dbCached) (\<lambda>cached. case cached of Some d \<Rightarrow> gret d | None \<Rightarrow>
     gbind (gcall (build_cli_db P)) (\<lambda>d.
     gbind (gmodify (\<lambda>w. w\<lparr>dbCached := Some d\<rparr>)) (\<lambda>_. gret d)))"

definition GetObjectStore :: "('e, 'w) platform \<Rightarrow> flags \<Rightarrow> (('e, 'z) cli_world_scheme, obj_store) go" where
  "GetObjectStore P fl =
     gbind (gasks objStoreCached) (\<lambda>cached. case cached of Some s \<Rightarrow> gret s | None \<Rightarrow>
     gbind (GetDb P) (\<lambda>d.
     gbind (GetShell P fl) (\<lambda>sh.
     let objStore = \<lparr>os_db = d, os_shell = sh\<rparr> in
     gbind (gmodify (\<lambda>w. w\<lparr>objStoreCached := Some objStore\<rparr>)) (\<lambda>_. gret objStore))))"

text \<open>The node of the command line program has no block proposer.\<close>

definition buildNode ::
  "('e, 'x) externals_scheme \<Rightarrow> ('e, 'w) platform \<Rightarrow> draws \<Rightarrow> flags \<Rightarrow> (('e, 'z) cli_world_scheme, unit running) go" where
  "buildNode X P D fl =
     (let confPath = (if nodeConfigPath fl = '''' then ''node_config.json'' else nodeConfigPath fl) in
     gbind (GetShell P fl) (\<lambda>sh.
     gbind (GetObjectStore P fl) (\<lambda>db.
     gbind (GetDb P) (\<lambda>dbm.
     gbind (ReadFile P (chainConfigPath fl)) (\<lambda>dat.
     gbind (gres (res_of (UnmarshalString (json_chain P) dat))) (\<lambda>chainConf.
     gbind (FromConfig X (known_strategy P) (strategy_ctors P) dbm chainConf None) (\<lambda>ch0.
     gbind (gres (installValidator fl ch0)) (\<lambda>ch.
     gbind (loadNodeConfig P confPath (createInitNodeConfig fl)) (\<lambda>nodeConf.
     gbind (gres (UnmarshalPrivKey (unmarshal_priv P) nodeConf)) (\<lambda>nodPriv.
     gbind (NewNode X dbm True ch nodPriv (dr_subscribed D)) (\<lambda>(nod, ps, pr, va).
     gret \<lparr>ru_chain = ch, ru_blockProposer = None, ru_node = nod, ru_peers = ps, ru_proposer = pr,
       ru_validator = va\<rparr>)))))))))))"

definition GetNode ::
  "('e, 'x) externals_scheme \<Rightarrow> ('e, 'w) platform \<Rightarrow> draws \<Rightarrow> flags \<Rightarrow> (('e, 'z) cli_world_scheme, unit running) go" where
  "GetNode X P D fl =
     gbind (gasks nodeCached) (\<lambda>cached. case cached of Some r \<Rightarrow> gret r | None \<Rightarrow>
     gbind (buildNode X P D fl) (\<lambda>r.
     gbind (gmodify (\<lambda>w. w\<lparr>nodeCached := Some r\<rparr>)) (\<lambda>_. gret r)))"

text \<open>The error of encoding the chain configuration is ignored; the encoding is then empty.\<close>

definition encodeChainConfig :: "('e, 'w) platform \<Rightarrow> 'w chain_conf \<Rightarrow> string" where
  "encodeChainConfig P conf =
     (case MarshalToString (json_chain P) [CHR 0x09] conf of Inl _ \<Rightarrow> '''' | Inr s \<Rightarrow> s) @ [CHR 0x0A]"

definition writeCluster ::
  "('e, 'w) platform \<Rightarrow> flags \<Rightarrow> priv_key \<Rightarrow> 'w chain_conf \<Rightarrow> (('e, 'z) os_world_scheme, unit) go" where
  "writeCluster P fl privKey conf =
     gbind (WriteFile P (chainConfigPath fl) (encodeChainConfig P conf)) (\<lambda>_.
     case SetPrivKey (marshal_priv P) privKey \<lparr>cfg_PrivKey = []\<rparr> of (r, nodeConf) \<Rightarrow>
     gbind (gres r) (\<lambda>_.
     gbind (gres (res_of (MarshalToString (json_node P) [CHR 0x09] nodeConf))) (\<lambda>nodeConfStr.
     WriteFile P (nodeConfigPath fl) nodeConfStr)))"

definition cmdInitCluster ::
  "('e, 'x) externals_scheme \<Rightarrow> ('e, 'w) platform \<Rightarrow> draws \<Rightarrow> flags \<Rightarrow> (('e, 'z) cli_world_scheme, unit) go" where
  "cmdInitCluster X P D fl =
     gbind (gtry (os_Stat P (chainConfigPath fl))) (\<lambda>r.
     if \<not> (case r of Inl err \<Rightarrow> IsNotExist err | Inr _ \<Rightarrow> False)
     then gfail (Errorf ''chain config already exists: %s'')
     else
     gbind (GetObjectStore P fl) (\<lambda>objStore.
     gbind (GetDb P) (\<lambda>db.
     gbind (gcall (generate_key P)) (\<lambda>privKey.
     gbind (NewChain X db (initChainID fl) privKey None None (dr_rnd D) (wrap_args P)
              (dr_genesisTs D) (dr_nowTs D) (dr_uid0 D) (dr_uid D)) (\<lambda>(ch, conf).
     writeCluster P fl privKey conf)))))"

definition cmdNode ::
  "('e, 'x) externals_scheme \<Rightarrow> ('e, 'w) platform \<Rightarrow> draws \<Rightarrow> flags \<Rightarrow> (('e, 'z) cli_world_scheme, unit) go" where
  "cmdNode X P D fl = gbind (GetNode X P D fl) (\<lambda>_. gret ())"

section \<open>What the modelled packages leave alone\<close>

text \<open>The files and the cached objects are the part of the state that extends the node's; no operation of
  the other theories touches it.\<close>

abbreviation os_rest :: "('e, 'z) node_world_scheme \<Rightarrow> 'z" where
  "os_rest \<equiv> node_world.more"

lemma os_rest_files: "os_rest v = os_rest w \<Longrightarrow> os_files v = os_files w"
  by (cases v, cases w) simp

lemma os_rest_caches:
  fixes v w :: "('e, 'z) cli_world_scheme"
  assumes "os_rest v = os_rest w"
  shows "shellCached v = shellCached w" "dbCached v = dbCached w" "objStoreCached v = objStoreCached w"
    "nodeCached v = nodeCached w"
  using assms by (cases v, cases w, simp)+

lemma rest_seg_free: "seg_free (\<lambda>w. os_rest w = m)"
  by (simp add: seg_free_def)

lemma rest_writeState: "keeps (\<lambda>w. os_rest w = m) (Chain_writeState X c)"
  unfolding Chain_writeState_def triggerStateRecheck_def by (intro keeps_intros) simp_all

lemma mintFirstBlock_rest: "keeps (\<lambda>w. os_rest w = m) (mintFirstBlock X ch priv vid gs ts uid0 uid)"
  unfolding mintFirstBlock_def Let_def
  by (intro keeps_intros seg_free_NewSegment rest_seg_free rest_writeState) simp_all

lemma mintGenesis_rest: "keeps (\<lambda>w. os_rest w = m) (mintGenesis X cid priv rnd wrap ts)"
  unfolding mintGenesis_def Let_def by (intro keeps_intros) simp_all

lemma NewChain_rest: "keeps (\<lambda>w. os_rest w = m) (NewChain X dbm cid priv bv gs rnd wrap ts ts2 uid0 uid)"
  unfolding NewChain_def Let_def
  by (intro keeps_intros mintGenesis_rest mintFirstBlock_rest) (simp add: fresh_chain_def)

lemma FromConfig_rest: "keeps (\<lambda>w. os_rest w = m) (FromConfig X known reg dbm conf bv)"
  unfolding FromConfig_def Chain_readState_def Let_def
  by (intro keeps_intros) (simp_all add: fresh_chain_def)

lemma GetPeerWithPubKey_rest: "keeps (\<lambda>w. os_rest w = m) (GetPeerWithPubKey X ps k)"
  unfolding GetPeerWithPubKey_def GetPeer_def Let_def by (intro keeps_intros) simp

lemma peersForValidators_rest: "keeps (\<lambda>w. os_rest w = m) (peersForValidators X ps vs)"
proof (induction vs)
  case (Cons v vs)
  show ?case unfolding peersForValidators.simps by (intro keeps_intros GetPeerWithPubKey_rest Cons.IH)
next
  case Nil
  show ?case unfolding peersForValidators.simps by (intro keeps_intros)
qed

lemma NewNode_rest: "keeps (\<lambda>w. os_rest w = m) (NewNode X dbm b c k sub)"
  unfolding NewNode_def NewProposer_def NewValidator_def Proposer_readState_def Proposer_writeState_def
    Validator_readState_def Validator_writeState_def Node_readState_def readGenesisState_def Let_def
  by (intro keeps_intros GetPeerWithPubKey_rest peersForValidators_rest) simp_all

lemmas rest_rules = NewChain_rest FromConfig_rest NewNode_rest

section \<open>Configurations on disk\<close>

text \<open>
  What the programs rely on of the encodings: decoding inverts encoding, whatever the indentation and with
  a line feed after the text; a text that is only a line feed does not decode; a private key survives its
  encoding; the strategy's constructor is the registered one and the wrapper of its arguments can be opened.
\<close>

definition platform_ok :: "('e, 'w) platform \<Rightarrow> bool" where
  "platform_ok P \<longleftrightarrow>
     (\<forall>i c s. MarshalToString (json_node P) i c = Inr s \<longrightarrow> UnmarshalString (json_node P) s = Inr c) \<and>
     (\<forall>i c s. MarshalToString (json_chain P) i c = Inr s \<longrightarrow>
        UnmarshalString (json_chain P) s = Inr c \<and> UnmarshalString (json_chain P) (s @ [CHR 0x0A]) = Inr c) \<and>
     (\<exists>err. UnmarshalString (json_chain P) [CHR 0x0A] = Inl err) \<and>
     (\<forall>k bs. marshal_priv P k = Inr bs \<longrightarrow> unmarshal_priv P bs = Inr k) \<and>
     init_convergentimmutable (decode_args P) Map.empty = (Ok (), strategy_ctors P) \<and>
     known_strategy P ConvergentImmutable \<and>
     (\<forall>k w. wrap_args P k = Inr w \<longrightarrow> decode_args P (Some w) = Inr k)"

text \<open>A path on which the operating system answers without faults.\<close>

definition readable :: "('e, 'w) platform \<Rightarrow> string \<Rightarrow> bool" where
  "readable P path \<longleftrightarrow> (\<forall>e. stat_fault P e path = None \<and> read_fault P e path = None)"

lemma WriteFile_Ok:
  "WriteFile P path dat w = (Ok (), w') \<longleftrightarrow>
     write_fault P (ext w) path dat = None \<and> w' = w\<lparr>os_files := (os_files w)(path \<mapsto> dat)\<rparr>"
  by (auto simp: WriteFile_def split: option.splits)

lemma ReadFile_Ok: "ReadFile P path w = (Ok dat, w') \<Longrightarrow> w' = w \<and> os_files w path = Some dat"
  by (auto simp: ReadFile_def split: option.splits)

lemma ReadFile_run:
  "readable P path \<Longrightarrow> os_files w path = Some dat \<Longrightarrow> ReadFile P path w = (Ok dat, w)"
  by (simp add: readable_def ReadFile_def)





lemma SetPrivKey_run:
  "SetPrivKey m k c = (case m k of Inl e \<Rightarrow> (Err e, c) | Inr bs \<Rightarrow> (Ok (), c\<lparr>cfg_PrivKey := bs\<rparr>))"
  by (simp add: SetPrivKey_def gbind_def split: sum.split)

lemma case_SetPrivKey:
  "(case SetPrivKey m k c of (r, c') \<Rightarrow> gbind (gres r) (\<lambda>_. f c')) w = (Ok x, w') \<longleftrightarrow>
     (\<exists>bs. m k = Inr bs \<and> f (c\<lparr>cfg_PrivKey := bs\<rparr>) w = (Ok x, w'))"
  by (cases "m k") (simp_all add: SetPrivKey_run gbind_def)



lemma loadNodeConfig_again:
  assumes "readable P path" "os_files w path = Some s" "UnmarshalString (json_node P) s = Inr c"
  shows "loadNodeConfig P path create w = (Ok c, w)"
  using assms ReadFile_run [OF assms(1,2)] by (simp add: loadNodeConfig_def gbind_def)



section \<open>Starting the examples again\<close>

lemma BuildCliShell_state: "BuildCliShell P url w = (r, w') \<Longrightarrow> w' = w"
proof (rule keeps_all_state)
  show "keeps Q (BuildCliShell P url)" for Q unfolding BuildCliShell_def by (intro keeps_intros)
qed

lemma Build_Ok:
  assumes "Build X P D fl bp bv bis w = (Ok co, w')"
  obtains dbm e k cc w1 w2 w3 where
    "build_cli_db P (ext w) = (Inr dbm, e)"
    "loadNodeConfig P (nodeConfigPath fl) (createInitNodeConfig fl) (w\<lparr>ext := e\<rparr>) = (Ok (co_NodeConfig co), w1)"
    "unmarshal_priv P (cfg_PrivKey (co_NodeConfig co)) = Inr k"
    "loadChainConfig X P D (chainConfigPath fl) dbm k bis w1 = (Ok cc, w2)"
    "FromConfig X (known_strategy P) (strategy_ctors P) dbm cc None w2 = (Ok (ru_chain (co_Running co)), w3)"
    "NewNode X dbm True (ru_chain (co_Running co)) k (dr_subscribed D) w3 =
       (Ok (ru_node (co_Running co), ru_peers (co_Running co), ru_proposer (co_Running co), ru_validator (co_Running co)), w')"
    "co_LocalDbm co = dbm" "ru_blockProposer (co_Running co) = bp" "co_BlockValidator co = bv"
  using assms
  by (auto simp: Build_def gbind_Ok_iff gcall_Ok UnmarshalPrivKey_def dest!: BuildCliShell_state)

lemma FromConfig_config:
  assumes "FromConfig X known reg dbm conf bv w = (Ok c, w')"
  shows "BuildEncryptionStrategy known reg (conf_EncryptionStrategy conf) (conf_EncryptionArgs conf) = Ok (c_encStrat c)"
    "c_GenesisRef c = conf_GenesisRef conf" "c_pubsubTopic c = b64_encode (GetObjectDigest (conf_GenesisRef conf))"
    "c_dbm c = dbm" "c_blockValidator c = bv"
    "\<exists>enc. follow_genesis X (ext w) (conf_GenesisRef conf) (Some enc) [] = Inr (c_genesis c)"
  using assms
  by (auto simp: FromConfig_def Let_def case_fail_Ok_iff gtry_Ok_iff gbind_Ok_iff computePubsubTopic_def fresh_chain_def)

lemma NewNode_config:
  assumes "NewNode X dbm b c k sub w = (Ok (n, ps, pr, va), w')"
  shows "n_privKey n = k" "id_from_priv X k = Inr (n_nodeAddr n)" "pub_bytes X (priv_public X k) = Inr (n_pubKeyBytes n)"
    "n_db n = WithPrefix dbm (''/node/'' @ pretty_id X (n_nodeAddr n))"
  using assms by (auto simp: NewNode_def Let_def gbind_Ok_iff)


section \<open>The command line program\<close>

lemma GetShell_keeps:
  "keeps (\<lambda>w. os_files w = F \<and> nodeCached w = N) (GetShell P fl)"
  unfolding GetShell_def BuildCliShell_def by (intro keeps_intros) simp_all

lemma GetDb_keeps:
  "keeps (\<lambda>w. os_files w = F \<and> nodeCached w = N) (GetDb P)"
  unfolding GetDb_def by (intro keeps_intros) simp_all

lemma GetObjectStore_keeps:
  "keeps (\<lambda>w. os_files w = F \<and> nodeCached w = N) (GetObjectStore P fl)"
  unfolding GetObjectStore_def Let_def by (intro keeps_intros GetDb_keeps GetShell_keeps) simp_all

lemma keeps_by_frame: "(\<And>w r w'. f w = (r, w') \<Longrightarrow> g w' = g w) \<Longrightarrow> keeps (\<lambda>w. Q (g w)) f"
  by (rule keepsI) (metis prod.collapse)

lemma GetDb_os_files: "keeps (\<lambda>w. Q (os_files w)) (GetDb P)"
  by (rule keeps_by_frame [of _ os_files]) (blast dest: keepsD [OF GetDb_keeps])

lemma GetObjectStore_os_files: "keeps (\<lambda>w. Q (os_files w)) (GetObjectStore P fl)"
  by (rule keeps_by_frame [of _ os_files]) (blast dest: keepsD [OF GetObjectStore_keeps])

lemma NewChain_os_files: "keeps (\<lambda>w. Q (os_files w)) (NewChain X dbm cid priv bv gs rnd wrap ts ts2 uid0 uid)"
  by (rule keeps_by_frame [of _ os_files]) (metis keepsD [OF NewChain_rest] os_rest_files)

lemmas keeps_os_files = GetDb_os_files GetObjectStore_os_files NewChain_os_files

text \<open>The objects that a new chain is made of.\<close>

definition minted_for ::
  "('e, 'x) externals_scheme \<Rightarrow> string \<Rightarrow> bytes \<Rightarrow> sref \<Rightarrow> bool" where
  "minted_for X cid pub genesisRef \<longleftrightarrow>
     (\<exists>e1 e2 e3 enc vsRef confRef ts genEnc.
        fst (store_validator_set X e1 (genesisValidatorSet pub) enc) = Inr vsRef \<and>
        fst (store_chain_config X e2 (genesisChainConfig vsRef) enc) = Inr confRef \<and>
        fst (store_genesis X e3 \<lparr>gen_ChainId = cid, gen_Timestamp = Some ts, gen_EncStrategy = ConvergentImmutable,
          gen_InitChainConfigRef = confRef\<rparr> genEnc) = Inr genesisRef)"

lemma NewChain_minted:
  assumes "NewChain X dbm cid priv bv gs rnd wrap ts ts2 uid0 uid w = (Ok (c, conf), w')"
  obtains key args pub where "rnd = Inr key" "wrap key = Inr args" "pub_bytes X (priv_public X priv) = Inr pub"
    "minted_for X cid pub (conf_GenesisRef conf)" "c_GenesisRef c = conf_GenesisRef conf"
    "c_encStrat c = \<lparr>strat_Key = key, strat_PreSharedKey = key\<rparr>"
    "conf = \<lparr>conf_GenesisRef = conf_GenesisRef conf, conf_EncryptionStrategy = ConvergentImmutable,
       conf_EncryptionArgs = Some args\<rparr>" "cid \<noteq> ''''"
proof -
  from assms obtain strat args vid gen ref w1 where
    m: "mintGenesis X cid priv rnd wrap ts w = (Ok (strat, args, vid, gen, ref), w1)"
    and conf: "conf = \<lparr>conf_GenesisRef = ref, conf_EncryptionStrategy = ConvergentImmutable, conf_EncryptionArgs = Some args\<rparr>"
    and c: "c_GenesisRef c = ref" "c_encStrat c = strat" "cid \<noteq> ''''"
    by (auto simp: NewChain_def Let_def gbind_Ok_iff computePubsubTopic_def GetEncryptionStrategyType_def split: if_splits)
  obtain vid' err where id: "id_from_pub X (priv_public X priv) = (vid', err)" by force
  from m obtain key where rnd: "rnd = Inr key" "strat = \<lparr>strat_Key = key, strat_PreSharedKey = key\<rparr>" "wrap key = Inr args"
    by (cases rnd; cases err) (auto simp: mintGenesis_def NewConvergentImmutableStrategy_def BuildArgs_def Let_def
        gbind_Ok_iff id)
  from m rnd obtain pub vsRef confRef e2 e3 where objs: "pub_bytes X (priv_public X priv) = Inr pub"
    "store_validator_set X (ext w) (genesisValidatorSet pub) (GetBlockEncryptionConfig X strat) = (Inr vsRef, e2)"
    "store_chain_config X e2 (genesisChainConfig vsRef) (GetBlockEncryptionConfig X strat) = (Inr confRef, e3)"
    "store_genesis X e3 \<lparr>gen_ChainId = cid, gen_Timestamp = Some ts, gen_EncStrategy = ConvergentImmutable,
       gen_InitChainConfigRef = confRef\<rparr> (GetGenesisEncryptionConfig X strat) = (Inr ref, ext w1)"
    by (cases err) (auto simp: mintGenesis_def NewConvergentImmutableStrategy_def Let_def gbind_Ok_iff gcall_Ok id
        GetEncryptionStrategyType_def)
  then have k: "minted_for X cid pub ref" unfolding minted_for_def by (metis fst_conv)
  show thesis by (rule that [OF rnd(1,3) objs(1)]) (use k rnd conf c in simp_all)
qed

lemma cmdInitCluster_cases:
  obtains "cmdInitCluster X P D fl w = (Err (Errorf ''chain config already exists: %s''), w)"
    | "os_Stat P (chainConfigPath fl) w = (Err fileNotExist, w)"
      "cmdInitCluster X P D fl w = gbind (GetObjectStore P fl) (\<lambda>objStore.
        gbind (GetDb P) (\<lambda>db. gbind (gcall (generate_key P)) (\<lambda>privKey.
        gbind (NewChain X db (initChainID fl) privKey None None (dr_rnd D) (wrap_args P)
              (dr_genesisTs D) (dr_nowTs D) (dr_uid0 D) (dr_uid D)) (\<lambda>(ch, conf).
        writeCluster P fl privKey conf)))) w"
proof -
  obtain r where st: "os_Stat P (chainConfigPath fl) w = (r, w)" and r: "r \<noteq> Panic"
    by (auto simp: os_Stat_def split: option.splits)
  show thesis
  proof (cases "r = Err fileNotExist")
    case True
    with st that(2) show thesis by (simp add: cmdInitCluster_def gbind_def [of "gtry _"] gtry_def IsNotExist_def)
  next
    case False
    with st r that(1) show thesis by (cases r) (auto simp: cmdInitCluster_def gbind_def gtry_def IsNotExist_def)
  qed
qed

lemma writeCluster_Ok:
  assumes P: "platform_ok P" and run: "writeCluster P fl k conf w = (Ok (), w')"
  obtains bs s where "marshal_priv P k = Inr bs" "UnmarshalString (json_node P) s = Inr \<lparr>cfg_PrivKey = bs\<rparr>"
    "os_files w' = (os_files w)(chainConfigPath fl \<mapsto> encodeChainConfig P conf, nodeConfigPath fl \<mapsto> s)"
proof -
  from run obtain bs s where "marshal_priv P k = Inr bs"
    "MarshalToString (json_node P) [CHR 0x09] \<lparr>cfg_PrivKey = bs\<rparr> = Inr s"
    "os_files w' = (os_files w)(chainConfigPath fl \<mapsto> encodeChainConfig P conf, nodeConfigPath fl \<mapsto> s)"
    by (auto simp: writeCluster_def gbind_Ok_iff case_SetPrivKey WriteFile_Ok)
  with P that show thesis unfolding platform_ok_def by blast
qed

lemma cmdInitCluster_Ok:
  fixes w w' :: "('e, 'z) cli_world_scheme"
  assumes P: "platform_ok P" "readable P (chainConfigPath fl)"
    and run: "cmdInitCluster X P D fl w = (Ok (), w')"
  obtains e k w1 db ch conf w2 bs s where
    "os_files w (chainConfigPath fl) = None"
    "generate_key P e = (Inr k, ext w1)"
    "NewChain X db (initChainID fl) k None None (dr_rnd D) (wrap_args P) (dr_genesisTs D) (dr_nowTs D) (dr_uid0 D)
       (dr_uid D) (w1 :: ('e, 'z) cli_world_scheme) = (Ok (ch, conf), w2)"
    "\<forall>c. UnmarshalString (json_chain P) (encodeChainConfig P conf) = Inr c \<longrightarrow> c = conf"
    "marshal_priv P k = Inr bs" "UnmarshalString (json_node P) s = Inr \<lparr>cfg_PrivKey = bs\<rparr>"
    "os_files w' = (os_files w)(chainConfigPath fl \<mapsto> encodeChainConfig P conf, nodeConfigPath fl \<mapsto> s)"
proof (rule cmdInitCluster_cases [of X P D fl w])
  assume st: "os_Stat P (chainConfigPath fl) w = (Err fileNotExist, w)"
    and "cmdInitCluster X P D fl w = gbind (GetObjectStore P fl) (\<lambda>objStore.
        gbind (GetDb P) (\<lambda>db. gbind (gcall (generate_key P)) (\<lambda>privKey.
        gbind (NewChain X db (initChainID fl) privKey None None (dr_rnd D) (wrap_args P)
              (dr_genesisTs D) (dr_nowTs D) (dr_uid0 D) (dr_uid D)) (\<lambda>(ch, conf).
        writeCluster P fl privKey conf)))) w"
  with run obtain os wa db wb k e ch conf w2 where
    os: "GetObjectStore P fl w = (Ok os, wa)" and db: "GetDb P wa = (Ok db, wb)"
    and k: "generate_key P (ext wb) = (Inr k, e)"
    and new: "NewChain X db (initChainID fl) k None None (dr_rnd D) (wrap_args P) (dr_genesisTs D) (dr_nowTs D)
       (dr_uid0 D) (dr_uid D) (wb\<lparr>ext := e\<rparr>) = (Ok (ch, conf), w2)"
    and wr: "writeCluster P fl k conf w2 = (Ok (), w')"
    by (auto simp: gbind_Ok_iff gcall_Ok)
  from st P(2) have none: "os_files w (chainConfigPath fl) = None"
    by (auto simp: os_Stat_def readable_def split: if_splits)
  have "os_files wb = os_files w"
    using keepsD [OF GetObjectStore_keeps os] keepsD [OF GetDb_keeps db] by blast
  moreover have "os_files w2 = os_files (wb\<lparr>ext := e\<rparr>)" using keepsD [OF NewChain_rest new] os_rest_files by blast
  ultimately have w2: "os_files w2 = os_files w" by simp
  have dat: "c = conf" if "UnmarshalString (json_chain P) (encodeChainConfig P conf) = Inr c" for c
    using that P(1) unfolding platform_ok_def encodeChainConfig_def
    by (cases "MarshalToString (json_chain P) [CHR 0x09] conf") auto
  from writeCluster_Ok [OF P(1) wr] obtain bs s where "marshal_priv P k = Inr bs"
    "UnmarshalString (json_node P) s = Inr \<lparr>cfg_PrivKey = bs\<rparr>"
    "os_files w' = (os_files w)(chainConfigPath fl \<mapsto> encodeChainConfig P conf, nodeConfigPath fl \<mapsto> s)"
    unfolding w2 by blast
  with k new dat none show thesis by (intro that [of "ext wb" k "wb\<lparr>ext := e\<rparr>" db]) auto
qed (use run in simp)

lemma GetNode_Ok:
  assumes P: "platform_ok P" and run: "GetNode X P D fl v = (Ok r, v')" and fresh: "nodeCached v = None"
    and path: "nodeConfigPath fl \<noteq> ''''"
  obtains dbm dat conf ch0 v1 v2 v3 nc k v4 where
    "os_files v (chainConfigPath fl) = Some dat" "UnmarshalString (json_chain P) dat = Inr conf"
    "os_files v1 = os_files v" "nodeCached v1 = None"
    "FromConfig X (known_strategy P) (strategy_ctors P) dbm conf None v1 = (Ok ch0, v2)"
    "installValidator fl ch0 = Ok (ru_chain r)"
    "loadNodeConfig P (nodeConfigPath fl) (createInitNodeConfig fl) v2 = (Ok nc, v3)"
    "unmarshal_priv P (cfg_PrivKey nc) = Inr k"
    "NewNode X dbm True (ru_chain r) k (dr_subscribed D) v3 = (Ok (ru_node r, ru_peers r, ru_proposer r, ru_validator r), v4)"
    "v' = v4\<lparr>nodeCached := Some r\<rparr>"
proof -
  from run fresh path obtain sh va os vb dbm vc dat vd conf ch0 v2 v3 nc k v4 where
    a: "GetShell P fl v = (Ok sh, va)" "GetObjectStore P fl va = (Ok os, vb)" "GetDb P vb = (Ok dbm, vc)"
    and rd: "ReadFile P (chainConfigPath fl) vc = (Ok dat, vd)"
    and rest: "UnmarshalString (json_chain P) dat = Inr conf"
    "FromConfig X (known_strategy P) (strategy_ctors P) dbm conf None vd = (Ok ch0, v2)"
    "installValidator fl ch0 = Ok (ru_chain r)"
    "loadNodeConfig P (nodeConfigPath fl) (createInitNodeConfig fl) v2 = (Ok nc, v3)"
    "unmarshal_priv P (cfg_PrivKey nc) = Inr k"
    "NewNode X dbm True (ru_chain r) k (dr_subscribed D) v3 = (Ok (ru_node r, ru_peers r, ru_proposer r, ru_validator r), v4)"
    "v' = v4\<lparr>nodeCached := Some r\<rparr>"
    by (auto simp: GetNode_def buildNode_def gbind_Ok_iff Let_def UnmarshalPrivKey_def)
  have "os_files vc = os_files v \<and> nodeCached vc = None"
    using keepsD [OF GetShell_keeps a(1)] keepsD [OF GetObjectStore_keeps a(2)] keepsD [OF GetDb_keeps a(3)] fresh by blast
  with rd ReadFile_Ok [OF rd] rest that show thesis by auto
qed

lemma installValidator_keeps:
  assumes "installValidator fl c = Ok c'"
  obtains bv where "c' = c\<lparr>c_blockValidator := bv\<rparr>"
proof (cases "nodeValidatorType fl = ''''")
  case True
  with assms have "c' = c\<lparr>c_blockValidator := c_blockValidator c\<rparr>" by (simp add: installValidator_def)
  then show thesis by (rule that)
next
  case False
  with assms obtain nv where "c' = c\<lparr>c_blockValidator := nv\<rparr>"
    by (cases "GetBuiltInValidator (nodeValidatorType fl)") (auto simp: installValidator_def SetBlockValidator_def)
  then show thesis by (rule that)
qed

text \<open>C28: a node started after \<open>init\<close> is the validator of the chain that \<open>init\<close> minted. When the command has
  succeeded and a node starts on its files, in another process and with whatever other flags, the node's
  private key is the generated one; the genesis object the node's chain refers to was stored for a validator
  set whose only member is that key, under the chain identifier of the command line; the chain's strategy
  has the key drawn at random for it; and the start writes no file.\<close>

theorem init_then_node_validates:
  fixes w w' v v' :: "('e, 'z) cli_world_scheme"
  assumes P: "platform_ok P" "readable P (chainConfigPath fl)" "readable P (nodeConfigPath fl)"
      "chainConfigPath fl \<noteq> nodeConfigPath fl" "nodeConfigPath fl \<noteq> ''''"
    and rnd: "dr_rnd D = Inr key" "length key = 32"
    and init: "cmdInitCluster X P D fl w = (Ok (), w')"
    and files: "os_files v = os_files w'" and fresh: "nodeCached v = None"
    and fl': "chainConfigPath fl' = chainConfigPath fl" "nodeConfigPath fl' = nodeConfigPath fl"
    and start: "GetNode X P D' fl' v = (Ok r, v')"
  shows "(\<exists>e e'. generate_key P e = (Inr (n_privKey (ru_node r)), e')) \<and>
    pub_bytes X (priv_public X (n_privKey (ru_node r))) = Inr (n_pubKeyBytes (ru_node r)) \<and>
    minted_for X (initChainID fl) (n_pubKeyBytes (ru_node r)) (c_GenesisRef (ru_chain r)) \<and>
    c_encStrat (ru_chain r) = \<lparr>strat_Key = key, strat_PreSharedKey = key\<rparr> \<and> os_files v' = os_files v"
proof -
  obtain e k w1 db ch conf w2 bs s where
    "os_files w (chainConfigPath fl) = None" and k: "generate_key P e = (Inr k, ext w1)"
    and new: "NewChain X db (initChainID fl) k None None (dr_rnd D) (wrap_args P) (dr_genesisTs D) (dr_nowTs D)
       (dr_uid0 D) (dr_uid D) (w1 :: ('e, 'z) cli_world_scheme) = (Ok (ch, conf), w2)"
    and dec: "\<forall>c. UnmarshalString (json_chain P) (encodeChainConfig P conf) = Inr c \<longrightarrow> c = conf"
    and bs: "marshal_priv P k = Inr bs" "UnmarshalString (json_node P) s = Inr \<lparr>cfg_PrivKey = bs\<rparr>"
    and w': "os_files w' = (os_files w)(chainConfigPath fl \<mapsto> encodeChainConfig P conf, nodeConfigPath fl \<mapsto> s)"
    by (rule cmdInitCluster_Ok [OF P(1,2) init])
  obtain key' args pub where key: "dr_rnd D = Inr key'"
    and m0: "wrap_args P key' = Inr args" "pub_bytes X (priv_public X k) = Inr pub"
      "minted_for X (initChainID fl) pub (conf_GenesisRef conf)"
    and "c_GenesisRef ch = conf_GenesisRef conf" "c_encStrat ch = \<lparr>strat_Key = key', strat_PreSharedKey = key'\<rparr>"
    and m: "conf = \<lparr>conf_GenesisRef = conf_GenesisRef conf, conf_EncryptionStrategy = ConvergentImmutable,
        conf_EncryptionArgs = Some args\<rparr>" "initChainID fl \<noteq> ''''"
    by (rule NewChain_minted [OF new])
  have kk: "key' = key" using key rnd(1) by simp
  note m0 = m0 [unfolded kk]
  have sel: "conf_EncryptionStrategy conf = ConvergentImmutable" "conf_EncryptionArgs conf = Some args"
    by (subst m(1), simp)+
  have np: "nodeConfigPath fl' \<noteq> ''''" using P(5) fl' by simp
  obtain dbm dat conf' ch0 v1 v2 v3 nc k' v4 where
    dat: "os_files v (chainConfigPath fl') = Some dat" "UnmarshalString (json_chain P) dat = Inr conf'"
    and v1: "os_files v1 = os_files v" "nodeCached v1 = None"
    and fc: "FromConfig X (known_strategy P) (strategy_ctors P) dbm conf' None v1 = (Ok ch0, v2)"
    and iv: "installValidator fl' ch0 = Ok (ru_chain r)"
    and nc: "loadNodeConfig P (nodeConfigPath fl') (createInitNodeConfig fl') v2 = (Ok nc, v3)"
      "unmarshal_priv P (cfg_PrivKey nc) = Inr k'"
    and nn: "NewNode X dbm True (ru_chain r) k' (dr_subscribed D') v3 =
      (Ok (ru_node r, ru_peers r, ru_proposer r, ru_validator r), v4)"
    and v': "v' = v4\<lparr>nodeCached := Some r\<rparr>"
    by (rule GetNode_Ok [OF P(1) start fresh np])
  have "conf' = conf" using dat dec w' files fl' P(4) by simp
  moreover have "BuildEncryptionStrategy (known_strategy P) (strategy_ctors P) ConvergentImmutable =
      NewConvergentImmutableStrategyFromConfig (decode_args P)" "decode_args P (Some args) = Inr key"
    using P(1) m0(1) BuildEncryptionStrategy_registered unfolding platform_ok_def by metis+
  ultimately have ch0: "c_encStrat ch0 = \<lparr>strat_Key = key, strat_PreSharedKey = key\<rparr>" "c_GenesisRef ch0 = conf_GenesisRef conf"
    using FromConfig_config(1,2) [OF fc] rnd(2) by (simp_all add: sel NewConvergentImmutableStrategyFromConfig_def)
  have ch: "c_encStrat (ru_chain r) = c_encStrat ch0" "c_GenesisRef (ru_chain r) = c_GenesisRef ch0"
    by (rule installValidator_keeps [OF iv], simp)+
  have v2: "os_files v2 = os_files v" using keepsD [OF FromConfig_rest fc] v1 os_rest_files by metis
  then have "os_files v2 (nodeConfigPath fl') = Some s" using w' files fl' by simp
  then have "nc = \<lparr>cfg_PrivKey = bs\<rparr>" "v3 = v2"
    using nc(1) loadNodeConfig_again [OF _ _ bs(2), of "nodeConfigPath fl'" v2 "createInitNodeConfig fl'"] P(3) fl' by auto
  moreover have "k' = k" using calculation nc(2) bs(1) P(1) unfolding platform_ok_def by auto
  moreover have "os_files v' = os_files v3" using keepsD [OF NewNode_rest nn] v' os_rest_files [of v4 v3] by simp
  ultimately show ?thesis using NewNode_config [OF nn] k m0 ch ch0 v2 by auto
qed

lemma writeCluster_files:
  assumes "writeCluster P fl k conf w = (r, w')" "q \<noteq> chainConfigPath fl" "q \<noteq> nodeConfigPath fl"
  shows "os_files w' q = os_files w q"
proof -
  have wf: "keeps (\<lambda>v. os_files v q = os_files w q) (WriteFile P path dat)" if "path \<noteq> q" for path dat
    by (rule keepsI) (use that in \<open>auto simp: WriteFile_def split: option.splits\<close>)
  have "keeps (\<lambda>v. os_files v q = os_files w q) (writeCluster P fl k conf)"
    unfolding writeCluster_def by (intro keeps_intros wf) (use assms in auto)
  from keepsD [OF this assms(1)] show ?thesis by simp
qed

text \<open>C36: \<open>init\<close> never touches an existing chain. When the chain configuration exists, or its absence
  cannot be established, the command reports an error and changes nothing at all, no file, no database and
  no cached object; and in no case does it write a file other than the two configurations.\<close>

theorem init_refuses_existing:
  assumes run: "cmdInitCluster X P D fl w = (r, w')"
  shows "(fst (os_Stat P (chainConfigPath fl) w) \<noteq> Err fileNotExist \<longrightarrow>
      r = Err (Errorf ''chain config already exists: %s'') \<and> w' = w) \<and>
    (\<forall>q. q \<noteq> chainConfigPath fl \<longrightarrow> q \<noteq> nodeConfigPath fl \<longrightarrow> os_files w' q = os_files w q)"
proof (rule cmdInitCluster_cases [of X P D fl w])
  let ?m = "\<lambda>objStore. gbind (GetDb P) (\<lambda>db. gbind (gcall (generate_key P)) (\<lambda>privKey.
        gbind (NewChain X db (initChainID fl) privKey None None (dr_rnd D) (wrap_args P)
              (dr_genesisTs D) (dr_nowTs D) (dr_uid0 D) (dr_uid D)) (\<lambda>(ch, conf). writeCluster P fl privKey conf)))"
  assume st: "os_Stat P (chainConfigPath fl) w = (Err fileNotExist, w)"
    and eq: "cmdInitCluster X P D fl w = gbind (GetObjectStore P fl) ?m w"
  have "os_files w' q = os_files w q" if q: "q \<noteq> chainConfigPath fl" "q \<noteq> nodeConfigPath fl" for q
  proof -
    have "keeps (\<lambda>v. os_files v q = os_files w q) (writeCluster P fl k conf)" for k conf
      by (rule keeps_by_frame [of _ "\<lambda>v. os_files v q"]) (rule writeCluster_files [OF _ q])
    then have "keeps (\<lambda>v. os_files v q = os_files w q) (gbind (GetObjectStore P fl) ?m)"
      by (intro keeps_intros keeps_os_files [of "\<lambda>F. F q = os_files w q"]) simp_all
    from keepsD [OF this run [unfolded eq]] show ?thesis by simp
  qed
  with st show ?thesis by simp
qed (use run in simp)





text \<open>
  The package variables agree: the object store and the node were built on the cached database, the object
  store on the cached connection.
\<close>

definition cli_inv :: "('e, 'z) cli_world_scheme \<Rightarrow> bool" where
  "cli_inv w \<longleftrightarrow>
     (\<forall>s. objStoreCached w = Some s \<longrightarrow> dbCached w = Some (os_db s) \<and> shellCached w = Some (os_shell s)) \<and>
     (\<forall>r. nodeCached w = Some r \<longrightarrow> dbCached w = Some (c_dbm (ru_chain r)))"

lemma cli_inv_rest:
  fixes v w :: "('e, 'z) cli_world_scheme"
  shows "os_rest v = os_rest w \<Longrightarrow> cli_inv w \<Longrightarrow> cli_inv v"
  using os_rest_caches [of v w] by (simp add: cli_inv_def)

lemma GetShell_outcome:
  assumes "GetShell P fl w = (r, w')" "cli_inv w"
  shows "cli_inv w' \<and> dbCached w' = dbCached w \<and> (\<forall>sh. r = Ok sh \<longrightarrow> shellCached w' = Some sh)"
proof (cases "shellCached w")
  case None
  obtain b v where b: "BuildCliShell P (ipfsApi fl) w = (b, v)" by force
  with BuildCliShell_state have "v = w" by blast
  then show ?thesis using assms None b by (cases b) (auto simp: GetShell_def gbind_def cli_inv_def)
qed (use assms in \<open>auto simp: GetShell_def gbind_def\<close>)

lemma GetDb_outcome:
  assumes "GetDb P w = (r, w')" "cli_inv w"
  shows "cli_inv w' \<and> shellCached w' = shellCached w \<and> (\<forall>d. r = Ok d \<longrightarrow> dbCached w' = Some d)"
proof (cases "dbCached w")
  case None
  obtain b e where "build_cli_db P (ext w) = (b, e)" by force
  then show ?thesis using assms None by (cases b) (auto simp: GetDb_def gbind_def gcall_def cli_inv_def)
qed (use assms in \<open>auto simp: GetDb_def gbind_def\<close>)

lemma GetObjectStore_outcome:
  assumes run: "GetObjectStore P fl w = (r, w')" and inv: "cli_inv w"
  shows "cli_inv w' \<and> (\<forall>s. r = Ok s \<longrightarrow> objStoreCached w' = Some s)"
proof (cases "objStoreCached w")
  case None
  obtain rd w1 where d: "GetDb P w = (rd, w1)" by force
  obtain rs w2 where s: "GetShell P fl w1 = (rs, w2)" by force
  note od = GetDb_outcome [OF d inv]
  then have os: "cli_inv w2 \<and> dbCached w2 = dbCached w1 \<and> (\<forall>sh. rs = Ok sh \<longrightarrow> shellCached w2 = Some sh)"
    using GetShell_outcome [OF s] by blast
  from run None d s od os show ?thesis
    by (cases rd; cases rs) (auto simp: GetObjectStore_def gbind_def Let_def cli_inv_def)
qed (use assms in \<open>auto simp: GetObjectStore_def gbind_def\<close>)

lemma keeps_cli_inv:
  "keeps cli_inv (GetShell P fl)" "keeps cli_inv (GetDb P)" "keeps cli_inv (GetObjectStore P fl)"
  by (rule keepsI; metis GetShell_outcome GetDb_outcome GetObjectStore_outcome prod.collapse)+

lemma keeps_by_rest:
  assumes "\<And>m. keeps (\<lambda>w. os_rest w = m) f" and "\<And>v w. os_rest v = os_rest w \<Longrightarrow> Q w \<Longrightarrow> Q v"
  shows "keeps Q f"
proof (rule keepsI)
  fix w assume "Q w"
  moreover have "os_rest (snd (f w)) = os_rest w" using assms(1) [of "os_rest w"] by (simp add: keeps_def)
  ultimately show "Q (snd (f w))" using assms(2) by blast
qed

lemma keeps_cli_inv_rest:
  "keeps cli_inv (FromConfig X known reg dbm conf bv)" "keeps cli_inv (NewNode X dbm b c k sub)"
  by (rule keeps_by_rest, rule FromConfig_rest NewNode_rest, erule (1) cli_inv_rest)+

lemma keeps_dbCached_rest:
  "keeps (\<lambda>w. dbCached w = d) (FromConfig X known reg dbm conf bv)" "keeps (\<lambda>w. dbCached w = d) (NewNode X dbm b c k sub)"
  by (rule keeps_by_rest [where Q = "\<lambda>w. dbCached w = d"], rule FromConfig_rest NewNode_rest, drule os_rest_caches(2), simp)+

lemma keeps_ReadFile: "keeps Q (ReadFile P path)"
  by (rule keepsI) (simp add: ReadFile_def)

lemma keeps_loadNodeConfig:
  assumes "\<And>w e. Q w \<Longrightarrow> Q (w\<lparr>ext := e\<rparr>)" "\<And>w F. Q w \<Longrightarrow> Q (w\<lparr>os_files := F\<rparr>)"
  shows "keeps Q (loadNodeConfig P path create)"
proof -
  have "keeps Q (WriteFile P path dat)" for dat
    by (rule keepsI) (auto simp: WriteFile_def split: option.splits intro: assms)
  then show ?thesis unfolding loadNodeConfig_def mintIdentity_def by (intro keeps_intros keeps_ReadFile assms(1))
qed

lemma buildNode_keeps_inv: "keeps cli_inv (buildNode X P D fl)"
  unfolding buildNode_def Let_def
  by (intro keeps_intros keeps_cli_inv keeps_cli_inv_rest keeps_ReadFile keeps_loadNodeConfig)
     (simp_all add: cli_inv_def)

lemma buildNode_db:
  assumes "buildNode X P D fl w = (Ok r, w')" "cli_inv w"
  shows "dbCached w' = Some (c_dbm (ru_chain r))"
proof -
  from assms(1) obtain sh w1 s w2 dbm w3 dat conf ch0 w4 nc w5 k where
    a: "GetShell P fl w = (Ok sh, w1)" "GetObjectStore P fl w1 = (Ok s, w2)" and db: "GetDb P w2 = (Ok dbm, w3)"
    and fc: "FromConfig X (known_strategy P) (strategy_ctors P) dbm conf None w3 = (Ok ch0, w4)"
    and iv: "installValidator fl ch0 = Ok (ru_chain r)"
    and nc: "loadNodeConfig P (if nodeConfigPath fl = '''' then ''node_config.json'' else nodeConfigPath fl)
      (createInitNodeConfig fl) w4 = (Ok nc, w5)"
    and nn: "NewNode X dbm True (ru_chain r) k (dr_subscribed D) w5 = (Ok (ru_node r, ru_peers r, ru_proposer r, ru_validator r), w')"
    by (auto simp: buildNode_def Let_def gbind_Ok_iff dest: ReadFile_Ok)
  have "cli_inv w2" using GetShell_outcome [OF a(1) assms(2)] GetObjectStore_outcome [OF a(2)] by blast
  then have "dbCached w3 = Some dbm" using GetDb_outcome [OF db] by blast
  then have "dbCached w4 = Some dbm" using keepsD [OF keeps_dbCached_rest(1) fc] by blast
  then have "dbCached w5 = Some dbm"
    using keepsD [OF keeps_loadNodeConfig [of "\<lambda>w. dbCached w = Some dbm"] nc] by simp
  then have "dbCached w' = Some dbm" using keepsD [OF keeps_dbCached_rest(2) nn] by blast
  moreover obtain bv where "ru_chain r = ch0\<lparr>c_blockValidator := bv\<rparr>" by (rule installValidator_keeps [OF iv])
  then have "c_dbm (ru_chain r) = dbm" using FromConfig_config(4) [OF fc] by simp
  ultimately show ?thesis by simp
qed

text \<open>The parts of the program share one database and are built once. Whatever \<open>GetNode\<close> does, succeed,
  fail or panic at any point, the cached objects stay consistent; a node it returns is cached and runs on the
  cached database, and from then on \<open>GetNode\<close> returns that very node, with whatever flags, and changes nothing.\<close>

theorem node_built_once:
  assumes inv: "cli_inv w" and run: "GetNode X P D fl w = (res, w')"
  shows "cli_inv w' \<and> (\<forall>r. res = Ok r \<longrightarrow> nodeCached w' = Some r \<and> dbCached w' = Some (c_dbm (ru_chain r)) \<and>
    (\<forall>D' fl'. GetNode X P D' fl' w' = (Ok r, w')))"
proof (cases "nodeCached w")
  case (Some r)
  then have "res = Ok r" "w' = w" using run by (simp_all add: GetNode_def gbind_def)
  moreover have "dbCached w = Some (c_dbm (ru_chain r))" using Some inv by (simp add: cli_inv_def)
  ultimately show ?thesis using Some inv by (simp add: GetNode_def gbind_def)
next
  case None
  obtain b v where b: "buildNode X P D fl w = (b, v)" by force
  have v: "cli_inv v" by (rule keepsD [OF buildNode_keeps_inv b inv])
  show ?thesis
  proof (cases b)
    case (Ok r)
    with b buildNode_db [OF _ inv] have "dbCached v = Some (c_dbm (ru_chain r))" by blast
    moreover have "res = Ok r" "w' = v\<lparr>nodeCached := Some r\<rparr>"
      using run None b Ok by (simp_all add: GetNode_def gbind_def)
    ultimately show ?thesis using v by (simp add: GetNode_def gbind_def cli_inv_def)
  qed (use run None b v in \<open>auto simp: GetNode_def gbind_def\<close>)
qed

section \<open>What the chat runs\<close>

text \<open>The chat does not validate its blocks beyond the child rule, and a block holds one message. The chain
  of a chat that has started has no block validator, although one was looked up; and with the options its
  proposer has, the loop that applies transactions ends with the first accepted one, so that a proposal never
  holds more than one transaction.\<close>

theorem chat_blocks_hold_one_transaction:
  assumes run: "runChatExample X P D fl S w = (Ok r, w')"
  shows "c_blockValidator (ru_chain r) = None \<and>
    (\<exists>opts m app. ru_blockProposer r = Some (opts, m, app) \<and>
       (\<forall>F cs evs p st v v'. TxLoop F m app opts cs evs (start_state p) v = (Ok (Break st), v') \<longrightarrow>
          length (pp_txRefs st) \<le> 1 \<and> length (pp_appliedTxs st) \<le> 1))"
proof -
  from run obtain conf w1 m where b: "Build X P D fl None None (Some (chat_initState S)) w = (Ok conf, w1)"
    and r: "r = SetBlockProposer (Some (zeroProposerOpts (noEnc S), m, chat_app S)) (co_Running conf)"
    by (auto simp: runChatExample_def Let_def gbind_Ok_iff NewMempoolProposer_def ProposerOpts_Validate_def
        zeroProposerOpts_def)
  have "c_blockValidator (ru_chain (co_Running conf)) = None"
    using b by (rule Build_Ok) (simp add: FromConfig_config(5))
  then have val: "c_blockValidator (ru_chain r) = None" by (simp add: r SetBlockProposer_def)
  let ?opts = "zeroProposerOpts (noEnc S)"
  have one: "enoughTxs ?opts cs now (Suc 0)" for cs now
    by (simp add: enoughTxs_def zeroProposerOpts_def Let_def)
  have "length (pp_txRefs st) \<le> 1 \<and> length (pp_appliedTxs st) \<le> 1"
    if "TxLoop F m (chat_app S) ?opts cs evs st0 v = (Ok (Break st), v')" "pp_txRefs st0 = []" "pp_appliedTxs st0 = []"
    for F cs evs st0 st v v'
    using that
  proof (induction evs arbitrary: st0 v)
    case (Cons ev evs)
    show ?case
    proof (cases ev)
      case (LoopErr e)
      with Cons show ?thesis by (cases e) (auto simp: gbind_Ok_iff split: if_splits)
    next
      case (LoopTx tx now)
      with Cons show ?thesis
        by (cases tx) (auto simp: gbind_Ok_iff Let_def one split: option.splits prod.splits if_splits)
    qed (use Cons in \<open>auto simp: gbind_Ok_iff\<close>)
  qed simp
  with val r show ?thesis by (auto simp: SetBlockProposer_def start_state_def)
qed

text \<open>When the chat's first state cannot be stored, the error is logged and the chain is minted all the
  same, with a block state that refers to whatever reference came with the error.\<close>

lemma chat_init_ignores_store_error:
  assumes "store_chat_state S (ext w) \<lparr>MessageCount = 0\<rparr> (noEnc S) = (Inl err, e)"
  shows "chat_initState S w = gcall (\<lambda>e. store_block_tx_state (tx_objects S) e
    \<lparr>bts_ApplicationStateRef = failedRef S, bts_TransactionSetRef = None\<rparr> (noEnc S)) (w\<lparr>ext := e\<rparr>)"
  using assms by (simp add: chat_initState_def gbind_def gtry_def gcall_def)

end
