(* ===== verification/StartWitnesses.thy ===== *)
theory StartWitnesses
  imports NodeWitnesses Startup
begin

text \<open>
  Witnesses for the properties of the programs that start a node: a platform on which they run, with a file
  system that is empty at first, over the environment of \<open>Demo\<close>.
\<close>

section \<open>A platform\<close>

text \<open>Chain configurations of a table are encoded by their position, in unary; a line feed does not count.\<close>

definition unary_json :: "'a list \<Rightarrow> 'a json_codec" where
  "unary_json tbl =
     \<lparr>MarshalToString = (\<lambda>i x. case index_of x tbl of
        None \<Rightarrow> Inl (ExtError ''encode'') | Some n \<Rightarrow> Inr (replicate (Suc n) (CHR ''j''))),
      UnmarshalString = (\<lambda>s. let n = length (filter (\<lambda>c. c = CHR ''j'') s) in
        if n = 0 \<or> length tbl < n then Inl (ExtError ''decode'') else Inr (tbl ! (n - 1)))\<rparr>"

definition hex_json :: "node_config json_codec" where
  "hex_json =
     \<lparr>MarshalToString = (\<lambda>i c. Inr (map (\<lambda>b. char_of (unat b)) (cfg_PrivKey c))),
      UnmarshalString = (\<lambda>s. Inr \<lparr>cfg_PrivKey = map (\<lambda>c. word_of_nat (of_char c)) s\<rparr>)\<rparr>"

definition demo_minted_conf :: "bytes chain_conf" where
  "demo_minted_conf = \<lparr>conf_GenesisRef = demo_ref 32, conf_EncryptionStrategy = ConvergentImmutable,
     conf_EncryptionArgs = Some (replicate 32 7)\<rparr>"

definition open_args :: "bytes option \<Rightarrow> go_error + bytes" where
  "open_args w = (case w of None \<Rightarrow> Inl (ExtError ''no arguments'') | Some bs \<Rightarrow> Inr bs)"

definition demo_platform :: "(string \<Rightarrow> go_error option) \<Rightarrow> ('e, bytes) platform" where
  "demo_platform flt =
     \<lparr>ipfs_version = (\<lambda>e s. Inr (''0'', '''')), build_cli_db = (\<lambda>e. (Inr [''/d''], e)),
      generate_key = (\<lambda>e. (Inr (PrivKey 1), e)), json_node = hex_json,
      json_chain = unary_json [demo_minted_conf],
      marshal_priv = (\<lambda>k. case k of PrivKey n \<Rightarrow> Inr (replicate n 0)),
      unmarshal_priv = (\<lambda>bs. Inr (PrivKey (length bs))),
      wrap_args = Inr, decode_args = open_args, known_strategy = (\<lambda>_. True),
      strategy_ctors = [ConvergentImmutable \<mapsto> Some (NewConvergentImmutableStrategyFromConfig open_args)],
      stat_fault = (\<lambda>e p. None), read_fault = (\<lambda>e p. None),
      write_fault = (\<lambda>e p dat. map_option (\<lambda>x. (x, None)) (flt p))\<rparr>"

lemma unary_json_law:
  "MarshalToString (unary_json tbl) i c = Inr s \<Longrightarrow>
     UnmarshalString (unary_json tbl) s = Inr c \<and> UnmarshalString (unary_json tbl) (s @ [CHR 0x0A]) = Inr c"
  by (auto simp: unary_json_def Let_def filter_replicate split: option.splits dest!: index_of_Some)

lemma byte_through_char: "word_of_nat (unat (b :: byte) mod 256) = b"
  using unat_byte_bound [of b] by simp

lemma demo_platform_ok: "platform_ok (demo_platform flt)"
proof -
  have "UnmarshalString hex_json s = Inr c" if "MarshalToString hex_json i c = Inr s" for i c s
    using that by (cases c) (auto simp: hex_json_def byte_through_char comp_def)
  moreover have "UnmarshalString (unary_json [demo_minted_conf]) [CHR 0x0A] = Inl (ExtError ''decode'')"
    by (simp add: unary_json_def Let_def)
  ultimately show ?thesis
    using unary_json_law [where tbl = "[demo_minted_conf]"]
    by (auto simp: platform_ok_def demo_platform_def open_args_def init_convergentimmutable_def
        MustRegisterEncryptionStrategyCtor_def RegisterEncryptionStrategyCtor_def gbind_def gtry_def
        split: priv_key.splits)
qed

lemma demo_readable [simp]: "readable (demo_platform flt) path"
  by (simp add: readable_def demo_platform_def)

definition demo_flags :: flags where
  "demo_flags = \<lparr>ipfsApi = ''u'', chainConfigPath = ''chain'', nodeConfigPath = ''node'',
     createInitNodeConfig = True, nodeValidatorType = ''allow'', initChainID = ''c''\<rparr>"

definition demo_draws :: draws where
  "demo_draws = \<lparr>dr_rnd = Inr (replicate 32 7), dr_genesisTs = \<lparr>TimeUnixMs = 0\<rparr>, dr_nowTs = \<lparr>TimeUnixMs = 0\<rparr>,
     dr_uid0 = ''x'', dr_uid = ''m'', dr_subscribed = Inr ()\<rparr>"

text \<open>
  Services that take everything and answer with fixed objects: those of block zero of the small chain.
\<close>

definition blank_codec :: "'a \<Rightarrow> 'a codec" where
  "blank_codec x = \<lparr>marshal = (\<lambda>_. Inr []), unmarshal = (\<lambda>_. Inr x)\<rparr>"

definition fixed_services :: "unit externals" where
  "fixed_services =
     \<lparr>db_get = (\<lambda>e h k. Inr None), db_set = (\<lambda>e h k v. (Inr (), e)),
      pb_block_state = blank_codec (demo_bstate ''m'' None), pb_segment_state = blank_codec (demo_segment DISJOINTED 0 0),
      pb_chain_state = blank_codec \<lparr>cs_StateSegment = ''m'', cs_LastHeight = 0, cs_LastRound = 0\<rparr>,
      pb_proposer_state = blank_codec \<lparr>ps_LastProposal = None\<rparr>,
      pb_validator_state = blank_codec \<lparr>vs_LastVote = None\<rparr>,
      pb_peer_state = blank_codec \<lparr>LastObservedMessage = None\<rparr>,
      pb_node_state = blank_codec \<lparr>ns_LastMsgRef = None\<rparr>, pb_pubsub_message = blank_codec demo_pubsub,
      follow_block = (\<lambda>e r c d. Inr (demo_block 0)), follow_header = (\<lambda>e r c d. Inr (demo_header 0)),
      follow_vote = (\<lambda>e r c d. Inr \<lparr>vote_BlockHeaderRef = demo_ref 20\<rparr>),
      follow_chain_config = (\<lambda>e r c d. Inr demo_config), follow_validator_set = (\<lambda>e r c d. Inr demo_vset),
      follow_node_message = (\<lambda>e r c d. Inr (demo_message VOTE 5)), follow_genesis = (\<lambda>e r c d. Inr demo_genesis),
      store_block = (\<lambda>e x c. (Inr (demo_ref 10), e)), store_header = (\<lambda>e x c. (Inr (demo_ref 20), e)),
      store_vote = (\<lambda>e x c. (Inr (demo_ref 41), e)), store_validator_set = (\<lambda>e x c. (Inr (demo_ref 31), e)),
      store_chain_config = (\<lambda>e x c. (Inr (demo_ref 30), e)), store_genesis = (\<lambda>e x c. (Inr (demo_ref 32), e)),
      store_node_message = (\<lambda>e x c. (Inr (demo_ref 60), e)), store_local_segment = (\<lambda>e x. (Inr (), e)),
      pubsub_publish = (\<lambda>e t m. (Inr (), e)), ref_equals = (=), ts_to_time = (\<lambda>t. 0), ts_validate = (\<lambda>t. Inr ()),
      select_proposer = (\<lambda>vs d h r. (None, 0)), sort_validators = (\<lambda>vs. vs),
      parse_peer_id = (\<lambda>v. Inr (PeerID ''p'', PubKey 1)), parse_public_key = (\<lambda>v. Inr (PubKey 1)),
      id_from_pub = (\<lambda>k. (PeerID ''p'', None)), id_from_priv = (\<lambda>k. Inr (PeerID ''p'')),
      id_decode = (\<lambda>s. Inr (PeerID s)), pretty_id = (\<lambda>p. ''p''), pub_bytes = (\<lambda>k. Inr [0]),
      unmarshal_pub = (\<lambda>bs. Inr (PubKey 1)), pub_equals = (=), priv_public = (\<lambda>k. PubKey 1),
      digest_data = (\<lambda>m. Inl (ExtError ''digest'')), zero_segment_status = DISJOINTED\<rparr>"

definition demo_os :: "unit cli_world" where
  "demo_os = \<lparr>ext = (), segmentMap = Map.empty, segmentQueue = \<lparr>pq = [], notifyCh = []\<rparr>,
     ch_state = \<lparr>cs_StateSegment = '''', cs_LastHeight = 0, cs_LastRound = 0\<rparr>,
     recheckStateTrigger = [], stateSnapshotCtx = None, canceledCtxs = [], lastStateSnapshot = None,
     stateSubs = Map.empty, pendingSubs = Map.empty, lastHeadDigest = [], lastBlock = None, lastBlockHeader = None,
     lastBlockRef = None, peers = Map.empty, pr_state = \<lparr>ps_LastProposal = None\<rparr>,
     va_state = \<lparr>vs_LastVote = None\<rparr>, n_state = \<lparr>ns_LastMsgRef = None\<rparr>, outboxCh = [],
     os_files = Map.empty, shellCached = None, dbCached = None, objStoreCached = None, nodeCached = None\<rparr>"

abbreviation demo_P :: "(unit, bytes) platform" where
  "demo_P \<equiv> demo_platform (\<lambda>_. None)"

lemma Ok_run:
  assumes "case fst p of Ok _ \<Rightarrow> True | _ \<Rightarrow> False"
  obtains x w where "p = (Ok x, w)" "w = snd p"
  using assms by (cases p) (auto split: res.splits)

section \<open>The examples\<close>









definition demo_chat :: "(unit, unit) chat_services" where
  "demo_chat = \<lparr>tx_objects = \<lparr>follow_block_tx_state = (\<lambda>e r c. Inl (ExtError ''none'')),
       store_tx_set = (\<lambda>e x c. (Inr (demo_ref 70), e)), store_block_tx_state = (\<lambda>e x c. (Inr (demo_ref 71), e))\<rparr>,
     fetch_chat_state = (\<lambda>e r. Inr \<lparr>MessageCount = 0\<rparr>), fetch_chat_tx = (\<lambda>e r. Inr ()),
     store_chat_state = (\<lambda>e x c. (Inr (demo_ref 72), e)), failedRef = None,
     noEnc = \<lparr>EncryptionType = SECRET_BOX, ResourceLookup = (\<lambda>_. Err (Errorf '''')), CompressionType = SNAPPY,
       SignerKeys = [], VerifyKeys = []\<rparr>,
     pb_tx_info = blank_codec \<lparr>ti_NodeMessageRef = None\<rparr>, pb_chat_state = blank_codec \<lparr>MessageCount = 0\<rparr>,
     heapReady = Inr ()\<rparr>"

theorem chat_blocks_hold_one_transaction_witness:
  "\<exists>r w'. runChatExample fixed_services demo_P demo_draws demo_flags demo_chat demo_os = (Ok r, w') \<and>
     c_blockValidator (ru_chain r) = None"
proof -
  have "case fst (runChatExample fixed_services demo_P demo_draws demo_flags demo_chat demo_os) of Ok _ \<Rightarrow> True | _ \<Rightarrow> False"
    by code_simp
  then obtain r w' where run: "runChatExample fixed_services demo_P demo_draws demo_flags demo_chat demo_os = (Ok r, w')"
    by (rule Ok_run)
  from chat_blocks_hold_one_transaction [OF run] run show ?thesis by blast
qed

section \<open>The command line program\<close>

abbreviation demo_init :: "(unit, bytes) platform \<Rightarrow> unit cli_world \<Rightarrow> unit res \<times> unit cli_world" where
  "demo_init P \<equiv> cmdInitCluster fixed_services P demo_draws demo_flags"

text \<open>The machine after \<open>init\<close> has run and ended.\<close>

definition demo_after_init :: "unit cli_world" where
  "demo_after_init = demo_os\<lparr>os_files := os_files (snd (demo_init demo_P demo_os))\<rparr>"

lemma demo_cli_runs:
  "case fst (demo_init demo_P demo_os) of Ok _ \<Rightarrow> True | _ \<Rightarrow> False"
  "case fst (GetNode fixed_services demo_P demo_draws demo_flags demo_after_init) of Ok _ \<Rightarrow> True | _ \<Rightarrow> False"
  by code_simp+

theorem init_then_node_validates_witness:
  "\<exists>r. fst (GetNode fixed_services demo_P demo_draws demo_flags demo_after_init) = Ok r \<and>
     minted_for fixed_services ''c'' (n_pubKeyBytes (ru_node r)) (c_GenesisRef (ru_chain r))"
proof -
  obtain u w' where "demo_init demo_P demo_os = (Ok u, w')" and w': "w' = snd (demo_init demo_P demo_os)"
    by (rule Ok_run [OF demo_cli_runs(1)])
  then have init: "demo_init demo_P demo_os = (Ok (), w')" by simp
  obtain r v' where node: "GetNode fixed_services demo_P demo_draws demo_flags demo_after_init = (Ok r, v')"
    by (rule Ok_run [OF demo_cli_runs(2)])
  have rnd: "dr_rnd demo_draws = Inr (replicate 32 7)" "length (replicate 32 7 :: bytes) = 32"
    and paths: "chainConfigPath demo_flags \<noteq> nodeConfigPath demo_flags" "nodeConfigPath demo_flags \<noteq> ''''"
    by (simp_all add: demo_draws_def demo_flags_def)
  have "os_files demo_after_init = os_files w'" "nodeCached demo_after_init = None"
    by (simp_all add: demo_after_init_def w' demo_os_def)
  from init_then_node_validates [OF demo_platform_ok demo_readable demo_readable paths rnd init this refl refl node]
  have "minted_for fixed_services (initChainID demo_flags) (n_pubKeyBytes (ru_node r)) (c_GenesisRef (ru_chain r))" by blast
  with node show ?thesis by (simp add: demo_flags_def)
qed

lemma demo_init_again: "fst (os_Stat demo_P (chainConfigPath demo_flags) demo_after_init) \<noteq> Err fileNotExist"
  by code_simp

theorem init_refuses_existing_witness:
  "snd (demo_init demo_P demo_after_init) = demo_after_init"
  using init_refuses_existing [OF surjective_pairing, THEN conjunct1, rule_format, OF demo_init_again] by blast




theorem node_built_once_witness:
  "\<exists>r w'. GetNode fixed_services demo_P demo_draws demo_flags demo_after_init = (Ok r, w') \<and>
     GetNode fixed_services demo_P demo_draws demo_flags w' = (Ok r, w')"
proof -
  obtain r v' where node: "GetNode fixed_services demo_P demo_draws demo_flags demo_after_init = (Ok r, v')"
    by (rule Ok_run [OF demo_cli_runs(2)])
  have "cli_inv demo_after_init" by (simp add: cli_inv_def demo_after_init_def demo_os_def)
  from node_built_once [OF this node] node show ?thesis by blast
qed

end
