(* ===== verification/SegLists.thy ===== *)
theory SegLists
  imports Commits
begin

text \<open>
  Segments as lists of blocks. The database keeps, for every block, the segment it belongs to and the
  block after it, and for every segment its two ends; memory keeps a copy of the segments that were loaded.
  The abstract view of all this is a map from identifiers to lists of block references, from the tail of the
  segment to its head (\<open>seg_lists\<close>). This theory holds the view and what it means to change it: what the
  database holds as a function of its state, and the three changes of a list. \<open>SegSteps\<close> shows that the
  operations of the chain make exactly these changes, \<open>SegLife\<close> follows a chain from its creation.

  The view is sound while the database accepts writes, and until a panic, which ends the process.
\<close>

section \<open>Reading the database\<close>

text \<open>What \<open>read_slot\<close> returns, as a function of the state of the services.\<close>

definition slot_view ::
  "('e, 'x) externals_scheme \<Rightarrow> 'a codec \<Rightarrow> db_view \<Rightarrow> string \<Rightarrow> 'a \<Rightarrow> 'e \<Rightarrow> 'a res" where
  "slot_view X c h k old e =
     rbind (res_of (db_get X e h k)) (\<lambda>dat.
       case dat of None \<Rightarrow> Ok old | Some bs \<Rightarrow> res_of (unmarshal c bs))"

lemma read_slot_view: "read_slot X c h k old w = (slot_view X c h k old (ext w), w)"
  by (auto simp: read_slot_def slot_view_def gbind_def rbind_def split: res.splits option.splits)

lemma slot_view_write:
  assumes "db_ok X" "db_set X e h k bs = (Inr (), e')"
  shows "slot_view X c' h' k' old e' =
    (if concat h' @ k' = concat h @ k then res_of (unmarshal c' bs) else slot_view X c' h' k' old e)"
  using db_okD [OF assms, of h' k'] by (simp add: slot_view_def)

abbreviation zero_block :: block_state where
  "zero_block \<equiv> \<lparr>bs_SegmentId = '''', bs_NextBlock = None\<rparr>"

definition block_view :: "('e, 'x) externals_scheme \<Rightarrow> chain \<Rightarrow> 'e \<Rightarrow> bytes \<Rightarrow> block_state res" where
  "block_view X c e d =
     slot_view X (pb_block_state X) (GetBlockDbm c) (''/'' @ b64_encode d) zero_block e"

definition seg_view :: "('e, 'x) externals_scheme \<Rightarrow> chain \<Rightarrow> 'e \<Rightarrow> string \<Rightarrow> segment_state res" where
  "seg_view X c e sid =
     slot_view X (pb_segment_state X) (segStoreDbm c) (''/'' @ sid) ((zero_segment X)\<lparr>ss_Id := sid\<rparr>) e"

lemma Segment_readState_view:
  "Segment_readState X (segStoreDbm c) ((zero_segment X)\<lparr>ss_Id := sid\<rparr>) w = (seg_view X c (ext w) sid, w)"
  by (simp add: Segment_readState_def read_slot_view seg_view_def Segment_dbKey_def)

lemma block_view_set:
  assumes "db_ok X" "db_set X e h k bs = (Inr (), e')"
  shows "block_view X c e' d =
    (if concat (GetBlockDbm c) @ ''/'' @ b64_encode d = concat h @ k then res_of (unmarshal (pb_block_state X) bs)
     else block_view X c e d)"
  unfolding block_view_def by (rule slot_view_write [OF assms])

lemma seg_view_set:
  assumes "db_ok X" "db_set X e h k bs = (Inr (), e')"
  shows "seg_view X c e' sid =
    (if concat (segStoreDbm c) @ ''/'' @ sid = concat h @ k then res_of (unmarshal (pb_segment_state X) bs)
     else seg_view X c e sid)"
  unfolding seg_view_def by (rule slot_view_write [OF assms])

text \<open>Writes that the services never refuse.\<close>

definition writes_ok :: "('e, 'x) externals_scheme \<Rightarrow> bool" where
  "writes_ok X \<longleftrightarrow>
     (\<forall>e h k v. \<exists>e'. db_set X e h k v = (Inr (), e')) \<and>
     (\<forall>st. \<exists>bs. marshal (pb_block_state X) st = Inr bs) \<and>
     (\<forall>st. \<exists>bs. marshal (pb_segment_state X) st = Inr bs)"

definition same_objs :: "('e, 'x) externals_scheme \<Rightarrow> 'e \<Rightarrow> 'e \<Rightarrow> bool" where
  "same_objs X e e' \<longleftrightarrow> follow_block X e' = follow_block X e \<and> follow_header X e' = follow_header X e \<and>
     follow_chain_config X e' = follow_chain_config X e \<and> follow_validator_set X e' = follow_validator_set X e"

lemma same_objs_refl [simp]: "same_objs X e e"
  by (simp add: same_objs_def)

lemma same_objs_trans: "same_objs X a b \<Longrightarrow> same_objs X b d \<Longrightarrow> same_objs X a d"
  by (simp add: same_objs_def)

lemma block_paths: "concat (GetBlockDbm c) @ k \<noteq> concat (segStoreDbm c) @ k'"
  by (simp add: GetBlockDbm_def segStoreDbm_def WithPrefix_def)

text \<open>
  A change of the services that stores one block state, one segment, or the chain's own state.
\<close>

lemma Block_written_view:
  assumes X: "store_ok X" and b: "b_dbm b = GetBlockDbm c" "b_dbKey b = ''/'' @ b64_encode d"
    and run: "Block_WriteState X b w = (Ok (), w')"
  obtains e' where "w' = w\<lparr>ext := e'\<rparr>" "same_objs X (ext w) e'"
    "block_view X c e' = (block_view X c (ext w))(d := Ok (b_State b))"
    "seg_view X c e' = seg_view X c (ext w)"
proof -
  note ok = X [unfolded store_ok_def]
  from run b obtain bs e' where bs: "marshal (pb_block_state X) (b_State b) = Inr bs"
    and e': "db_set X (ext w) (GetBlockDbm c) (''/'' @ b64_encode d) bs = (Inr (), e')" and w': "w' = w\<lparr>ext := e'\<rparr>"
    by (auto simp: Block_WriteState_def GetDbKey_def write_slot_Ok)
  have "same_objs X (ext w) e'" using objects_okD [OF _ e'] ok by (simp add: same_objs_def)
  moreover have "block_view X c e' = (block_view X c (ext w))(d := Ok (b_State b))"
    using codec_okD [OF _ bs] ok by (auto simp: fun_eq_iff block_view_set [OF _ e'] GetBlockDbm_def)
  moreover have "seg_view X c e' = seg_view X c (ext w)"
    using block_paths [of c "''/'' @ b64_encode d"] ok by (simp add: fun_eq_iff seg_view_set [OF _ e'] eq_commute)
  ultimately show thesis using w' that by blast
qed

lemma segment_written_view:
  assumes X: "store_ok X"
    and run: "write_slot X (pb_segment_state X) (segStoreDbm c) (Segment_dbKey st) st w = (Ok (), w')"
  obtains e' where "w' = w\<lparr>ext := e'\<rparr>" "same_objs X (ext w) e'" "block_view X c e' = block_view X c (ext w)"
    "seg_view X c e' = (seg_view X c (ext w))(ss_Id st := Ok st)"
proof -
  note ok = X [unfolded store_ok_def]
  from run obtain bs e' where bs: "marshal (pb_segment_state X) st = Inr bs"
    and e': "db_set X (ext w) (segStoreDbm c) (Segment_dbKey st) bs = (Inr (), e')" and w': "w' = w\<lparr>ext := e'\<rparr>"
    by (auto simp: write_slot_Ok)
  have "same_objs X (ext w) e'" using objects_okD [OF _ e'] ok by (simp add: same_objs_def)
  moreover have "block_view X c e' = block_view X c (ext w)"
    using block_paths [of c _ "Segment_dbKey st"] ok by (simp add: fun_eq_iff block_view_set [OF _ e'])
  moreover have "seg_view X c e' = (seg_view X c (ext w))(ss_Id st := Ok st)"
    using codec_okD [OF _ bs] ok by (auto simp: fun_eq_iff seg_view_set [OF _ e'] Segment_dbKey_def)
  ultimately show thesis using w' that by blast
qed

lemma Block_write_view:
  assumes X: "store_ok X" "writes_ok X" and b: "b_dbm b = GetBlockDbm c" "b_dbKey b = ''/'' @ b64_encode d"
  obtains e' where "Block_WriteState X b w = (Ok (), w\<lparr>ext := e'\<rparr>)" "same_objs X (ext w) e'"
    "block_view X c e' = (block_view X c (ext w))(d := Ok (b_State b))"
    "seg_view X c e' = seg_view X c (ext w)"
proof -
  have "\<exists>w'. Block_WriteState X b w = (Ok (), w')"
    using X(2) unfolding writes_ok_def Block_WriteState_def write_slot_Ok by metis
  then obtain w' where w': "Block_WriteState X b w = (Ok (), w')" by blast
  show thesis by (rule Block_written_view [OF X(1) b w']) (use w' that in blast)
qed

lemma segment_write_view:
  assumes X: "store_ok X" "writes_ok X"
  obtains e' where "write_slot X (pb_segment_state X) (segStoreDbm c) (Segment_dbKey st) st w = (Ok (), w\<lparr>ext := e'\<rparr>)"
    "same_objs X (ext w) e'" "block_view X c e' = block_view X c (ext w)"
    "seg_view X c e' = (seg_view X c (ext w))(ss_Id st := Ok st)"
proof -
  have "\<exists>w'. write_slot X (pb_segment_state X) (segStoreDbm c) (Segment_dbKey st) st w = (Ok (), w')"
    using X(2) unfolding writes_ok_def write_slot_Ok by metis
  then obtain w' where w': "write_slot X (pb_segment_state X) (segStoreDbm c) (Segment_dbKey st) st w = (Ok (), w')" by blast
  show thesis by (rule segment_written_view [OF X(1) w']) (use w' that in blast)
qed

lemma Segment_write_view:
  assumes X: "store_ok X" "writes_ok X"
  obtains e' where "Segment_writeState X (segStoreDbm c) sid w = (Ok (), w\<lparr>ext := e'\<rparr>)"
    "same_objs X (ext w) e'" "block_view X c e' = block_view X c (ext w)"
    "seg_view X c e' = (seg_view X c (ext w))(ss_Id (seg_state X sid w) := Ok (seg_state X sid w))"
  by (rule segment_write_view [OF X, of c "seg_state X sid w" w])
     (use that in \<open>simp add: Segment_writeState_def gbind_def\<close>)

section \<open>Lists of blocks\<close>

text \<open>
  Every block of the list belongs to the segment and points to the block after it, the last one to none.
\<close>

fun chained :: "(bytes \<Rightarrow> block_state res) \<Rightarrow> string \<Rightarrow> sref list \<Rightarrow> bool" where
  "chained B sid [] = True"
| "chained B sid [r] = (B (GetObjectDigest r) = Ok \<lparr>bs_SegmentId = sid, bs_NextBlock = None\<rparr>)"
| "chained B sid (r # s # rs) =
     (B (GetObjectDigest r) = Ok \<lparr>bs_SegmentId = sid, bs_NextBlock = s\<rparr> \<and> chained B sid (s # rs))"

text \<open>
  The state \<open>st\<close> of the segment \<open>sid\<close> describes the list \<open>rs\<close>. \<open>F p r\<close> says that \<open>r\<close> names \<open>p\<close> as its last
  block, \<open>O p r\<close> that it also satisfies the child rule after \<open>p\<close>.
\<close>

definition list_of ::
  "(sref \<Rightarrow> sref \<Rightarrow> bool) \<Rightarrow> (sref \<Rightarrow> sref \<Rightarrow> bool) \<Rightarrow> (bytes \<Rightarrow> block_state res) \<Rightarrow> string \<Rightarrow> sref list \<Rightarrow>
     segment_state \<Rightarrow> bool" where
  "list_of F C B sid rs st \<longleftrightarrow> sid \<noteq> '''' \<and> rs \<noteq> [] \<and> None \<notin> set rs \<and> distinct (map GetObjectDigest rs) \<and>
     chained B sid rs \<and> successively F rs \<and> ss_Id st = sid \<and> ss_TailBlock st = hd rs \<and> ss_HeadBlock st = last rs \<and>
     (ss_Status st \<noteq> INVALID \<longrightarrow> successively C rs)"

text \<open>
  The whole database. \<open>z\<close> is the state of a segment that was never written; \<open>m\<close> is the copy in memory,
  which agrees with the database where it holds anything.
\<close>

text \<open>
  A segment that was joined to another one: some block of the other one is the last block of its tail, and some
  block of it has the tail as a valid child. \<open>V p r\<close> says that \<open>r\<close> is a valid child of \<open>p\<close>.
\<close>

definition joined ::
  "(sref \<Rightarrow> sref \<Rightarrow> bool) \<Rightarrow> (sref \<Rightarrow> sref \<Rightarrow> bool) \<Rightarrow> (string \<rightharpoonup> sref list) \<Rightarrow> sref list \<Rightarrow> segment_state \<Rightarrow> bool" where
  "joined F V A rs st \<longleftrightarrow> (ss_SegmentPrev st \<noteq> '''' \<longrightarrow>
     (\<exists>ps. A (ss_SegmentPrev st) = Some ps \<and> (\<exists>q\<in>set ps. F q (hd rs)) \<and> (\<exists>q\<in>set ps. V q (hd rs))))"

definition lists_of ::
  "(string \<Rightarrow> segment_state) \<Rightarrow> (sref \<Rightarrow> sref \<Rightarrow> bool) \<Rightarrow> (sref \<Rightarrow> sref \<Rightarrow> bool) \<Rightarrow> (sref \<Rightarrow> sref \<Rightarrow> bool) \<Rightarrow>
     (bytes \<Rightarrow> block_state res) \<Rightarrow> (string \<Rightarrow> segment_state res) \<Rightarrow> (string \<rightharpoonup> segment_state) \<Rightarrow>
     (string \<rightharpoonup> sref list) \<Rightarrow> bool" where
  "lists_of z F C V B S m A \<longleftrightarrow>
     (\<forall>sid. \<exists>st. S sid = Ok st \<and> (m sid = None \<or> m sid = Some st) \<and>
        (case A sid of None \<Rightarrow> st = z sid | Some rs \<Rightarrow> list_of F C B sid rs st \<and> joined F V A rs st)) \<and>
     (\<forall>d. \<exists>bs. B d = Ok bs \<and>
        (if bs_SegmentId bs = '''' then bs_NextBlock bs = None
         else \<exists>rs. A (bs_SegmentId bs) = Some rs \<and> d \<in> GetObjectDigest ` set rs))"

lemma joined_mono:
  assumes "joined F V A rs st" "ss_SegmentPrev st' = ss_SegmentPrev st" "hd rs' = hd rs"
    and "\<And>ps. A sid = Some ps \<Longrightarrow> set ps \<subseteq> set qs"
  shows "joined F V (A(sid \<mapsto> qs)) rs' st'"
  using assms unfolding joined_def by (auto; blast)

lemma chained_mem: "chained B sid rs \<Longrightarrow> r \<in> set rs \<Longrightarrow> \<exists>n. B (GetObjectDigest r) = Ok \<lparr>bs_SegmentId = sid, bs_NextBlock = n\<rparr>"
  by (induction B sid rs rule: chained.induct) auto

lemma chained_cong:
  "(\<And>r. r \<in> set rs \<Longrightarrow> B' (GetObjectDigest r) = B (GetObjectDigest r)) \<Longrightarrow> chained B' sid rs = chained B sid rs"
  by (induction B sid rs rule: chained.induct) auto

lemma chained_last:
  "chained B sid rs \<Longrightarrow> rs \<noteq> [] \<Longrightarrow> B (GetObjectDigest (last rs)) = Ok \<lparr>bs_SegmentId = sid, bs_NextBlock = None\<rparr>"
  by (induction B sid rs rule: chained.induct) auto

lemma chained_end:
  "chained B sid rs \<Longrightarrow> None \<notin> set rs \<Longrightarrow> r \<in> set rs \<Longrightarrow>
     B (GetObjectDigest r) = Ok \<lparr>bs_SegmentId = sid, bs_NextBlock = None\<rparr> \<Longrightarrow> GetObjectDigest r = GetObjectDigest (last rs)"
  by (induction B sid rs rule: chained.induct) auto

lemma chained_snoc:
  assumes "chained B sid rs" "rs \<noteq> []" "distinct (map GetObjectDigest (rs @ [r]))"
  shows "chained (B(GetObjectDigest (last rs) := Ok \<lparr>bs_SegmentId = sid, bs_NextBlock = r\<rparr>,
    GetObjectDigest r := Ok \<lparr>bs_SegmentId = sid, bs_NextBlock = None\<rparr>)) sid (rs @ [r])"
  using assms
proof (induction B sid rs rule: chained.induct)
  case (3 B sid a b rs)
  let ?B = "B(GetObjectDigest (last (b # rs)) := Ok \<lparr>bs_SegmentId = sid, bs_NextBlock = r\<rparr>,
    GetObjectDigest r := Ok \<lparr>bs_SegmentId = sid, bs_NextBlock = None\<rparr>)"
  have "GetObjectDigest a \<notin> GetObjectDigest ` set (b # rs)" "GetObjectDigest a \<noteq> GetObjectDigest r"
    using 3(4) by auto
  moreover have "last (b # rs) \<in> set (b # rs)" by (rule last_in_set) simp
  ultimately have same: "?B (GetObjectDigest a) = B (GetObjectDigest a)" by (metis fun_upd_other image_eqI)
  have tl: "chained ?B sid ((b # rs) @ [r])" using 3 by (intro "3.IH") simp_all
  have l: "last (a # b # rs) = last (b # rs)" by simp
  show ?case unfolding l append_Cons chained.simps same
    using tl 3(2) unfolding append_Cons chained.simps by blast
qed auto

lemma list_of_cong:
  "(\<And>r. r \<in> set rs \<Longrightarrow> B' (GetObjectDigest r) = B (GetObjectDigest r)) \<Longrightarrow>
     list_of F C B' sid rs st = list_of F C B sid rs st"
  using chained_cong [of rs B' B sid] by (simp add: list_of_def)

lemma list_of_mem:
  "list_of F C B sid rs st \<Longrightarrow> r \<in> set rs \<Longrightarrow> \<exists>n. B (GetObjectDigest r) = Ok \<lparr>bs_SegmentId = sid, bs_NextBlock = n\<rparr>"
  unfolding list_of_def by (blast dest: chained_mem)

lemma lists_ofD:
  assumes "lists_of z F C V B S m A"
  obtains st where "S sid = Ok st" "m sid = None \<or> m sid = Some st"
    "case A sid of None \<Rightarrow> st = z sid | Some rs \<Rightarrow> list_of F C B sid rs st"
proof -
  from assms obtain st where "S sid = Ok st" "m sid = None \<or> m sid = Some st"
    "case A sid of None \<Rightarrow> st = z sid | Some rs \<Rightarrow> list_of F C B sid rs st \<and> joined F V A rs st"
    unfolding lists_of_def by blast
  then show thesis by (intro that [of st]) (simp_all split: option.splits)
qed

lemma lists_of_list:
  assumes "lists_of z F C V B S m A" "A sid = Some rs" "S sid = Ok st"
  shows "list_of F C B sid rs st" "joined F V A rs st"
proof -
  from assms(1) obtain st0 where "S sid = Ok st0"
    "case A sid of None \<Rightarrow> st0 = z sid | Some rs \<Rightarrow> list_of F C B sid rs st0 \<and> joined F V A rs st0"
    unfolding lists_of_def by blast
  with assms(2,3) show "list_of F C B sid rs st" "joined F V A rs st" by simp_all
qed

lemma lists_of_block:
  assumes "lists_of z F C V B S m A" "B d = Ok bs" "bs_SegmentId bs \<noteq> ''''"
  obtains rs st where "A (bs_SegmentId bs) = Some rs" "d \<in> GetObjectDigest ` set rs"
    "S (bs_SegmentId bs) = Ok st" "list_of F C B (bs_SegmentId bs) rs st"
proof -
  from assms obtain rs where rs: "A (bs_SegmentId bs) = Some rs" "d \<in> GetObjectDigest ` set rs"
    unfolding lists_of_def by (metis res.inject(1))
  moreover obtain st where "S (bs_SegmentId bs) = Ok st"
    "case A (bs_SegmentId bs) of None \<Rightarrow> st = z (bs_SegmentId bs) | Some rs \<Rightarrow> list_of F C B (bs_SegmentId bs) rs st"
    by (rule lists_ofD [OF assms(1)])
  ultimately show thesis using that by simp
qed

lemma lists_of_end:
  assumes "lists_of z F C V B S m A" "B d = Ok \<lparr>bs_SegmentId = sid, bs_NextBlock = None\<rparr>" "sid \<noteq> ''''"
  obtains rs st where "A sid = Some rs" "S sid = Ok st" "list_of F C B sid rs st" "d = GetObjectDigest (last rs)"
proof -
  obtain rs st where rs: "A sid = Some rs" "d \<in> GetObjectDigest ` set rs" "S sid = Ok st" "list_of F C B sid rs st"
    using lists_of_block [OF assms(1,2)] assms(3) by auto
  then obtain r where "r \<in> set rs" "d = GetObjectDigest r" by blast
  with rs assms(2) chained_end [of B sid rs r] that show thesis by (simp add: list_of_def)
qed

lemma lists_of_load:
  assumes "lists_of z F C V B S m A" "S sid = Ok st"
  shows "lists_of z F C V B S (m(sid \<mapsto> st)) A"
proof -
  have "\<exists>st0. S t = Ok st0 \<and> ((m(sid \<mapsto> st)) t = None \<or> (m(sid \<mapsto> st)) t = Some st0) \<and>
      (case A t of None \<Rightarrow> st0 = z t | Some rs \<Rightarrow> list_of F C B t rs st0 \<and> joined F V A rs st0)" for t
    using assms unfolding lists_of_def by (cases "t = sid") (auto dest: spec [of _ t])
  with assms(1) show ?thesis unfolding lists_of_def by blast
qed

text \<open>A segment's status and links change.\<close>

lemma lists_of_meta:
  assumes L: "lists_of z F C V B S m A" "A sid = Some rs" "S sid = Ok st"
    and st': "ss_Id st' = sid" "ss_TailBlock st' = ss_TailBlock st" "ss_HeadBlock st' = ss_HeadBlock st"
      "ss_Status st' \<noteq> INVALID \<Longrightarrow> ss_Status st \<noteq> INVALID"
      "ss_SegmentPrev st' = ss_SegmentPrev st \<or> joined F V A rs st'"
  shows "lists_of z F C V B (S(sid := Ok st')) (m(sid \<mapsto> st')) A"
proof -
  note l = lists_of_list [OF L]
  then have "list_of F C B sid rs st'" using st' by (auto simp: list_of_def)
  moreover have "joined F V A rs st'" using l(2) st'(5) by (auto simp: joined_def)
  ultimately show ?thesis using L(1,2) by (auto simp: lists_of_def)
qed

text \<open>A change of the blocks of one list, which leaves the blocks of all others alone.\<close>

lemma lists_of_change:
  assumes L: "lists_of z F C V B S m A"
    and blocks: "\<And>d. B' d \<noteq> B d \<Longrightarrow> B d = Ok zero_block \<or> (\<exists>n. B d = Ok \<lparr>bs_SegmentId = sid, bs_NextBlock = n\<rparr>)"
      "\<And>d. B' d \<noteq> B d \<Longrightarrow> d \<in> GetObjectDigest ` set rs' \<and> (\<exists>n. B' d = Ok \<lparr>bs_SegmentId = sid, bs_NextBlock = n\<rparr>)"
    and new: "list_of F C B' sid rs' st'"
    and old: "\<And>rs. A sid = Some rs \<Longrightarrow> set rs \<subseteq> set rs'"
    and joined: "joined F V (A(sid \<mapsto> rs')) rs' st'"
  shows "lists_of z F C V B' (S(sid := Ok st')) (m(sid \<mapsto> st')) (A(sid \<mapsto> rs'))"
proof -
  have "\<exists>st. (S(sid := Ok st')) t = Ok st \<and> ((m(sid \<mapsto> st')) t = None \<or> (m(sid \<mapsto> st')) t = Some st) \<and>
      (case (A(sid \<mapsto> rs')) t of None \<Rightarrow> st = z t
       | Some rs \<Rightarrow> list_of F C B' t rs st \<and> joined F V (A(sid \<mapsto> rs')) rs st)" for t
  proof (cases "t = sid")
    case False
    obtain st where st: "S t = Ok st" "m t = None \<or> m t = Some st"
      "case A t of None \<Rightarrow> st = z t | Some rs \<Rightarrow> list_of F C B t rs st"
      by (rule lists_ofD [OF L])
    have l': "list_of F C B' t rs st" if "A t = Some rs" for rs
    proof -
      from st(3) that have l: "list_of F C B t rs st" by simp
      have "B' (GetObjectDigest r) = B (GetObjectDigest r)" if "r \<in> set rs" for r
      proof (rule ccontr)
        assume "B' (GetObjectDigest r) \<noteq> B (GetObjectDigest r)"
        moreover from l have "t \<noteq> ''''" by (simp add: list_of_def)
        ultimately show False using blocks(1) list_of_mem [OF l that] False by fastforce
      qed
      then show ?thesis using l list_of_cong [of rs B' B] by blast
    qed
    have "joined F V (A(sid \<mapsto> rs')) rs st" if "A t = Some rs" for rs
      by (rule joined_mono [OF lists_of_list(2) [OF L that st(1)] refl refl old])
    then have "case (A(sid \<mapsto> rs')) t of None \<Rightarrow> st = z t
        | Some rs \<Rightarrow> list_of F C B' t rs st \<and> joined F V (A(sid \<mapsto> rs')) rs st"
      using st(3) False l' by (cases "A t") simp_all
    then show ?thesis using st(1,2) False by (intro exI [of _ st]) simp
  qed (use new joined in simp)
  moreover have "\<exists>bs. B' d = Ok bs \<and>
      (if bs_SegmentId bs = '''' then bs_NextBlock bs = None
       else \<exists>rs. (A(sid \<mapsto> rs')) (bs_SegmentId bs) = Some rs \<and> d \<in> GetObjectDigest ` set rs)" for d
  proof (cases "B' d = B d")
    case True
    from L obtain bs where bs: "B d = Ok bs" "if bs_SegmentId bs = '''' then bs_NextBlock bs = None
         else \<exists>rs. A (bs_SegmentId bs) = Some rs \<and> d \<in> GetObjectDigest ` set rs"
      unfolding lists_of_def by blast
    have "d \<in> GetObjectDigest ` set rs'" if "A sid = Some rs" "d \<in> GetObjectDigest ` set rs" for rs
      using that old by blast
    with bs(2) have "if bs_SegmentId bs = '''' then bs_NextBlock bs = None
        else \<exists>rs. (A(sid \<mapsto> rs')) (bs_SegmentId bs) = Some rs \<and> d \<in> GetObjectDigest ` set rs"
      by (metis fun_upd_apply)
    with bs(1) True show ?thesis by simp
  next
    case False
    from blocks(2) [OF this] obtain n where d: "d \<in> GetObjectDigest ` set rs'"
      "B' d = Ok \<lparr>bs_SegmentId = sid, bs_NextBlock = n\<rparr>" by blast
    from new have "sid \<noteq> ''''" by (simp add: list_of_def)
    with d show ?thesis by simp
  qed
  ultimately show ?thesis unfolding lists_of_def by blast
qed

text \<open>The three changes of a list: a new one, a block after its head, a block before its tail.\<close>

lemma lists_of_new:
  assumes L: "lists_of z F C V B S m A" and sid: "sid \<noteq> ''''" "A sid = None"
    and r: "r \<noteq> None" "B (GetObjectDigest r) = Ok zero_block"
    and st': "ss_Id st' = sid" "ss_TailBlock st' = r" "ss_HeadBlock st' = r" "ss_SegmentPrev st' = ''''"
  shows "lists_of z F C V (B(GetObjectDigest r := Ok \<lparr>bs_SegmentId = sid, bs_NextBlock = None\<rparr>))
    (S(sid := Ok st')) (m(sid \<mapsto> st')) (A(sid \<mapsto> [r]))"
  using r sid st'
  by (intro lists_of_change [OF L]) (auto simp: list_of_def joined_def split: if_splits)

lemma list_of_fresh:
  assumes "list_of F C B sid rs st" "B (GetObjectDigest r) = Ok zero_block"
  shows "GetObjectDigest r \<notin> GetObjectDigest ` set rs"
proof
  assume "GetObjectDigest r \<in> GetObjectDigest ` set rs"
  then obtain q where "q \<in> set rs" "GetObjectDigest r = GetObjectDigest q" by blast
  with list_of_mem [OF assms(1)] assms show False by (fastforce simp: list_of_def)
qed

lemma list_of_snoc:
  assumes l: "list_of F C B sid rs st"
    and r: "r \<noteq> None" "B (GetObjectDigest r) = Ok zero_block" "F (last rs) r"
    and st': "ss_Id st' = sid" "ss_TailBlock st' = ss_TailBlock st" "ss_HeadBlock st' = r"
      "ss_Status st' \<noteq> INVALID \<Longrightarrow> ss_Status st \<noteq> INVALID \<and> C (last rs) r"
  shows "list_of F C (B(GetObjectDigest (last rs) := Ok \<lparr>bs_SegmentId = sid, bs_NextBlock = r\<rparr>,
    GetObjectDigest r := Ok \<lparr>bs_SegmentId = sid, bs_NextBlock = None\<rparr>)) sid (rs @ [r]) st'"
proof -
  have "GetObjectDigest r \<notin> GetObjectDigest ` set rs" by (rule list_of_fresh [OF l r(2)])
  then have "distinct (map GetObjectDigest (rs @ [r]))" using l by (simp add: list_of_def)
  then show ?thesis
    using l r st' chained_snoc [of B sid rs r] by (auto simp: list_of_def successively_append_iff)
qed

lemma lists_of_snoc:
  assumes L: "lists_of z F C V B S m A" "A sid = Some rs" "S sid = Ok st"
    and r: "r \<noteq> None" "B (GetObjectDigest r) = Ok zero_block" "F (last rs) r"
    and st': "ss_Id st' = sid" "ss_TailBlock st' = ss_TailBlock st" "ss_HeadBlock st' = r"
      "ss_Status st' \<noteq> INVALID \<Longrightarrow> ss_Status st \<noteq> INVALID \<and> C (last rs) r" "ss_SegmentPrev st' = ss_SegmentPrev st"
  shows "lists_of z F C V (B(GetObjectDigest (last rs) := Ok \<lparr>bs_SegmentId = sid, bs_NextBlock = r\<rparr>,
      GetObjectDigest r := Ok \<lparr>bs_SegmentId = sid, bs_NextBlock = None\<rparr>))
    (S(sid := Ok st')) (m(sid \<mapsto> st')) (A(sid \<mapsto> rs @ [r]))"
proof -
  note l = lists_of_list [OF L]
  then have ne: "rs \<noteq> []" and ch: "chained B sid rs" by (simp_all add: list_of_def)
  have "joined F V (A(sid \<mapsto> rs @ [r])) (rs @ [r]) st'"
    by (rule joined_mono [OF l(2) st'(5)]) (use L(2) ne in auto)
  with l(1) show ?thesis
    by (intro lists_of_change [OF L(1) _ _ list_of_snoc [OF l(1) r st'(1-4)]])
       (use L(2) ne chained_last [OF ch ne] r(2) in \<open>auto split: if_splits\<close>)
qed

lemma list_of_cons:
  assumes l: "list_of F C B sid rs st"
    and r: "r \<noteq> None" "B (GetObjectDigest r) = Ok zero_block" "F r (hd rs)"
    and st': "ss_Id st' = sid" "ss_TailBlock st' = r" "ss_HeadBlock st' = ss_HeadBlock st"
      "ss_Status st' \<noteq> INVALID \<Longrightarrow> ss_Status st \<noteq> INVALID \<and> C r (hd rs)"
  shows "list_of F C (B(GetObjectDigest r := Ok \<lparr>bs_SegmentId = sid, bs_NextBlock = hd rs\<rparr>)) sid (r # rs) st'"
proof -
  let ?B = "B(GetObjectDigest r := Ok \<lparr>bs_SegmentId = sid, bs_NextBlock = hd rs\<rparr>)"
  have fresh: "GetObjectDigest r \<notin> GetObjectDigest ` set rs" by (rule list_of_fresh [OF l r(2)])
  then have "chained ?B sid rs = chained B sid rs" by (intro chained_cong) (metis fun_upd_other image_eqI)
  then show ?thesis
    using l r st' fresh by (cases rs) (auto simp: list_of_def)
qed

lemma lists_of_cons:
  assumes L: "lists_of z F C V B S m A" "A sid = Some rs" "S sid = Ok st"
    and r: "r \<noteq> None" "B (GetObjectDigest r) = Ok zero_block" "F r (hd rs)"
    and st': "ss_Id st' = sid" "ss_TailBlock st' = r" "ss_HeadBlock st' = ss_HeadBlock st"
      "ss_Status st' \<noteq> INVALID \<Longrightarrow> ss_Status st \<noteq> INVALID \<and> C r (hd rs)" "ss_SegmentPrev st' = ''''"
  shows "lists_of z F C V (B(GetObjectDigest r := Ok \<lparr>bs_SegmentId = sid, bs_NextBlock = hd rs\<rparr>))
    (S(sid := Ok st')) (m(sid \<mapsto> st')) (A(sid \<mapsto> r # rs))"
  by (rule lists_of_change [OF L(1) _ _ list_of_cons [OF lists_of_list(1) [OF L] r st'(1-4)]])
     (use L(2) r(2) st'(5) in \<open>auto simp: joined_def split: if_splits\<close>)

section \<open>The lists of a chain\<close>

text \<open>The object behind a reference, without its local state.\<close>

definition follow_blk :: "('e, 'x) externals_scheme \<Rightarrow> chain \<Rightarrow> 'e \<Rightarrow> sref \<Rightarrow> inca_block res" where
  "follow_blk X c e r = rbind (GetBlockEncryptionConfigWithDigest (c_encStrat c) (GetObjectDigest r)) (\<lambda>conf.
     res_of (follow_block X e r (Some conf) (GetObjectDigest r)))"

definition follow_hdr :: "('e, 'x) externals_scheme \<Rightarrow> chain \<Rightarrow> 'e \<Rightarrow> sref \<Rightarrow> block_header res" where
  "follow_hdr X c e r = rbind (GetBlockEncryptionConfigWithDigest (c_encStrat c) (GetObjectDigest r)) (\<lambda>conf.
     res_of (follow_header X e r (Some conf) (GetObjectDigest r)))"

definition blk_of :: "('e, 'x) externals_scheme \<Rightarrow> chain \<Rightarrow> 'e \<Rightarrow> sref \<Rightarrow> block res" where
  "blk_of X c e r = rbind (follow_blk X c e r) (\<lambda>blk. rbind (follow_hdr X c e (blk_BlockHeaderRef blk)) (\<lambda>hdr.
     Ok \<lparr>b_State = zero_block, b_dbm = GetBlockDbm c, b_blk = blk, b_header = hdr, b_encStrat = c_encStrat c,
       b_blkRef = r, b_id = b64_encode (GetObjectDigest r), b_dbKey = ''/'' @ b64_encode (GetObjectDigest r)\<rparr>))"

lemma FollowBlockRef_view: "FollowBlockRef X r (c_encStrat c) w = (follow_blk X c (ext w) r, w)"
  by (auto simp: FollowBlockRef_def follow_blk_def gbind_def rbind_def split: res.splits)

lemma FollowBlockHeaderRef_view: "FollowBlockHeaderRef X r (c_encStrat c) w = (follow_hdr X c (ext w) r, w)"
  by (auto simp: FollowBlockHeaderRef_def follow_hdr_def gbind_def rbind_def split: res.splits)

lemma GetBlock_view:
  "GetBlock X (c_encStrat c) (GetBlockDbm c) r w =
     (rbind (blk_of X c (ext w) r) (\<lambda>b. rbind (block_view X c (ext w) (GetObjectDigest r)) (\<lambda>st. Ok (b\<lparr>b_State := st\<rparr>))), w)"
  by (auto simp: GetBlock_def blk_of_def FollowBlockRef_view FollowBlockHeaderRef_view Block_ReadState_def GetDbKey_def
      read_slot_view block_view_def Let_def gbind_def rbind_def split: res.splits)

lemma GetBlock_view_Ok:
  "GetBlock X (c_encStrat c) (GetBlockDbm c) r w = (Ok b, w') \<longleftrightarrow> w' = w \<and>
     (\<exists>b0 st. blk_of X c (ext w) r = Ok b0 \<and> block_view X c (ext w) (GetObjectDigest r) = Ok st \<and> b = b0\<lparr>b_State := st\<rparr>)"
  by (auto simp: GetBlock_view rbind_def split: res.splits)

lemma blk_of_None [simp]: "blk_of X c e None = Panic"
  by (simp add: blk_of_def follow_blk_def GetBlockEncryptionConfigWithDigest_def GetEncryptionConfigWithDigest_def
      nonce_of_digest_def)

lemma blk_of_fields:
  assumes "blk_of X c e r = Ok b"
  shows "b_State b = zero_block" "b_dbm b = GetBlockDbm c" "b_blkRef b = r"
    "b_dbKey b = ''/'' @ b64_encode (GetObjectDigest r)" "r \<noteq> None"
proof -
  from assms obtain blk hdr where "follow_blk X c e r = Ok blk" "follow_hdr X c e (blk_BlockHeaderRef blk) = Ok hdr"
    by (auto simp: blk_of_def rbind_def split: res.splits)
  with assms show "b_State b = zero_block" "b_dbm b = GetBlockDbm c" "b_blkRef b = r"
    "b_dbKey b = ''/'' @ b64_encode (GetObjectDigest r)" by (auto simp: blk_of_def)
  from assms show "r \<noteq> None" by (cases r) auto
qed

text \<open>\<open>follows\<close>: the block behind \<open>r\<close> names \<open>p\<close> as its last block. \<open>obeys\<close>: it also satisfies the child rule.\<close>

definition follows :: "('e, 'x) externals_scheme \<Rightarrow> chain \<Rightarrow> 'e \<Rightarrow> sref \<Rightarrow> sref \<Rightarrow> bool" where
  "follows X c e p r \<longleftrightarrow> (\<exists>rb pb. blk_of X c e r = Ok rb \<and> blk_of X c e (hdr_LastBlockRef (b_header rb)) = Ok pb \<and>
     GetObjectDigest (hdr_LastBlockRef (b_header rb)) = GetObjectDigest p)"

definition obeys :: "('e, 'x) externals_scheme \<Rightarrow> chain \<Rightarrow> 'e \<Rightarrow> sref \<Rightarrow> sref \<Rightarrow> bool" where
  "obeys X c e p r \<longleftrightarrow> (\<exists>rb pb. blk_of X c e r = Ok rb \<and> blk_of X c e (hdr_LastBlockRef (b_header rb)) = Ok pb \<and>
     GetObjectDigest (hdr_LastBlockRef (b_header rb)) = GetObjectDigest p \<and> valid_child X e pb rb)"

text \<open>\<open>accepts\<close>: the block behind \<open>r\<close> satisfies the child rule after the block behind \<open>p\<close>, whether it names it or not.\<close>

definition accepts :: "('e, 'x) externals_scheme \<Rightarrow> chain \<Rightarrow> 'e \<Rightarrow> sref \<Rightarrow> sref \<Rightarrow> bool" where
  "accepts X c e p r \<longleftrightarrow> (\<exists>pb rb. blk_of X c e p = Ok pb \<and> blk_of X c e r = Ok rb \<and> valid_child X e pb rb)"

definition seg_lists ::
  "('e, 'x) externals_scheme \<Rightarrow> chain \<Rightarrow> 'e \<Rightarrow> (string \<rightharpoonup> segment_state) \<Rightarrow> (string \<rightharpoonup> sref list) \<Rightarrow> bool" where
  "seg_lists X c e m A \<longleftrightarrow> lists_of (\<lambda>sid. (zero_segment X)\<lparr>ss_Id := sid\<rparr>) (follows X c e) (obeys X c e)
     (accepts X c e) (block_view X c e) (seg_view X c e) m A"

lemma valid_child_state [simp]:
  "valid_child X e (p\<lparr>b_State := s\<rparr>) b = valid_child X e p b" "valid_child X e p (b\<lparr>b_State := s\<rparr>) = valid_child X e p b"
  by (simp_all add: valid_child_def expected_proposer_def block_time_def block_height_def)

lemma same_objs_views:
  assumes "same_objs X e e'"
  shows "blk_of X c e' = blk_of X c e" "valid_child X e' = valid_child X e"
    "follows X c e' = follows X c e" "obeys X c e' = obeys X c e" "accepts X c e' = accepts X c e"
proof -
  note same = assms [unfolded same_objs_def]
  show b: "blk_of X c e' = blk_of X c e"
    by (simp add: fun_eq_iff blk_of_def follow_blk_def follow_hdr_def same)
  have "chain_config_of X e' = chain_config_of X e" "validator_set_of X e' = validator_set_of X e"
    by (simp_all add: fun_eq_iff chain_config_of_def validator_set_of_def same split: res.split)
  then show v: "valid_child X e' = valid_child X e"
    by (simp add: fun_eq_iff valid_child_def expected_proposer_def)
  show "follows X c e' = follows X c e" "obeys X c e' = obeys X c e" "accepts X c e' = accepts X c e"
    by (simp_all add: fun_eq_iff follows_def obeys_def accepts_def b v)
qed

lemma seg_lists_frame:
  assumes "same_objs X e e'" "block_view X c e' = block_view X c e" "seg_view X c e' = seg_view X c e"
  shows "seg_lists X c e' m A = seg_lists X c e m A"
  using assms by (simp add: seg_lists_def same_objs_views)

end
