(* ===== verification/SegSteps.thy ===== *)
theory SegSteps
  imports SegLists
begin

text \<open>
  The operations of the chain on the lists of \<open>SegLists\<close>: state checks, subscriptions and the chain's own
  writes leave them alone, a commit appends a block or starts a list, a rewind prepends a block, joining
  segments and giving a verdict leaves the blocks where they are. The steps of a process that is alive
  (\<open>live_step\<close>) refine the steps on lists (\<open>list_step\<close>).
\<close>

section \<open>Operations that leave the lists alone\<close>

abbreviation lists_in ::
  "('e, 'x) externals_scheme \<Rightarrow> chain \<Rightarrow> (string \<rightharpoonup> sref list) \<Rightarrow> ('e, 'z) chain_world_scheme \<Rightarrow> bool" where
  "lists_in X c A w \<equiv> seg_lists X c (ext w) (segmentMap w) A"

lemma chain_path: "concat (c_dbm c) @ Chain_dbKey c \<noteq> concat (GetBlockDbm c) @ ''/'' @ k"
  "concat (c_dbm c) @ Chain_dbKey c \<noteq> concat (segStoreDbm c) @ ''/'' @ k"
  by (simp_all add: GetBlockDbm_def segStoreDbm_def WithPrefix_def Chain_dbKey_def)

lemma chain_set_view:
  assumes X: "store_ok X" and set: "db_set X e (c_dbm c) (Chain_dbKey c) bs = (Inr (), e')"
  shows "same_objs X e e'" "block_view X c e' = block_view X c e" "seg_view X c e' = seg_view X c e"
proof -
  note ok = X [unfolded store_ok_def]
  show "same_objs X e e'" using objects_okD [OF _ set] ok by (simp add: same_objs_def)
  show "block_view X c e' = block_view X c e" "seg_view X c e' = seg_view X c e"
    using ok chain_path [of c] chain_path [of c, THEN not_sym]
    by (simp_all add: fun_eq_iff block_view_set [OF _ set] seg_view_set [OF _ set])
qed

lemma writeState_keeps_lists:
  assumes X: "store_ok X" "writes_ok X"
  shows "keeps (lists_in X c A) (Chain_writeState X c)"
proof -
  have "seg_lists X c e' m A"
    if L: "seg_lists X c e m A" and set: "db_set X e (c_dbm c) (Chain_dbKey c) bs = (r, e')" for e e' r bs m
  proof -
    from X(2) set have "db_set X e (c_dbm c) (Chain_dbKey c) bs = (Inr (), e')"
      unfolding writes_ok_def by (metis prod.inject)
    from seg_lists_frame [OF chain_set_view [OF X(1) this]] L show ?thesis by simp
  qed
  then have wr: "keeps (lists_in X c A) (write_slot X (pb_chain_state X) (c_dbm c) (Chain_dbKey c) st)" for st
    unfolding write_slot_def
    by (intro keeps_gbind keeps_gres keepsI) (auto split: prod.splits)
  then show ?thesis
    unfolding Chain_writeState_def triggerStateRecheck_def
    by (intro keeps_gbind keeps_gasks keeps_gtry wr keeps_gmodify keeps_gres) simp
qed

lemma setHeadBlock_keeps_lists:
  "store_ok X \<Longrightarrow> writes_ok X \<Longrightarrow> keeps (lists_in X c A) (setHeadBlock X c b)"
  unfolding setHeadBlock_def by (intro keeps_intros writeState_keeps_lists) simp_all

lemma emit_keeps_lists: "keeps (lists_in X c A) (emitNextChainState snap)"
  by (rule keepsI) (simp add: emitNextChainState_apply Let_def)

lemma compute_keeps_lists: "keeps (lists_in X c A) (computeEmitSnapshot X c t t2)"
  unfolding computeEmitSnapshot_def computeRound_def emitRound_def Let_def
  by (intro keeps_intros emit_keeps_lists) simp_all

lemma GetSegmentById_run:
  assumes "lists_in X c A w"
  obtains st where "seg_view X c (ext w) sid = Ok st" "segmentMap w sid = None \<or> segmentMap w sid = Some st"
    "GetSegmentById X (segStoreDbm c) sid w = (Ok sid, w\<lparr>segmentMap := (segmentMap w)(sid \<mapsto> st)\<rparr>)"
    "lists_in X c A (w\<lparr>segmentMap := (segmentMap w)(sid \<mapsto> st)\<rparr>)"
proof -
  obtain st where st: "seg_view X c (ext w) sid = Ok st" "segmentMap w sid = None \<or> segmentMap w sid = Some st"
    by (rule lists_ofD [OF assms [unfolded seg_lists_def]])
  have "Segment_readState X (segStoreDbm c) ((zero_segment X)\<lparr>ss_Id := sid\<rparr>) w = (Ok st, w)"
    using st(1) by (simp add: Segment_readState_view)
  then have "GetSegmentById X (segStoreDbm c) sid w = (Ok sid, w\<lparr>segmentMap := (segmentMap w)(sid \<mapsto> st)\<rparr>)"
    using st(2) by (cases "segmentMap w sid") (auto simp: GetSegmentById_def gbind_def fun_upd_idem)
  moreover have "lists_in X c A (w\<lparr>segmentMap := (segmentMap w)(sid \<mapsto> st)\<rparr>)"
    using assms st(1) by (simp add: seg_lists_def lists_of_load)
  ultimately show thesis using that st by blast
qed

lemma GetSegmentById_keeps_lists: "keeps (lists_in X c A) (GetSegmentById X (segStoreDbm c) sid)"
proof (rule keepsI)
  fix w assume "lists_in X c A w"
  then show "lists_in X c A (snd (GetSegmentById X (segStoreDbm c) sid w))"
    by (rule GetSegmentById_run [where sid = sid]) simp
qed

lemma manageStateOnce_keeps_lists:
  "store_ok X \<Longrightarrow> writes_ok X \<Longrightarrow> keeps (lists_in X c A) (manageStateOnce X c t t2)"
  unfolding manageStateOnce_def stateSegment_def adoptHead_def Let_def
  by (intro keeps_intros GetSegmentById_keeps_lists writeState_keeps_lists setHeadBlock_keeps_lists
      compute_keeps_lists) simp_all

section \<open>Operations on the lists\<close>

definition new_block :: "(string \<rightharpoonup> sref list) \<Rightarrow> sref \<Rightarrow> bool" where
  "new_block A r \<longleftrightarrow> (\<forall>sid rs. A sid = Some rs \<longrightarrow> GetObjectDigest r \<notin> GetObjectDigest ` set rs)"

lemma seg_lists_new_block:
  assumes L: "seg_lists X c e m A" and r: "block_view X c e (GetObjectDigest r) = Ok zero_block"
  shows "new_block A r"
  unfolding new_block_def
proof (intro allI impI)
  fix sid rs assume A: "A sid = Some rs"
  obtain st where "case A sid of None \<Rightarrow> st = (zero_segment X)\<lparr>ss_Id := sid\<rparr>
      | Some rs \<Rightarrow> list_of (follows X c e) (obeys X c e) (block_view X c e) sid rs st"
    by (rule lists_ofD [OF L [unfolded seg_lists_def]])
  with A have l: "list_of (follows X c e) (obeys X c e) (block_view X c e) sid rs st" by simp
  show "GetObjectDigest r \<notin> GetObjectDigest ` set rs" using l r by (rule list_of_fresh)
qed

lemma seg_lists_free_block:
  assumes L: "seg_lists X c e m A" and st: "block_view X c e d = Ok st" "bs_SegmentId st = ''''"
  shows "st = zero_block"
proof -
  from L obtain bs where "block_view X c e d = Ok bs" "if bs_SegmentId bs = '''' then bs_NextBlock bs = None
      else \<exists>rs. A (bs_SegmentId bs) = Some rs \<and> d \<in> GetObjectDigest ` set rs"
    unfolding seg_lists_def lists_of_def by blast
  with st show ?thesis by simp
qed

lemma append_not_invalid: "append_status ok s \<noteq> INVALID \<Longrightarrow> s \<noteq> INVALID"
  by (auto simp: append_status_def split: if_splits)

lemma ext_upd: "w\<lparr>ext := e, segmentMap := m\<rparr> = (w\<lparr>segmentMap := m, ext := e\<rparr> :: ('e, 'z) seg_world_scheme)"
  by (cases w) simp

lemma AppendBlock_writes:
  assumes X: "store_ok X" "writes_ok X" and un: "bs_NextBlock (b_State p) = None" "ss_SegmentNext (seg_state X sid w) = ''''"
    and b: "b_dbm b = GetBlockDbm c" "b_dbKey b = ''/'' @ b64_encode d"
    and p: "b_dbm p = GetBlockDbm c" "b_dbKey p = ''/'' @ b64_encode dp"
    and val: "ValidateChild X p b v w = (Ok ok, w)"
    and st': "st' = (seg_state X sid w)\<lparr>ss_HeadBlock := r, ss_Status := append_status ok (ss_Status (seg_state X sid w))\<rparr>"
  obtains e' where
    "AppendBlock X (segStoreDbm c) sid r b p v (c_encStrat c) w =
       (Ok (), w\<lparr>segmentMap := (segmentMap w)(sid \<mapsto> st'), ext := e'\<rparr>)" "same_objs X (ext w) e'"
    "block_view X c e' = (block_view X c (ext w))(dp := Ok ((b_State p)\<lparr>bs_NextBlock := r\<rparr>),
       d := Ok ((b_State b)\<lparr>bs_SegmentId := bs_SegmentId (b_State p)\<rparr>))"
    "seg_view X c e' = (seg_view X c (ext w))(ss_Id st' := Ok st')"
proof -
  obtain e1 where e1: "Block_WriteState X (p\<lparr>b_State := (b_State p)\<lparr>bs_NextBlock := r\<rparr>\<rparr>) w = (Ok (), w\<lparr>ext := e1\<rparr>)"
    "same_objs X (ext w) e1" "block_view X c e1 = (block_view X c (ext w))(dp := Ok ((b_State p)\<lparr>bs_NextBlock := r\<rparr>))"
    "seg_view X c e1 = seg_view X c (ext w)"
    by (rule Block_write_view [OF X, of "p\<lparr>b_State := (b_State p)\<lparr>bs_NextBlock := r\<rparr>\<rparr>" c dp w]) (simp_all add: p)
  obtain e2 where e2: "Block_WriteState X (b\<lparr>b_State := (b_State b)\<lparr>bs_SegmentId := bs_SegmentId (b_State p)\<rparr>\<rparr>)
      (w\<lparr>ext := e1\<rparr>) = (Ok (), w\<lparr>ext := e2\<rparr>)" "same_objs X e1 e2"
    "block_view X c e2 = (block_view X c e1)(d := Ok ((b_State b)\<lparr>bs_SegmentId := bs_SegmentId (b_State p)\<rparr>))"
    "seg_view X c e2 = seg_view X c e1"
    by (rule Block_write_view [OF X, of "b\<lparr>b_State := (b_State b)\<lparr>bs_SegmentId := bs_SegmentId (b_State p)\<rparr>\<rparr>" c d
        "w\<lparr>ext := e1\<rparr>"]) (simp_all add: b)
  let ?w = "w\<lparr>segmentMap := (segmentMap w)(sid \<mapsto> st'), ext := e2\<rparr>"
  obtain e3 where e3: "Segment_writeState X (segStoreDbm c) sid ?w = (Ok (), w\<lparr>segmentMap := (segmentMap w)(sid \<mapsto> st'), ext := e3\<rparr>)"
    "same_objs X e2 e3" "block_view X c e3 = block_view X c e2" "seg_view X c e3 = (seg_view X c e2)(ss_Id st' := Ok st')"
    by (rule Segment_write_view [OF X, of c sid ?w]) (simp add: seg_state_def)
  have s: "seg_state X sid (w\<lparr>ext := e\<rparr>) = seg_state X sid w" for e by (simp add: seg_state_def)
  have run: "AppendBlock X (segStoreDbm c) sid r b p v (c_encStrat c) w =
      (Ok (), w\<lparr>segmentMap := (segmentMap w)(sid \<mapsto> st'), ext := e3\<rparr>)"
    using un val e1(1) e2(1) e3(1) s st'
    unfolding AppendBlock_def append_status_record unfolding Let_def by (simp add: gbind_def ext_upd)
  show thesis
    using that [OF run] same_objs_trans [OF same_objs_trans [OF e1(2) e2(2)] e3(2)] e1 e2 e3 by simp
qed

lemma AppendBlock_lists:
  fixes w w' :: "('e, 'z) chain_world_scheme"
  assumes X: "store_ok X" "writes_ok X" and L: "lists_in X c A w" and mem: "segmentMap w sid \<noteq> None"
    and b: "blk_of X c (ext w) r = Ok b" "block_view X c (ext w) (GetObjectDigest r) = Ok zero_block"
    and p: "blk_of X c (ext w) (hdr_LastBlockRef (b_header b)) = Ok p"
      "block_view X c (ext w) (GetObjectDigest (hdr_LastBlockRef (b_header b))) = Ok ps" "bs_SegmentId ps = sid" "sid \<noteq> ''''"
    and run: "AppendBlock X (segStoreDbm c) sid r b (p\<lparr>b_State := ps\<rparr>) v (c_encStrat c) w = (res, w')"
  shows "w' = w \<or> (\<exists>rs. A sid = Some rs \<and> new_block A r \<and> lists_in X c (A(sid \<mapsto> rs @ [r])) w')"
proof (cases "bs_NextBlock ps")
  case (Some q)
  with run show ?thesis
    by (auto simp: AppendBlock_def gbind_def FollowBlockRef_view split: res.splits if_splits)
next
  case None
  with p(2,3) have pv: "block_view X c (ext w) (GetObjectDigest (hdr_LastBlockRef (b_header b))) =
      Ok \<lparr>bs_SegmentId = sid, bs_NextBlock = None\<rparr>" by (cases ps) simp
  obtain rs st where rs: "A sid = Some rs" "seg_view X c (ext w) sid = Ok st"
    "list_of (follows X c (ext w)) (obeys X c (ext w)) (block_view X c (ext w)) sid rs st"
    "GetObjectDigest (hdr_LastBlockRef (b_header b)) = GetObjectDigest (last rs)"
    by (rule lists_of_end [OF L [unfolded seg_lists_def] pv p(4)])
  obtain st1 where "seg_view X c (ext w) sid = Ok st1" "segmentMap w sid = None \<or> segmentMap w sid = Some st1"
    by (rule lists_ofD [OF L [unfolded seg_lists_def]])
  with rs(2) mem have st: "seg_state X sid w = st" by (auto simp: seg_state_def)
  show ?thesis
  proof (cases "ss_SegmentNext st = ''''")
    case True
    obtain rv wv where val: "ValidateChild X (p\<lparr>b_State := ps\<rparr>) b v w = (rv, wv)" by force
    then have wv: "wv = w" by (rule ValidateChild_state)
    show ?thesis
    proof (cases "\<exists>ok. rv = Ok ok")
      case False
      with run None True st val wv show ?thesis by (cases rv) (auto simp: AppendBlock_def gbind_def)
    next
      case ok: True
      then obtain ok where val: "ValidateChild X (p\<lparr>b_State := ps\<rparr>) b v w = (Ok ok, w)" using val wv by blast
      then have vc: "valid_child X (ext w) p b" by (simp add: validate_child_rule)
      let ?st' = "st\<lparr>ss_HeadBlock := r, ss_Status := append_status ok (ss_Status st)\<rparr>"
      note bf = blk_of_fields [OF b(1)] and pf = blk_of_fields [OF p(1)]
      have id: "ss_Id st = sid" using rs(3) by (simp add: list_of_def)
      obtain e' where e': "AppendBlock X (segStoreDbm c) sid r b (p\<lparr>b_State := ps\<rparr>) v (c_encStrat c) w =
           (Ok (), w\<lparr>segmentMap := (segmentMap w)(sid \<mapsto> ?st'), ext := e'\<rparr>)" "same_objs X (ext w) e'"
        "block_view X c e' = (block_view X c (ext w))(GetObjectDigest (last rs) := Ok \<lparr>bs_SegmentId = sid, bs_NextBlock = r\<rparr>,
           GetObjectDigest r := Ok \<lparr>bs_SegmentId = sid, bs_NextBlock = None\<rparr>)"
        "seg_view X c e' = (seg_view X c (ext w))(sid := Ok ?st')"
        by (rule AppendBlock_writes [OF X _ _ bf(2,4) _ _ val, where sid = sid and st' = ?st' and r = r and
              dp = "GetObjectDigest (hdr_LastBlockRef (b_header b))"])
          (use None True st bf pf id p(3) rs(4) in \<open>cases ps; simp\<close>)+
      have f: "follows X c (ext w) (last rs) r" "obeys X c (ext w) (last rs) r"
        using b(1) p(1) rs(4) vc by (auto simp: follows_def obeys_def)
      have "lists_of (\<lambda>sid. (zero_segment X)\<lparr>ss_Id := sid\<rparr>) (follows X c (ext w)) (obeys X c (ext w)) (accepts X c (ext w))
          (block_view X c e') (seg_view X c e') ((segmentMap w)(sid \<mapsto> ?st')) (A(sid \<mapsto> rs @ [r]))"
        unfolding e'(3,4)
        by (rule lists_of_snoc [OF L [unfolded seg_lists_def] rs(1,2) bf(5) b(2) f(1)])
           (use id f(2) in \<open>auto dest: append_not_invalid\<close>)
      moreover have "w' = w\<lparr>segmentMap := (segmentMap w)(sid \<mapsto> ?st'), ext := e'\<rparr>" using run e'(1) by simp
      ultimately have "lists_in X c (A(sid \<mapsto> rs @ [r])) w'"
        by (simp add: seg_lists_def same_objs_views [OF e'(2)])
      then show ?thesis using rs(1) seg_lists_new_block [OF L b(2)] by blast
    qed
  qed (use run None st in \<open>simp add: AppendBlock_def gbind_def\<close>)
qed

text \<open>An identifier that names nothing, neither in memory nor in the database.\<close>

definition unused_id :: "('e, 'x) externals_scheme \<Rightarrow> chain \<Rightarrow> string \<Rightarrow> ('e, 'z) seg_world_scheme \<Rightarrow> bool" where
  "unused_id X c uid w \<longleftrightarrow> uid \<noteq> '''' \<and> segmentMap w uid = None \<and>
     seg_view X c (ext w) uid = Ok ((zero_segment X)\<lparr>ss_Id := uid\<rparr>)"

definition first_state :: "('e, 'x) externals_scheme \<Rightarrow> string \<Rightarrow> block \<Rightarrow> sref \<Rightarrow> segment_state" where
  "first_state X uid b r = (zero_segment X)\<lparr>ss_Id := uid, ss_HeadBlock := r, ss_Status := DISJOINTED,
     ss_TailBlock := r, ss_TailBlockRound := hdr_RoundInfo (b_header b)\<rparr>"

lemma zero_segment_prev [simp]: "ss_SegmentPrev (zero_segment X) = ''''"
  by (simp add: zero_segment_def)

lemma NewSegment_written:
  assumes X: "store_ok X" and mem: "segmentMap w uid = None"
    and b: "b_dbm b = GetBlockDbm c" "b_dbKey b = ''/'' @ b64_encode d"
    and run: "NewSegment X (segStoreDbm c) uid b r w = (Ok x, w')"
  obtains e' where "x = (uid, b\<lparr>b_State := (b_State b)\<lparr>bs_SegmentId := uid\<rparr>\<rparr>)" "same_objs X (ext w) e'"
    "w' = (let w1 = w\<lparr>segmentMap := (segmentMap w)(uid \<mapsto> first_state X uid b r), ext := e'\<rparr> in
       w1\<lparr>segmentQueue := SegmentQueue_Push (tail_height X w1) uid (segmentQueue w)\<rparr>)"
    "block_view X c e' = (block_view X c (ext w))(d := Ok ((b_State b)\<lparr>bs_SegmentId := uid\<rparr>))"
    "seg_view X c e' = (seg_view X c (ext w))(uid := Ok (first_state X uid b r))"
proof -
  let ?st = "first_state X uid b r" and ?b = "b\<lparr>b_State := (b_State b)\<lparr>bs_SegmentId := uid\<rparr>\<rparr>"
  from run obtain w1 w2 where
    w1: "write_slot X (pb_segment_state X) (segStoreDbm c) (Segment_dbKey ?st) ?st w = (Ok (), w1)"
    and w2: "Block_WriteState X ?b w1 = (Ok (), w2)"
    by (auto simp: NewSegment_def Let_def gbind_Ok_iff first_state_def)
  have id: "ss_Id ?st = uid" by (simp add: first_state_def)
  obtain e1 where e1: "w1 = w\<lparr>ext := e1\<rparr>" "same_objs X (ext w) e1" "block_view X c e1 = block_view X c (ext w)"
    "seg_view X c e1 = (seg_view X c (ext w))(uid := Ok ?st)"
    by (rule segment_written_view [OF X w1]) (simp add: id)
  have bb: "b_dbm ?b = GetBlockDbm c" "b_dbKey ?b = ''/'' @ b64_encode d" using b by simp_all
  obtain e2 where e2: "w2 = w1\<lparr>ext := e2\<rparr>" "same_objs X (ext w1) e2"
    "block_view X c e2 = (block_view X c (ext w1))(d := Ok (b_State ?b))"
    "seg_view X c e2 = seg_view X c (ext w1)"
    by (rule Block_written_view [OF X bb w2])
  have "seg_view X c e2 uid = Ok ?st" using e1 e2 by simp
  then have "Segment_readState X (segStoreDbm c) ((zero_segment X)\<lparr>ss_Id := uid\<rparr>) w2 = (Ok ?st, w2)"
    using e1 e2 by (simp add: Segment_readState_view)
  then have g: "GetSegmentById X (segStoreDbm c) uid w2 = (Ok uid, w\<lparr>segmentMap := (segmentMap w)(uid \<mapsto> ?st), ext := e2\<rparr>)"
    using mem e1 e2 by (simp add: GetSegmentById_def gbind_def ext_upd)
  from run w1 w2 g have "x = (uid, ?b)"
    "w' = (let w1 = w\<lparr>segmentMap := (segmentMap w)(uid \<mapsto> ?st), ext := e2\<rparr> in
       w1\<lparr>segmentQueue := SegmentQueue_Push (tail_height X w1) uid (segmentQueue w)\<rparr>)"
    by (auto simp: NewSegment_def gbind_def queue_push_def seg_state_def Let_def first_state_def)
  moreover have "same_objs X (ext w) e2" by (rule same_objs_trans [OF e1(2)]) (use e1(1) e2(2) in simp)
  ultimately show thesis using that [of e2] e1 e2 by simp
qed

lemma NewSegment_writes:
  assumes X: "store_ok X" "writes_ok X" and mem: "segmentMap w uid = None"
    and b: "b_dbm b = GetBlockDbm c" "b_dbKey b = ''/'' @ b64_encode d"
  shows "\<exists>x w'. NewSegment X (segStoreDbm c) uid b r w = (Ok x, w')"
proof -
  let ?st = "first_state X uid b r" and ?b = "b\<lparr>b_State := (b_State b)\<lparr>bs_SegmentId := uid\<rparr>\<rparr>"
  have id: "ss_Id ?st = uid" by (simp add: first_state_def)
  obtain e1 where e1: "write_slot X (pb_segment_state X) (segStoreDbm c) (Segment_dbKey ?st) ?st w = (Ok (), w\<lparr>ext := e1\<rparr>)"
    "seg_view X c e1 = (seg_view X c (ext w))(uid := Ok ?st)"
    using segment_write_view [OF X, of c ?st w] id by metis
  have bb: "b_dbm ?b = GetBlockDbm c" "b_dbKey ?b = ''/'' @ b64_encode d" using b by simp_all
  obtain e2 where e2: "Block_WriteState X ?b (w\<lparr>ext := e1\<rparr>) = (Ok (), w\<lparr>ext := e2\<rparr>)" "seg_view X c e2 = seg_view X c e1"
    by (rule Block_write_view [OF X bb, of "w\<lparr>ext := e1\<rparr>"]) simp
  have "seg_view X c e2 uid = Ok ?st" using e1 e2 by simp
  then have "Segment_readState X (segStoreDbm c) ((zero_segment X)\<lparr>ss_Id := uid\<rparr>) (w\<lparr>ext := e2\<rparr>) = (Ok ?st, w\<lparr>ext := e2\<rparr>)"
    by (simp add: Segment_readState_view)
  then have "GetSegmentById X (segStoreDbm c) uid (w\<lparr>ext := e2\<rparr>) = (Ok uid, w\<lparr>segmentMap := (segmentMap w)(uid \<mapsto> ?st), ext := e2\<rparr>)"
    using mem by (simp add: GetSegmentById_def gbind_def ext_upd)
  then show ?thesis using e1(1) e2(1)
    by (simp add: NewSegment_def gbind_def queue_push_def seg_state_def Let_def first_state_def)
qed

lemma NewSegment_lists:
  fixes w w' :: "('e, 'z) chain_world_scheme"
  assumes X: "store_ok X" "writes_ok X" and L: "lists_in X c A w" and uid: "unused_id X c uid w"
    and b: "blk_of X c (ext w) r = Ok b" "block_view X c (ext w) (GetObjectDigest r) = Ok zero_block"
    and run: "NewSegment X (segStoreDbm c) uid b r w = (res, w')"
  shows "A uid = None \<and> new_block A r \<and> lists_in X c (A(uid \<mapsto> [r])) w'"
proof -
  note bf = blk_of_fields [OF b(1)] and un = uid [unfolded unused_id_def]
  obtain st where "seg_view X c (ext w) uid = Ok st" "case A uid of None \<Rightarrow> st = (zero_segment X)\<lparr>ss_Id := uid\<rparr>
      | Some rs \<Rightarrow> list_of (follows X c (ext w)) (obeys X c (ext w)) (block_view X c (ext w)) uid rs st"
    by (rule lists_ofD [OF L [unfolded seg_lists_def]])
  then have A: "A uid = None"
  proof (cases "A uid")
    case (Some rs)
    with \<open>case A uid of None \<Rightarrow> _ | Some rs \<Rightarrow> _ rs\<close> \<open>seg_view X c (ext w) uid = Ok st\<close> un
    have "rs \<noteq> []" "None \<notin> set rs" "hd rs = None" by (auto simp: list_of_def zero_segment_def)
    then show ?thesis by (metis hd_in_set)
  qed
  obtain x where new: "NewSegment X (segStoreDbm c) uid b r w = (Ok x, w')"
    using NewSegment_writes [OF X _ bf(2,4)] un run by (metis prod.inject)
  obtain e' where e': "same_objs X (ext w) e'"
    "w' = (let w1 = w\<lparr>segmentMap := (segmentMap w)(uid \<mapsto> first_state X uid b r), ext := e'\<rparr> in
       w1\<lparr>segmentQueue := SegmentQueue_Push (tail_height X w1) uid (segmentQueue w)\<rparr>)"
    "block_view X c e' = (block_view X c (ext w))(GetObjectDigest r := Ok ((b_State b)\<lparr>bs_SegmentId := uid\<rparr>))"
    "seg_view X c e' = (seg_view X c (ext w))(uid := Ok (first_state X uid b r))"
    by (rule NewSegment_written [OF X(1) _ bf(2,4) new]) (use un in simp_all)
  have "lists_of (\<lambda>sid. (zero_segment X)\<lparr>ss_Id := sid\<rparr>) (follows X c (ext w)) (obeys X c (ext w)) (accepts X c (ext w))
      (block_view X c e') (seg_view X c e') ((segmentMap w)(uid \<mapsto> first_state X uid b r)) (A(uid \<mapsto> [r]))"
    unfolding e'(3,4) bf(1)
    using lists_of_new [OF L [unfolded seg_lists_def] _ A bf(5) b(2), of "first_state X uid b r"] un
    by (simp add: first_state_def)
  moreover have "ext w' = e'" "segmentMap w' = (segmentMap w)(uid \<mapsto> first_state X uid b r)"
    using e'(2) by (simp_all add: Let_def)
  ultimately have "lists_in X c (A(uid \<mapsto> [r])) w'" by (simp add: seg_lists_def same_objs_views [OF e'(1)])
  with A seg_lists_new_block [OF L b(2)] show ?thesis by blast
qed

text \<open>A step on the lists: nothing, a new list, a block after the head of a list or before its tail.\<close>

inductive list_step :: "(string \<rightharpoonup> sref list) \<Rightarrow> (string \<rightharpoonup> sref list) \<Rightarrow> bool" where
  list_keep: "list_step A A"
| list_create: "A sid = None \<Longrightarrow> new_block A r \<Longrightarrow> list_step A (A(sid \<mapsto> [r]))"
| list_append: "A sid = Some rs \<Longrightarrow> new_block A r \<Longrightarrow> list_step A (A(sid \<mapsto> rs @ [r]))"
| list_prepend: "A sid = Some rs \<Longrightarrow> new_block A r \<Longrightarrow> list_step A (A(sid \<mapsto> r # rs))"

lemma HandleBlockCommit_lists:
  fixes w w' :: "('e, 'z) chain_world_scheme"
  assumes X: "store_ok X" "writes_ok X" and L: "lists_in X c A w" and uid: "unused_id X c uid w"
    and run: "HandleBlockCommit X c uid r w = (res, w')"
  shows "\<exists>A'. list_step A A' \<and> lists_in X c A' w'"
proof -
  let ?get = "\<lambda>r. GetBlock X (c_encStrat c) (GetBlockDbm c) r w"
  have same: "\<exists>A'. list_step A A' \<and> lists_in X c A' w'" if "w' = w" using that L list_keep by blast
  show ?thesis
  proof (cases "\<exists>b. ?get r = (Ok b, w)")
    case False
    obtain x where "?get r = (x, w)" using GetBlock_view by blast
    with False run have "w' = w" by (cases x) (auto simp: HandleBlockCommit_def gbind_def)
    then show ?thesis by (rule same)
  next
    case True
    then obtain b0 st where g: "?get r = (Ok (b0\<lparr>b_State := st\<rparr>), w)" and b: "blk_of X c (ext w) r = Ok b0"
      "block_view X c (ext w) (GetObjectDigest r) = Ok st" unfolding GetBlock_view_Ok by blast
    let ?pr = "hdr_LastBlockRef (b_header b0)"
    show ?thesis
    proof (cases "bs_SegmentId st = '''' \<and> (\<exists>p. ?get ?pr = (Ok p, w))")
      case False
      obtain x where "?get ?pr = (x, w)" using GetBlock_view by blast
      with False run g have "w' = w"
        by (cases x) (auto simp: HandleBlockCommit_def gbind_def split: if_splits)
      then show ?thesis by (rule same)
    next
      case True
      then have st: "st = zero_block" using seg_lists_free_block [OF L b(2)] by blast
      with g blk_of_fields(1) [OF b(1)] have g: "?get r = (Ok b0, w)" by (metis block.surjective block.update_convs(1))
      from True obtain p0 ps where h: "?get ?pr = (Ok (p0\<lparr>b_State := ps\<rparr>), w)" and p: "blk_of X c (ext w) ?pr = Ok p0"
        "block_view X c (ext w) (GetObjectDigest ?pr) = Ok ps" unfolding GetBlock_view_Ok by blast
      show ?thesis
      proof (cases "bs_SegmentId ps = ''''")
        case True
        obtain x w1 where new: "NewSegment X (segStoreDbm c) uid b0 r w = (x, w1)" by force
        then have "w' = w1" using run g h True st blk_of_fields(1) [OF b(1)]
          by (cases x) (auto simp: HandleBlockCommit_def gbind_def)
        with NewSegment_lists [OF X L uid b(1) _ new] b(2) st list_create show ?thesis by blast
      next
        case False
        obtain sst where s: "GetSegmentById X (segStoreDbm c) (bs_SegmentId ps) w =
            (Ok (bs_SegmentId ps), w\<lparr>segmentMap := (segmentMap w)(bs_SegmentId ps \<mapsto> sst)\<rparr>)"
          and L1: "lists_in X c A (w\<lparr>segmentMap := (segmentMap w)(bs_SegmentId ps \<mapsto> sst)\<rparr>)"
          by (rule GetSegmentById_run [OF L])
        let ?w1 = "w\<lparr>segmentMap := (segmentMap w)(bs_SegmentId ps \<mapsto> sst)\<rparr>"
        obtain x w2 where app: "AppendBlock X (segStoreDbm c) (bs_SegmentId ps) r b0 (p0\<lparr>b_State := ps\<rparr>)
            (c_blockValidator c) (c_encStrat c) ?w1 = (x, w2)" by force
        have "w2 = ?w1 \<or> (\<exists>rs. A (bs_SegmentId ps) = Some rs \<and> new_block A r \<and>
            lists_in X c (A(bs_SegmentId ps \<mapsto> rs @ [r])) w2)"
          by (rule AppendBlock_lists [OF X L1 _ _ _ _ _ refl False app]) (use b p st in simp_all)
        then have "\<exists>A'. list_step A A' \<and> lists_in X c A' w2" using L1 list_keep list_append by blast
        moreover have "ext w' = ext w2 \<and> segmentMap w' = segmentMap w2" using run g h s app False st blk_of_fields(1) [OF b(1)]
          by (cases x) (auto simp: HandleBlockCommit_def gbind_def triggerStateRecheck_def)
        ultimately show ?thesis by metis
      qed
    qed
  qed
qed

section \<open>Rewinding\<close>

lemma segment_meta_lists:
  fixes w w' :: "('e, 'z) chain_world_scheme"
  assumes X: "store_ok X" "writes_ok X" and run: "Segment_writeState X (segStoreDbm c) sid w = (r, w')"
    and L: "seg_lists X c (ext w) m A"
    and A: "A sid = Some rs" "seg_view X c (ext w) sid = Ok st"
    and st': "ss_Id st' = ss_Id st" "ss_TailBlock st' = ss_TailBlock st" "ss_HeadBlock st' = ss_HeadBlock st"
      "ss_Status st' \<noteq> INVALID \<Longrightarrow> ss_Status st \<noteq> INVALID"
      "ss_SegmentPrev st' = ss_SegmentPrev st \<or> joined (follows X c (ext w)) (accepts X c (ext w)) A rs st'"
    and mem: "segmentMap w = m(sid \<mapsto> st')"
  shows "r = Ok ()" "lists_in X c A w'" "segmentMap w' = segmentMap w"
    "seg_view X c (ext w') = (seg_view X c (ext w))(sid := Ok st')"
proof -
  obtain st0 where "seg_view X c (ext w) sid = Ok st0" "case A sid of None \<Rightarrow> st0 = (zero_segment X)\<lparr>ss_Id := sid\<rparr>
      | Some rs \<Rightarrow> list_of (follows X c (ext w)) (obeys X c (ext w)) (block_view X c (ext w)) sid rs st0"
    by (rule lists_ofD [OF L [unfolded seg_lists_def]])
  with A have id: "ss_Id st' = sid" using st'(1) by (simp add: list_of_def)
  obtain e' where e': "Segment_writeState X (segStoreDbm c) sid w = (Ok (), w\<lparr>ext := e'\<rparr>)"
    "same_objs X (ext w) e'" "block_view X c e' = block_view X c (ext w)"
    "seg_view X c e' = (seg_view X c (ext w))(ss_Id (seg_state X sid w) := Ok (seg_state X sid w))"
    by (rule Segment_write_view [OF X])
  have s: "seg_state X sid w = st'" using mem by (simp add: seg_state_def)
  have w': "w' = w\<lparr>ext := e'\<rparr>" using run e'(1) by simp
  show "r = Ok ()" "segmentMap w' = segmentMap w" using run e'(1) by auto
  show sv: "seg_view X c (ext w') = (seg_view X c (ext w))(sid := Ok st')" using e'(4) s id w' by simp
  have "lists_of (\<lambda>sid. (zero_segment X)\<lparr>ss_Id := sid\<rparr>) (follows X c (ext w)) (obeys X c (ext w)) (accepts X c (ext w))
      (block_view X c (ext w)) ((seg_view X c (ext w))(sid := Ok st')) (m(sid \<mapsto> st')) A"
    by (rule lists_of_meta [OF L [unfolded seg_lists_def] A]) (use st' id in simp_all)
  then show "lists_in X c A w'"
    using sv w' mem e'(3) by (simp add: seg_lists_def same_objs_views [OF e'(2)])
qed

lemma lists_state:
  assumes L: "lists_in X c A w" and A: "A sid = Some rs" and mem: "segmentMap w sid \<noteq> None"
  shows "seg_view X c (ext w) sid = Ok (seg_state X sid w)"
    "list_of (follows X c (ext w)) (obeys X c (ext w)) (block_view X c (ext w)) sid rs (seg_state X sid w)"
proof -
  obtain st where "seg_view X c (ext w) sid = Ok st" "segmentMap w sid = None \<or> segmentMap w sid = Some st"
    "case A sid of None \<Rightarrow> st = (zero_segment X)\<lparr>ss_Id := sid\<rparr>
      | Some rs \<Rightarrow> list_of (follows X c (ext w)) (obeys X c (ext w)) (block_view X c (ext w)) sid rs st"
    by (rule lists_ofD [OF L [unfolded seg_lists_def]])
  moreover from this mem have "seg_state X sid w = st" by (auto simp: seg_state_def)
  ultimately show "seg_view X c (ext w) sid = Ok (seg_state X sid w)"
    "list_of (follows X c (ext w)) (obeys X c (ext w)) (block_view X c (ext w)) sid rs (seg_state X sid w)"
    using A by simp_all
qed

text \<open>A segment that holds a tail is one of the lists.\<close>

lemma lists_with_tail:
  assumes L: "lists_in X c A w" and tail: "ss_TailBlock (seg_state X sid w) \<noteq> None"
  obtains rs where "A sid = Some rs" "segmentMap w sid \<noteq> None"
proof -
  obtain st where st: "segmentMap w sid = None \<or> segmentMap w sid = Some st"
    "case A sid of None \<Rightarrow> st = (zero_segment X)\<lparr>ss_Id := sid\<rparr>
      | Some rs \<Rightarrow> list_of (follows X c (ext w)) (obeys X c (ext w)) (block_view X c (ext w)) sid rs st"
    by (rule lists_ofD [OF L [unfolded seg_lists_def]])
  from tail have mem: "segmentMap w sid \<noteq> None" by (cases "segmentMap w sid") (auto simp: seg_state_def zero_segment_def)
  with st tail have "A sid \<noteq> None" by (cases "A sid") (auto simp: seg_state_def zero_segment_def)
  with mem that show thesis by blast
qed

lemma AppendSegment_lists:
  fixes w w' :: "('e, 'z) chain_world_scheme"
  assumes X: "store_ok X" "writes_ok X" and L: "lists_in X c A w" and ne: "sid \<noteq> next"
    and A: "A sid = Some rs" "A next = Some qs" and mem: "segmentMap w sid \<noteq> None" "segmentMap w next \<noteq> None"
    and last: "\<exists>q\<in>set rs. follows X c (ext w) q (hd qs)"
    and run: "AppendSegment X (segStoreDbm c) sid next (c_encStrat c) v (GetBlockDbm c) w = (r, w')" and np: "r \<noteq> Panic"
  shows "lists_in X c A w'"
proof -
  let ?get = "\<lambda>r. GetBlock X (c_encStrat c) (GetBlockDbm c) r w"
  let ?n = "seg_state X next w" and ?s = "seg_state X sid w"
  show ?thesis
  proof (cases "ss_Status ?n = DISJOINTED \<and> (\<exists>tb. ?get (ss_TailBlock ?n) = (Ok tb, w)) \<and> (\<exists>hb. ?get (ss_HeadBlock ?s) = (Ok hb, w))")
    case False
    obtain x y where "?get (ss_TailBlock ?n) = (x, w)" "?get (ss_HeadBlock ?s) = (y, w)" using GetBlock_view by blast
    with False run have "w' = w" by (cases x; cases y) (auto simp: AppendSegment_def gbind_def split: if_splits)
    with L show ?thesis by simp
  next
    case True
    then obtain tb hb where st: "ss_Status ?n = DISJOINTED" and tb: "?get (ss_TailBlock ?n) = (Ok tb, w)"
      and hb: "?get (ss_HeadBlock ?s) = (Ok hb, w)" by blast
    obtain rv wv where val: "ValidateChild X hb tb v w = (rv, wv)" by force
    with ValidateChild_state have val: "ValidateChild X hb tb v w = (rv, w)" by blast
    have "rv \<noteq> Panic" using run st tb hb val np by (auto simp: AppendSegment_def gbind_def gtry_def)
    note app = run [unfolded AppendSegment_run [OF ne st tb hb val this]]
    note sn = lists_state [OF L A(2) mem(2)] and ss = lists_state [OF L A(1) mem(1)]
    show ?thesis
    proof (cases "\<exists>m. rv = Ok m")
      case False
      let ?st' = "?n\<lparr>ss_Status := INVALID\<rparr>"
      have w1: "Segment_writeState X (segStoreDbm c) next (w\<lparr>segmentMap := (segmentMap w)(next \<mapsto> ?st')\<rparr>) = (r, w')"
        using app False \<open>rv \<noteq> Panic\<close> by (cases rv) auto
      show ?thesis
        by (rule segment_meta_lists(2) [OF X w1, where A = A and m = "segmentMap w" and st = ?n and st' = ?st' and rs = qs])
           (use L A(2) sn(1) in simp_all)
    next
      case True
      let ?st' = "?n\<lparr>ss_Status := ss_Status ?s, ss_SegmentPrev := ss_Id ?s\<rparr>"
      have "accepts X c (ext w) (last rs) (hd qs)"
      proof -
        from True val have "valid_child X (ext w) hb tb" by (auto simp: validate_child_rule)
        moreover obtain t0 h0 ts hs where "blk_of X c (ext w) (hd qs) = Ok t0" "tb = t0\<lparr>b_State := ts\<rparr>"
          "blk_of X c (ext w) (last rs) = Ok h0" "hb = h0\<lparr>b_State := hs\<rparr>"
          using tb hb sn(2) ss(2) unfolding GetBlock_view_Ok list_of_def by metis
        ultimately show ?thesis by (auto simp: accepts_def)
      qed
      moreover have "last rs \<in> set rs" "ss_Id ?s = sid" using ss(2) by (simp_all add: list_of_def)
      ultimately have joined: "joined (follows X c (ext w)) (accepts X c (ext w)) A qs ?st'"
        using last A(1) by (auto simp: joined_def)
      let ?w1 = "w\<lparr>segmentMap := (segmentMap w)(next \<mapsto> ?st')\<rparr>"
      obtain r2 w2 where w2: "Segment_writeState X (segStoreDbm c) next ?w1 = (r2, w2)" by force
      note m = segment_meta_lists [OF X w2, where A = A and m = "segmentMap w" and st = ?n and st' = ?st' and rs = qs]
      have m: "r2 = Ok ()" "lists_in X c A w2" "segmentMap w2 = segmentMap ?w1"
        "seg_view X c (ext w2) = (seg_view X c (ext w))(next := Ok ?st')"
        using m L A(2) sn(1) st joined by simp_all
      let ?s' = "?s\<lparr>ss_SegmentNext := ss_Id ?st'\<rparr>"
      let ?w3 = "w2\<lparr>segmentMap := (segmentMap w2)(sid \<mapsto> ?s')\<rparr>"
      have "seg_state X sid w2 = ?s" "seg_state X next w2 = ?st'" using m(3) ne by (simp_all add: seg_state_def)
      then have w3: "Segment_writeState X (segStoreDbm c) sid ?w3 = (r, w')"
        using app True w2 m(1) by (auto simp: gbind_def)
      show ?thesis
        by (rule segment_meta_lists(2) [OF X w3, where A = A and m = "segmentMap w2" and st = ?s and st' = ?s' and rs = rs])
           (use m(2,4) A(1) ss(1) ne in simp_all)
    qed
  qed
qed

lemma RewindOnce_writes:
  fixes w w' :: "('e, 'z) chain_world_scheme"
  assumes X: "store_ok X" "writes_ok X" and run: "Segment_RewindOnce X (segStoreDbm c) sid (c_encStrat c) v (GetBlockDbm c) w = (r, w')"
    and np: "r \<noteq> Panic" and st: "ss_Status (seg_state X sid w) = DISJOINTED"
    and tail: "GetBlock X (c_encStrat c) (GetBlockDbm c) (ss_TailBlock (seg_state X sid w)) w = (Ok tb, w)"
    and prev: "GetBlock X (c_encStrat c) (GetBlockDbm c) (hdr_LastBlockRef (b_header tb)) w = (Ok pb, w)"
    and free: "bs_SegmentId (b_State pb) = ''''"
    and pb: "b_dbm pb = GetBlockDbm c" "b_dbKey pb = ''/'' @ b64_encode d"
    and st': "st' = rewound_state (seg_state X sid w) pb tb
       (rewind_status X (ext w) v (rewound_prev (seg_state X sid w) pb tb) tb)"
  obtains e' where "r = Ok ()" "w' = w\<lparr>segmentMap := (segmentMap w)(sid \<mapsto> st'), ext := e'\<rparr>" "same_objs X (ext w) e'"
    "block_view X c e' = (block_view X c (ext w))(d := Ok (b_State (rewound_prev (seg_state X sid w) pb tb)))"
    "seg_view X c e' = (seg_view X c (ext w))(ss_Id (seg_state X sid w) := Ok st')"
proof -
  let ?st = "seg_state X sid w"
  let ?pb = "rewound_prev ?st pb tb"
  note parts = GetBlock_parts [OF tail]
  have pbk: "b_dbm ?pb = GetBlockDbm c" "b_dbKey ?pb = ''/'' @ b64_encode d" using pb by (simp_all add: rewound_prev_def)
  obtain e1 where e1: "Block_WriteState X ?pb w = (Ok (), w\<lparr>ext := e1\<rparr>)" "same_objs X (ext w) e1"
    "block_view X c e1 = (block_view X c (ext w))(d := Ok (b_State ?pb))" "seg_view X c e1 = seg_view X c (ext w)"
    by (rule Block_write_view [OF X pbk])
  have pbs: "pb\<lparr>b_State := (b_State pb)\<lparr>bs_SegmentId := ss_Id ?st, bs_NextBlock := b_blkRef tb\<rparr>\<rparr> = ?pb"
    by (simp add: rewound_prev_def)
  have hd: "b_header ?pb = b_header pb" by (simp add: rewound_prev_def)
  have st1: "seg_state X sid (w\<lparr>ext := e1\<rparr>) = ?st" by (simp add: seg_state_def)
  let ?w2 = "w\<lparr>segmentMap := (segmentMap w)(sid \<mapsto> ?st\<lparr>ss_TailBlock := hdr_LastBlockRef (b_header tb),
    ss_TailBlockRound := hdr_RoundInfo (b_header ?pb)\<rparr>), ext := e1\<rparr>"
  obtain rv wv where "ValidateChild X ?pb tb v ?w2 = (rv, wv)" by force
  with ValidateChild_state have val: "ValidateChild X ?pb tb v ?w2 = (rv, ?w2)" by blast
  let ?st' = "rewound_state ?st pb tb (case rv of Ok ok \<Rightarrow> (if ok then VALID else DISJOINTED) | _ \<Rightarrow> INVALID)"
  let ?w3 = "w\<lparr>segmentMap := (segmentMap w)(sid \<mapsto> ?st'), ext := e1\<rparr>"
  have fin: "rv \<noteq> Panic \<and> Segment_writeState X (segStoreDbm c) sid ?w3 = (r, w')"
    using run st tail prev free parts e1(1) val st1 np
    by (cases rv) (auto simp: Segment_RewindOnce_def Let_def gbind_def pbs hd rewound_state_def disjointed_again ext_upd)
  have "rewind_status X (ext w) v ?pb tb = rewind_status X (ext ?w2) v ?pb tb"
    using same_objs_views(2) [OF e1(2)] by (simp add: rewind_status_def)
  also have "\<dots> = (case rv of Ok ok \<Rightarrow> (if ok then VALID else DISJOINTED) | _ \<Rightarrow> INVALID)"
    by (rule ValidateChild_status [OF val]) (use fin in simp)
  finally have st'': "?st' = st'" using st' by simp
  obtain e2 where e2: "Segment_writeState X (segStoreDbm c) sid ?w3 = (Ok (), ?w3\<lparr>ext := e2\<rparr>)" "same_objs X e1 e2"
    "block_view X c e2 = block_view X c e1"
    "seg_view X c e2 = (seg_view X c e1)(ss_Id (seg_state X sid ?w3) := Ok (seg_state X sid ?w3))"
    by (rule Segment_write_view [OF X, of c sid ?w3]) simp
  have s3: "seg_state X sid ?w3 = st'" "ss_Id st' = ss_Id ?st" using st'' st' by (simp_all add: seg_state_def rewound_state_def)
  have "r = Ok ()" "w' = w\<lparr>segmentMap := (segmentMap w)(sid \<mapsto> st'), ext := e2\<rparr>" using fin e2(1) st'' by auto
  then show thesis using that [of e2] e1 e2 s3 same_objs_trans [OF e1(2) e2(2)] by simp
qed

text \<open>A segment whose tail follows a block of no segment has not been joined to another one.\<close>

lemma lists_unlinked:
  assumes L: "lists_in X c A w" and A: "A sid = Some rs" "segmentMap w sid \<noteq> None"
    and tb: "blk_of X c (ext w) (ss_TailBlock (seg_state X sid w)) = Ok tb"
    and free: "block_view X c (ext w) (GetObjectDigest (hdr_LastBlockRef (b_header tb))) = Ok zero_block"
  shows "ss_SegmentPrev (seg_state X sid w) = ''''"
proof (rule ccontr)
  assume linked: "ss_SegmentPrev (seg_state X sid w) \<noteq> ''''"
  note ls = lists_state [OF L A]
  with lists_of_list(2) [OF L [unfolded seg_lists_def] A(1)] linked obtain ps q where
    ps: "A (ss_SegmentPrev (seg_state X sid w)) = Some ps" "q \<in> set ps" "follows X c (ext w) q (hd rs)"
    unfolding joined_def by blast
  from ls(2) have "ss_TailBlock (seg_state X sid w) = hd rs" by (simp add: list_of_def)
  with ps(3) tb have "GetObjectDigest (hdr_LastBlockRef (b_header tb)) = GetObjectDigest q" by (auto simp: follows_def)
  with seg_lists_new_block [OF L] free have "new_block A q" by simp
  with ps(1,2) show False unfolding new_block_def by blast
qed

lemma RewindOnce_lists:
  fixes w w' :: "('e, 'z) chain_world_scheme"
  assumes X: "store_ok X" "writes_ok X" and L: "lists_in X c A w"
    and run: "Segment_RewindOnce X (segStoreDbm c) sid (c_encStrat c) v (GetBlockDbm c) w = (r, w')" and np: "r \<noteq> Panic"
  shows "\<exists>A'. list_step A A' \<and> lists_in X c A' w'"
proof -
  let ?get = "\<lambda>r. GetBlock X (c_encStrat c) (GetBlockDbm c) r w"
  let ?st = "seg_state X sid w"
  have same: "\<exists>A'. list_step A A' \<and> lists_in X c A' w'" if "w' = w" using that L list_keep by blast
  show ?thesis
  proof (cases "ss_Status ?st = DISJOINTED \<and> (\<exists>tb. ?get (ss_TailBlock ?st) = (Ok tb, w))")
    case False
    obtain x where "?get (ss_TailBlock ?st) = (x, w)" using GetBlock_view by blast
    with False run have "w' = w"
      by (cases x) (auto simp: Segment_RewindOnce_def gbind_def Let_def FollowBlockRef_view split: if_splits res.splits)
    then show ?thesis by (rule same)
  next
    case True
    then obtain tb where st: "ss_Status ?st = DISJOINTED" and tb: "?get (ss_TailBlock ?st) = (Ok tb, w)" by blast
    note parts = GetBlock_parts [OF tb]
    obtain tb0 where tb0: "blk_of X c (ext w) (ss_TailBlock ?st) = Ok tb0" "b_header tb = b_header tb0" "b_blkRef tb = ss_TailBlock ?st"
      using tb blk_of_fields(3) unfolding GetBlock_view_Ok by fastforce
    obtain rs where A: "A sid = Some rs" and mem: "segmentMap w sid \<noteq> None"
      by (rule lists_with_tail [OF L blk_of_fields(5) [OF tb0(1)]])
    note ls = lists_state [OF L A mem]
    let ?pr = "hdr_LastBlockRef (b_header tb)"
    show ?thesis
    proof (cases "\<exists>pb. ?get ?pr = (Ok pb, w)")
      case False
      obtain x where "?get ?pr = (x, w)" using GetBlock_view by blast
      with False run st tb parts have "w' = w" by (cases x) (auto simp: Segment_RewindOnce_def gbind_def Let_def)
      then show ?thesis by (rule same)
    next
      case True
      then obtain pb0 ps where pb: "?get ?pr = (Ok (pb0\<lparr>b_State := ps\<rparr>), w)" and p: "blk_of X c (ext w) ?pr = Ok pb0"
        "block_view X c (ext w) (GetObjectDigest ?pr) = Ok ps" unfolding GetBlock_view_Ok by blast
      show ?thesis
      proof (cases "bs_SegmentId ps = ''''")
        case True
        with seg_lists_free_block [OF L p(2)] have ps: "ps = zero_block" by blast
        note pf = blk_of_fields [OF p(1)]
        let ?pb = "pb0\<lparr>b_State := ps\<rparr>"
        let ?s = "rewind_status X (ext w) v (rewound_prev ?st ?pb tb) tb"
        obtain e' where e': "w' = w\<lparr>segmentMap := (segmentMap w)(sid \<mapsto> rewound_state ?st ?pb tb ?s), ext := e'\<rparr>"
          "same_objs X (ext w) e'"
          "block_view X c e' = (block_view X c (ext w))(GetObjectDigest ?pr := Ok (b_State (rewound_prev ?st ?pb tb)))"
          "seg_view X c e' = (seg_view X c (ext w))(ss_Id ?st := Ok (rewound_state ?st ?pb tb ?s))"
          by (rule RewindOnce_writes [OF X run np st tb pb]) (use True pf in simp_all)
        have bs: "b_State (rewound_prev ?st ?pb tb) = \<lparr>bs_SegmentId = sid, bs_NextBlock = hd rs\<rparr>"
          using ps ls(2) tb0(3) by (simp add: rewound_prev_def list_of_def)
        have id: "ss_Id ?st = sid" "ss_TailBlock ?st = hd rs" using ls(2) by (simp_all add: list_of_def)
        have f: "follows X c (ext w) ?pr (hd rs)" using tb0 p(1) id(2) by (auto simp: follows_def)
        have o: "obeys X c (ext w) ?pr (hd rs)" if "?s \<noteq> INVALID"
        proof -
          from that have "valid_child X (ext w) ?pb tb" by (auto simp: rewind_status_def split: if_splits)
          moreover have "valid_child X (ext w) ?pb tb = valid_child X (ext w) pb0 tb0"
            using tb0(2) by (simp add: valid_child_def expected_proposer_def block_time_def block_height_def)
          ultimately show ?thesis using tb0 p(1) id(2) by (auto simp: obeys_def)
        qed
        have unlinked: "ss_SegmentPrev ?st = ''''"
          by (rule lists_unlinked [OF L A mem, of tb0]) (use tb0 id(2) p(2) ps in simp_all)
        have "lists_of (\<lambda>sid. (zero_segment X)\<lparr>ss_Id := sid\<rparr>) (follows X c (ext w)) (obeys X c (ext w)) (accepts X c (ext w)) (block_view X c e')
          (seg_view X c e') ((segmentMap w)(sid \<mapsto> rewound_state ?st ?pb tb ?s)) (A(sid \<mapsto> ?pr # rs))"
          unfolding e'(3,4) bs id(1)
          by (rule lists_of_cons [OF L [unfolded seg_lists_def] A ls(1) pf(5) _ f])
             (use p(2) ps id o st unlinked in \<open>auto simp: rewound_state_def\<close>)
        then have "lists_in X c (A(sid \<mapsto> ?pr # rs)) w'"
          using e'(1) by (simp add: seg_lists_def same_objs_views [OF e'(2)])
        moreover have "new_block A ?pr" using seg_lists_new_block [OF L] p(2) ps by simp
        ultimately show ?thesis using list_prepend [of A sid rs ?pr] A by blast
      next
        case False
        let ?ps = "bs_SegmentId ps"
        obtain sst where s: "GetSegmentById X (segStoreDbm c) ?ps w = (Ok ?ps, w\<lparr>segmentMap := (segmentMap w)(?ps \<mapsto> sst)\<rparr>)"
          and L1: "lists_in X c A (w\<lparr>segmentMap := (segmentMap w)(?ps \<mapsto> sst)\<rparr>)"
          by (rule GetSegmentById_run [OF L])
        let ?w1 = "w\<lparr>segmentMap := (segmentMap w)(?ps \<mapsto> sst)\<rparr>"
        have run1: "(if ?ps = sid then gfail (Errorf ''previous segment resolved to same segment'')
            else AppendSegment X (segStoreDbm c) ?ps sid (c_encStrat c) v (GetBlockDbm c)) ?w1 = (r, w')"
          using run st tb parts pb s False by (simp add: Segment_RewindOnce_def gbind_def Let_def)
        have "lists_in X c A w'"
        proof (cases "?ps = sid")
          case True
          with run1 L1 show ?thesis by auto
        next
          case ne: False
          obtain qs where qs: "A ?ps = Some qs" "GetObjectDigest ?pr \<in> GetObjectDigest ` set qs"
            by (rule lists_of_block [OF L [unfolded seg_lists_def] p(2) False])
          have "\<exists>q\<in>set qs. follows X c (ext w) q (hd rs)"
            using qs(2) tb0 p(1) ls(2) unfolding follows_def list_of_def by force
          with AppendSegment_lists [OF X L1 ne qs(1) A] show ?thesis using run1 ne np mem by auto
        qed
        then show ?thesis using list_keep by blast
      qed
    qed
  qed
qed

lemma HandleSegmentUpdated_cases:
  fixes w w' :: "('e, 'z) chain_world_scheme"
  assumes run: "HandleSegmentUpdated X c seg w = (r, w')" and np: "r \<noteq> Panic"
  obtains "w' = w"
  | hb where "ss_Status (seg_state X seg w) = DISJOINTED"
      "GetBlock X (c_encStrat c) (GetBlockDbm c) (ss_HeadBlock (seg_state X seg w)) w = (Ok hb, w)"
      "GetBlock X (c_encStrat c) (GetBlockDbm c) (ss_TailBlock (seg_state X seg w)) w \<noteq> (Panic, w)"
      "markAsHead X c seg hb w = (r, w')"
proof (cases "ss_Status (seg_state X seg w) \<noteq> DISJOINTED \<or> lastBlock w \<noteq> None")
  case True
  with run that(1) show thesis by (auto simp: HandleSegmentUpdated_def gbind_def)
next
  case False
  obtain x where x: "GetBlock X (c_encStrat c) (GetBlockDbm c) (ss_HeadBlock (seg_state X seg w)) w = (x, w)"
    using GetBlock_view by blast
  obtain y where y: "GetBlock X (c_encStrat c) (GetBlockDbm c) (ss_TailBlock (seg_state X seg w)) w = (y, w)"
    using GetBlock_view by blast
  show thesis
  proof (cases "\<exists>hb tb. x = Ok hb \<and> y = Ok tb")
    case True
    then obtain hb tb where hb: "x = Ok hb" "y = Ok tb" by blast
    have "w' = w \<or> markAsHead X c seg hb w = (r, w')"
      using run False x y hb
      by (auto simp: HandleSegmentUpdated_def gbind_def gtry_def Let_def split: if_splits sum.splits res.splits prod.splits)
    with that x y hb False show thesis by auto
  next
    case no: False
    have "w' = w"
      using run False x y no np
      by (cases x; cases y) (auto simp: HandleSegmentUpdated_def gbind_def gtry_def)
    with that(1) show thesis .
  qed
qed

lemma HandleSegmentUpdated_lists:
  fixes w w' :: "('e, 'z) chain_world_scheme"
  assumes X: "store_ok X" "writes_ok X" and L: "lists_in X c A w"
    and run: "HandleSegmentUpdated X c seg w = (r, w')" and np: "r \<noteq> Panic"
  shows "lists_in X c A w'"
  using run np
proof (cases rule: HandleSegmentUpdated_cases)
  case (2 hb)
  let ?st = "seg_state X seg w"
  let ?w1 = "w\<lparr>segmentMap := (segmentMap w)(seg \<mapsto> ?st\<lparr>ss_Status := VALID\<rparr>)\<rparr>"
  have "ss_TailBlock ?st \<noteq> None" using 2(3) by (cases "ss_TailBlock ?st") (auto simp: GetBlock_view)
  from lists_with_tail [OF L this] obtain rs where A: "A seg = Some rs" and mem: "segmentMap w seg \<noteq> None" .
  note ls = lists_state [OF L A mem]
  obtain r2 w2 where w2: "Segment_writeState X (segStoreDbm c) seg ?w1 = (r2, w2)" by force
  note m = segment_meta_lists(1,2) [OF X w2, where A = A and m = "segmentMap w" and st = ?st and
      st' = "?st\<lparr>ss_Status := VALID\<rparr>" and rs = rs]
  have m: "r2 = Ok ()" "lists_in X c A w2" using m L A ls(1) 2(1) by simp_all
  have "w' = snd (setHeadBlock X c hb w2)"
    using 2(1,4) w2 m(1)
    by (auto simp: markAsHead_def MarkValid_def gbind_def gtry_def np split: prod.splits res.splits)
  with keepsD [OF setHeadBlock_keeps_lists [OF X] _ m(2)] show ?thesis by (metis prod.collapse)
qed (use L in simp)

lemma rewind_lists:
  fixes w w' :: "('e, 'z) chain_world_scheme"
  assumes X: "store_ok X" "writes_ok X" and L: "lists_in X c A w"
    and run: "manageSegmentRewindOnce X c w = (r, w')" and np: "r \<noteq> Panic"
  shows "\<exists>A'. list_step A A' \<and> lists_in X c A' w'"
proof -
  obtain popped q where pop: "SegmentQueue_Pop (tail_height X w) (segmentQueue w) = (popped, q)" by force
  let ?w1 = "w\<lparr>segmentQueue := q\<rparr>"
  have L1: "lists_in X c A ?w1" using L by simp
  have p: "queue_pop X w = (Ok popped, ?w1)" using pop by (simp add: queue_pop_def)
  show ?thesis
  proof (cases popped)
    case None
    with run p have "w' = ?w1" by (simp add: manageSegmentRewindOnce_def SegmentStore_RewindOnce_def gbind_def)
    with L1 list_keep show ?thesis by blast
  next
    case (Some sid)
    obtain x w2 where rw: "Segment_RewindOnce X (segStoreDbm c) sid (c_encStrat c) (c_blockValidator c) (GetBlockDbm c) ?w1 = (x, w2)"
      by force
    have x: "x \<noteq> Panic" using run p rw Some np
      by (auto simp: manageSegmentRewindOnce_def SegmentStore_RewindOnce_def gbind_def gtry_def)
    obtain A' where A': "list_step A A'" "lists_in X c A' w2" using RewindOnce_lists [OF X L1 rw x] by blast
    have "lists_in X c A' w'"
    proof (cases x)
      case (Err e)
      with run p rw Some have "w' = w2"
        by (simp add: manageSegmentRewindOnce_def SegmentStore_RewindOnce_def gbind_def gtry_def)
      with A' show ?thesis by simp
    next
      case (Ok u)
      let ?prev = "ss_SegmentPrev (seg_state X sid w2)"
      obtain n w3 where n: "(if ?prev \<noteq> '''' then gtry (GetSegmentById X (segStoreDbm c) ?prev) else gret (Inr sid)) w2 = (Ok (Inr n), w3)"
        and L3: "lists_in X c A' w3"
      proof (cases "?prev = ''''")
        case False
        obtain sst where "GetSegmentById X (segStoreDbm c) ?prev w2 = (Ok ?prev, w2\<lparr>segmentMap := (segmentMap w2)(?prev \<mapsto> sst)\<rparr>)"
          "lists_in X c A' (w2\<lparr>segmentMap := (segmentMap w2)(?prev \<mapsto> sst)\<rparr>)"
          by (rule GetSegmentById_run [OF A'(2)])
        with that False show thesis by simp
      qed (use that A'(2) in simp)
      obtain y w4 where h: "HandleSegmentUpdated X c n w3 = (y, w4)" by force
      have y: "y \<noteq> Panic" and w': "ext w' = ext w4" "segmentMap w' = segmentMap w4" if "y = Ok ()"
        using run p rw Some Ok n h np that
        by (auto simp: manageSegmentRewindOnce_def SegmentStore_RewindOnce_def gbind_def gtry_def queue_push_def
            split: if_splits)
      show ?thesis
      proof (cases y)
        case (Ok z)
        then have "lists_in X c A' w4" using HandleSegmentUpdated_lists [OF X L3 h] by simp
        then show ?thesis using w' Ok by simp
      next
        case (Err e)
        then have "lists_in X c A' w4" using HandleSegmentUpdated_lists [OF X L3 h] by simp
        moreover have "w' = w4" using run p rw Some \<open>x = Ok u\<close> n h Err
          by (simp add: manageSegmentRewindOnce_def SegmentStore_RewindOnce_def gbind_def gtry_def)
        ultimately show ?thesis by simp
      next
        case Panic
        with run p rw Some \<open>x = Ok u\<close> n h np show ?thesis
          by (simp add: manageSegmentRewindOnce_def SegmentStore_RewindOnce_def gbind_def gtry_def)
      qed
    qed (use x in simp)
    with A'(1) show ?thesis by blast
  qed
qed

section \<open>The refinement\<close>

text \<open>
  The steps of a process that is alive: an operation that does not panic, with an unused identifier where one
  is drawn.
\<close>

inductive live_step ::
  "('e, 'x) externals_scheme \<Rightarrow> chain \<Rightarrow> ('e, 'z) chain_world_scheme \<Rightarrow> ('e, 'z) chain_world_scheme \<Rightarrow> bool"
  for X c where
  live_commit: "unused_id X c uid w \<Longrightarrow> HandleBlockCommit X c uid r w = (res, w') \<Longrightarrow> live_step X c w w'"
| live_rewind: "manageSegmentRewindOnce X c w = (again, w') \<Longrightarrow> again \<noteq> Panic \<Longrightarrow> live_step X c w w'"
| live_manage: "manageStateOnce X c t t2 w = (res, w') \<Longrightarrow> live_step X c w w'"
| live_subscribe: "SubscribeState_begin k w = (res, w') \<Longrightarrow> live_step X c w w'"
| live_subscribed: "SubscribeState_store k w = (sub, w') \<Longrightarrow> live_step X c w w'"
| live_unsubscribe: "UnsubscribeState k w = (res, w') \<Longrightarrow> live_step X c w w'"
| live_receive: "ReceiveState k w = (snap, w') \<Longrightarrow> live_step X c w w'"
| live_recheck: "recheckStateTrigger w = u # us \<Longrightarrow> live_step X c w (w\<lparr>recheckStateTrigger := us\<rparr>)"

lemma live_step_chain_step: "live_step X c w w' \<Longrightarrow> chain_step X c w w'"
  by (induction rule: live_step.induct) (auto intro: chain_step.intros)

lemma subs_keep_lists:
  "keeps (lists_in X c A) (SubscribeState_begin k)" "keeps (lists_in X c A) (SubscribeState_store k)"
  "keeps (lists_in X c A) (UnsubscribeState k)" "keeps (lists_in X c A) (ReceiveState k)"
proof -
  show "keeps (lists_in X c A) (SubscribeState_begin k)" "keeps (lists_in X c A) (SubscribeState_store k)"
    "keeps (lists_in X c A) (UnsubscribeState k)"
    unfolding SubscribeState_begin_def SubscribeState_store_def UnsubscribeState_def Let_def
    by (intro keeps_intros; simp split: option.split)+
  show "keeps (lists_in X c A) (ReceiveState k)"
    by (rule keepsI) (simp add: ReceiveState_def split: option.split list.split)
qed

lemma live_step_lists:
  assumes X: "store_ok X" "writes_ok X" and "live_step X c w w'" and L: "lists_in X c A w"
  shows "\<exists>A'. list_step A A' \<and> lists_in X c A' w'"
  using assms(3)
proof cases
  case (live_commit uid r res)
  from HandleBlockCommit_lists [OF X L this] show ?thesis .
next
  case (live_rewind again)
  from rewind_lists [OF X L this] show ?thesis .
next
  case (live_manage t t2 res)
  from keepsD [OF manageStateOnce_keeps_lists [OF X] this L] list_keep show ?thesis by blast
next
  case (live_subscribe k res)
  from keepsD [OF subs_keep_lists(1) this L] list_keep show ?thesis by blast
next
  case (live_subscribed k sub)
  from keepsD [OF subs_keep_lists(2) this L] list_keep show ?thesis by blast
next
  case (live_unsubscribe k res)
  from keepsD [OF subs_keep_lists(3) this L] list_keep show ?thesis by blast
next
  case (live_receive k snap)
  from keepsD [OF subs_keep_lists(4) this L] list_keep show ?thesis by blast
next
  case (live_recheck u us)
  with L list_keep show ?thesis by auto
qed

text \<open>C6: the segments of a node refine lists of blocks. While the process is alive and the database accepts
  writes, every operation of the chain changes the lists that the database and the memory represent in one
  of four ways: not at all, by a new list of one new block, by a new block after a head, or by a new block
  before a tail. No operation moves a block, drops one or puts one into two lists, and a segment that was joined
  to another one stays a continuation of it: its tail names a block of the other one and is a valid child of one.\<close>

theorem segments_refine_lists:
  assumes "store_ok X" "writes_ok X" and "live_step X c w w'" and "seg_lists X c (ext w) (segmentMap w) A"
  shows "\<exists>A'. list_step A A' \<and> seg_lists X c (ext w') (segmentMap w') A'"
  using assms by (rule live_step_lists)

end
