(* ===== verification/SegLife.thy ===== *)
theory SegLife
  imports SegSteps
begin

text \<open>
  The life of a chain: created by \<open>NewChain\<close> on a database without blocks and segments, changed by the
  operations of a live process, loaded again by \<open>FromConfig\<close> after each restart. Along all of it the segments
  are lists of blocks, and the blocks of a segment that is not invalid satisfy the child rule pairwise.

  The queue of segments to rewind is not part of the database: the theory also shows what becomes of it when
  a chain is created and when it is loaded.
\<close>

section \<open>A chain is created\<close>

text \<open>Storing objects does not touch the entries of blocks and segments.\<close>

definition apart :: "('e, 'x) externals_scheme \<Rightarrow> chain \<Rightarrow> 'e \<Rightarrow> 'e \<Rightarrow> bool" where
  "apart X c e e' \<longleftrightarrow> block_view X c e' = block_view X c e \<and> seg_view X c e' = seg_view X c e"

definition stores_apart :: "('e, 'x) externals_scheme \<Rightarrow> chain \<Rightarrow> bool" where
  "stores_apart X c \<longleftrightarrow>
     (\<forall>e x k. apart X c e (snd (store_validator_set X e x k))) \<and>
     (\<forall>e x k. apart X c e (snd (store_chain_config X e x k))) \<and>
     (\<forall>e x k. apart X c e (snd (store_genesis X e x k))) \<and>
     (\<forall>e x k. apart X c e (snd (store_header X e x k))) \<and>
     (\<forall>e x k. apart X c e (snd (store_vote X e x k))) \<and>
     (\<forall>e x k. apart X c e (snd (store_block X e x k))) \<and>
     (\<forall>e x. apart X c e (snd (store_local_segment X e x)))"

definition blank :: "('e, 'x) externals_scheme \<Rightarrow> chain \<Rightarrow> 'e \<Rightarrow> bool" where
  "blank X c e \<longleftrightarrow> (\<forall>d. block_view X c e d = Ok zero_block) \<and>
     (\<forall>sid. seg_view X c e sid = Ok ((zero_segment X)\<lparr>ss_Id := sid\<rparr>))"

lemma blank_apart: "apart X c e e' \<Longrightarrow> blank X c e \<Longrightarrow> blank X c e'"
  by (simp add: apart_def blank_def)

lemma keeps_blank_call:
  "(\<And>e. apart X c e (snd (f e))) \<Longrightarrow> keeps (\<lambda>w. blank X c (ext w)) (gcall f)"
  by (rule keepsI) (auto simp: gcall_def case_prod_beta intro: blank_apart)

lemma mintGenesis_blank:
  assumes "stores_apart X c"
  shows "keeps (\<lambda>w. blank X c (ext w)) (mintGenesis X cid priv rnd wrap ts)"
  using assms unfolding mintGenesis_def Let_def stores_apart_def
  by (intro keeps_intros keeps_blank_call) simp_all

lemma blank_lists: "blank X c e \<Longrightarrow> seg_lists X c e Map.empty Map.empty"
  by (simp add: blank_def seg_lists_def lists_of_def)

text \<open>What \<open>mintFirstBlock\<close> does after it has stored the first block.\<close>

definition linkFirstBlock ::
  "('e, 'x) externals_scheme \<Rightarrow> chain \<Rightarrow> block_header \<Rightarrow> sref \<Rightarrow> string \<Rightarrow> (('e, 'z) chain_world_scheme, unit) go" where
  "linkFirstBlock X ch header blockRef uid =
     gbind (GetBlock X (c_encStrat ch) (GetBlockDbm ch) blockRef) (\<lambda>firstBlk.
     gbind (NewSegment X (segStoreDbm ch) uid firstBlk blockRef) (\<lambda>(seg, firstBlk').
     gbind (gasks (\<lambda>w. ss_Id (seg_state X seg w))) (\<lambda>segId.
     let firstBlk'' = firstBlk'\<lparr>b_State := (b_State firstBlk')\<lparr>bs_SegmentId := segId\<rparr>\<rparr> in
     gbind (Block_WriteState X firstBlk'') (\<lambda>_.
     gbind (gmodify (\<lambda>w. w\<lparr>ch_state := \<lparr>cs_StateSegment = segId, cs_LastHeight = 0, cs_LastRound = 0\<rparr>\<rparr>)) (\<lambda>_.
     gbind (Chain_writeState X ch) (\<lambda>_.
     gmodify (\<lambda>w. w\<lparr>lastBlockHeader := Some header, lastBlockRef := blockRef,
       lastBlock := Some firstBlk'', lastHeadDigest := GetObjectDigest blockRef\<rparr>)))))))"

lemma mintFirstBlock_links:
  fixes w w' :: "('e, 'z) chain_world_scheme"
  assumes "mintFirstBlock X ch priv vid gs ts uid0 uid w = (Ok (), w')"
  obtains e ref where "stores_apart X c \<longrightarrow> blank X c (ext w) \<longrightarrow> blank X c e"
    "linkFirstBlock X ch (firstBlockHeader (c_GenesisRef ch) (gen_InitChainConfigRef (c_genesis ch)) ts (pretty_id X vid) gs)
       ref uid (w\<lparr>ext := e\<rparr>) = (Ok (), w')"
proof -
  let ?h = "firstBlockHeader (c_GenesisRef ch) (gen_InitChainConfigRef (c_genesis ch)) ts (pretty_id X vid) gs"
  let ?pre = "gbind (gcall (\<lambda>e. store_header X e ?h ((GetBlockEncryptionConfig X (c_encStrat ch))\<lparr>SignerKeys := [priv]\<rparr>))) (\<lambda>headerRef.
      gbind (gcall (\<lambda>e. store_vote X e \<lparr>vote_BlockHeaderRef = headerRef\<rparr>
               (GetNodeMessageEncryptionConfig X (c_encStrat ch) priv))) (\<lambda>voteRef.
      gbind (gcall (\<lambda>e. store_block X e \<lparr>blk_BlockHeaderRef = headerRef, blk_VoteRefs = [voteRef]\<rparr>
               ((GetBlockEncryptionConfig X (c_encStrat ch))\<lparr>SignerKeys := [priv]\<rparr>))) (\<lambda>blockRef.
      gbind (gcall (\<lambda>e. store_local_segment X e ((zero_segment X)\<lparr>ss_Id := uid0, ss_Status := VALID,
               ss_HeadBlock := blockRef, ss_TailBlock := blockRef\<rparr>))) (\<lambda>_. gret blockRef))))
    :: (('e, 'z) chain_world_scheme, sref) go"
  from assms obtain ref w1 where pre: "?pre w = (Ok ref, w1)" and link: "linkFirstBlock X ch ?h ref uid w1 = (Ok (), w')"
    by (auto simp: mintFirstBlock_def linkFirstBlock_def Let_def gbind_Ok_iff)
  have "\<exists>e. w1 = w\<lparr>ext := e\<rparr>" using pre by (auto simp: gbind_Ok_iff gcall_Ok)
  then obtain e where w1: "w1 = w\<lparr>ext := e\<rparr>" by blast
  have "blank X c e" if "stores_apart X c" "blank X c (ext w)"
  proof -
    have "keeps (\<lambda>w. blank X c (ext w)) ?pre"
      using that(1) unfolding stores_apart_def by (intro keeps_gbind keeps_gret keeps_blank_call) simp_all
    from keepsD [OF this pre that(2)] w1 show ?thesis by simp
  qed
  with w1 link that show thesis by blast
qed

lemma writeState_view:
  fixes w w' :: "('e, 'z) chain_world_scheme"
  assumes X: "store_ok X" and run: "Chain_writeState X c w = (Ok (), w')"
  shows "same_objs X (ext w) (ext w')" "block_view X c (ext w') = block_view X c (ext w)"
    "seg_view X c (ext w') = seg_view X c (ext w)" "segmentMap w' = segmentMap w" "segmentQueue w' = segmentQueue w"
proof -
  from run obtain w1 where w1: "write_slot X (pb_chain_state X) (c_dbm c) (Chain_dbKey c) (ch_state w) w = (Ok (), w1)"
    and w': "w' = w1\<lparr>recheckStateTrigger := try_send 1 () (recheckStateTrigger w1)\<rparr>"
    by (rule Chain_writeState_Ok)
  from w1 obtain bs e' where set: "db_set X (ext w) (c_dbm c) (Chain_dbKey c) bs = (Inr (), e')" and "w1 = w\<lparr>ext := e'\<rparr>"
    by (auto simp: write_slot_Ok)
  then have "ext w' = e'" "segmentMap w' = segmentMap w" "segmentQueue w' = segmentQueue w" using w' by simp_all
  with chain_set_view [OF X set] show "same_objs X (ext w) (ext w')" "block_view X c (ext w') = block_view X c (ext w)"
    "seg_view X c (ext w') = seg_view X c (ext w)" "segmentMap w' = segmentMap w" "segmentQueue w' = segmentQueue w"
    by simp_all
qed

lemma push_empty: "pq q = [] \<Longrightarrow> pq (SegmentQueue_Push hgt s q) = [s]"
  by (simp add: SegmentQueue_Push_def heap_Push_never)

lemma pop_single: "pq q = [s] \<Longrightarrow> SegmentQueue_Pop hgt q = (Some s, q\<lparr>pq := []\<rparr>)"
  by (simp add: SegmentQueue_Pop_def heap_Pop_never)

lemma linkFirstBlock_Ok:
  fixes w w' :: "('e, 'z) chain_world_scheme"
  assumes X: "store_ok X" and mem: "segmentMap w = Map.empty" and q: "pq (segmentQueue w) = []"
    and run: "linkFirstBlock X c header r uid w = (Ok (), w')"
  obtains b st where "blk_of X c (ext w) r = Ok b" "block_view X c (ext w) (GetObjectDigest r) = Ok st"
    "segmentMap w' = [uid \<mapsto> first_state X uid b r]" "pq (segmentQueue w') = [uid]"
    "lastBlock w' = Some (b\<lparr>b_State := st\<lparr>bs_SegmentId := uid\<rparr>\<rparr>)" "lastBlockHeader w' = Some header"
    "same_objs X (ext w) (ext w')"
    "block_view X c (ext w') = (block_view X c (ext w))(GetObjectDigest r := Ok (st\<lparr>bs_SegmentId := uid\<rparr>))"
    "seg_view X c (ext w') = (seg_view X c (ext w))(uid := Ok (first_state X uid b r))"
proof -
  from run obtain blk x w2 where g: "GetBlock X (c_encStrat c) (GetBlockDbm c) r w = (Ok blk, w)"
    and new: "NewSegment X (segStoreDbm c) uid blk r w = (Ok x, w2)"
    by (auto simp: linkFirstBlock_def gbind_Ok_iff keeps_all_eq [OF keeps_GetBlock])
  from g obtain b st where b: "blk_of X c (ext w) r = Ok b" "block_view X c (ext w) (GetObjectDigest r) = Ok st"
    and blk: "blk = b\<lparr>b_State := st\<rparr>" unfolding GetBlock_view_Ok by blast
  note bf = blk_of_fields [OF b(1)]
  have kb: "b_dbm blk = GetBlockDbm c" "b_dbKey blk = ''/'' @ b64_encode (GetObjectDigest r)" using bf blk by simp_all
  have mem1: "segmentMap w uid = None" using mem by simp
  have fs: "first_state X uid blk r = first_state X uid b r" using blk by (simp add: first_state_def)
  let ?blk = "b\<lparr>b_State := st\<lparr>bs_SegmentId := uid\<rparr>\<rparr>"
  obtain e' where x: "x = (uid, ?blk)" and e': "same_objs X (ext w) e'"
    and w2: "w2 = (let w1 = w\<lparr>segmentMap := (segmentMap w)(uid \<mapsto> first_state X uid b r), ext := e'\<rparr> in
       w1\<lparr>segmentQueue := SegmentQueue_Push (tail_height X w1) uid (segmentQueue w)\<rparr>)"
    and bv: "block_view X c e' = (block_view X c (ext w))(GetObjectDigest r := Ok (st\<lparr>bs_SegmentId := uid\<rparr>))"
    and sv: "seg_view X c e' = (seg_view X c (ext w))(uid := Ok (first_state X uid b r))"
    by (rule NewSegment_written [OF X mem1 kb new, unfolded fs]) (use blk in simp)
  have f2: "ext w2 = e'" "segmentMap w2 = [uid \<mapsto> first_state X uid b r]" "pq (segmentQueue w2) = [uid]"
    using w2 mem q by (simp_all add: Let_def push_empty)
  have id: "ss_Id (seg_state X uid w2) = uid" using f2(2) by (simp add: seg_state_def first_state_def)
  from run g new x id obtain w3 w4 where
    w3: "Block_WriteState X ?blk w2 = (Ok (), w3)"
    and w4: "Chain_writeState X c (w3\<lparr>ch_state := \<lparr>cs_StateSegment = uid, cs_LastHeight = 0, cs_LastRound = 0\<rparr>\<rparr>) = (Ok (), w4)"
    and w': "w' = w4\<lparr>lastBlockHeader := Some header, lastBlockRef := r, lastBlock := Some ?blk,
       lastHeadDigest := GetObjectDigest r\<rparr>"
    by (auto simp: linkFirstBlock_def gbind_Ok_iff Let_def)
  have kb': "b_dbm ?blk = GetBlockDbm c" "b_dbKey ?blk = ''/'' @ b64_encode (GetObjectDigest r)" using bf by simp_all
  obtain e3 where e3: "w3 = w2\<lparr>ext := e3\<rparr>" "same_objs X (ext w2) e3"
    "block_view X c e3 = (block_view X c (ext w2))(GetObjectDigest r := Ok (b_State ?blk))"
    "seg_view X c e3 = seg_view X c (ext w2)"
    by (rule Block_written_view [OF X kb' w3])
  note v4 = writeState_view [OF X w4]
  have "same_objs X (ext w) (ext w')"
    using same_objs_trans [OF same_objs_trans [OF e'] v4(1)] e3 f2(1) w' by simp
  then show thesis
    by (intro that [OF b]) (use v4 e3 f2 bv sv w' in simp_all)
qed

text \<open>Nothing stops it when the services accept writes and the block can be read.\<close>

lemma linkFirstBlock_writes:
  fixes w :: "('e, 'z) chain_world_scheme"
  assumes X: "store_ok X" "writes_ok X" and mem: "segmentMap w = Map.empty"
    and b: "blk_of X c (ext w) r = Ok b" "block_view X c (ext w) (GetObjectDigest r) = Ok st"
    and enc: "marshal (pb_chain_state X) \<lparr>cs_StateSegment = uid, cs_LastHeight = 0, cs_LastRound = 0\<rparr> = Inr bs"
  shows "\<exists>w'. linkFirstBlock X c header r uid w = (Ok (), w')"
proof -
  let ?b = "b\<lparr>b_State := st\<rparr>"
  let ?b' = "b\<lparr>b_State := st\<lparr>bs_SegmentId := uid\<rparr>\<rparr>"
  let ?cs = "\<lparr>cs_StateSegment = uid, cs_LastHeight = 0, cs_LastRound = 0\<rparr>"
  note bf = blk_of_fields [OF b(1)]
  have g: "GetBlock X (c_encStrat c) (GetBlockDbm c) r w = (Ok ?b, w)" using b by (simp add: GetBlock_view)
  have kb: "b_dbm ?b = GetBlockDbm c" "b_dbKey ?b = ''/'' @ b64_encode (GetObjectDigest r)"
    "b_dbm ?b' = GetBlockDbm c" "b_dbKey ?b' = ''/'' @ b64_encode (GetObjectDigest r)" using bf by simp_all
  have mem1: "segmentMap w uid = None" using mem by simp
  obtain x w1 where new: "NewSegment X (segStoreDbm c) uid ?b r w = (Ok x, w1)"
    using NewSegment_writes [OF X mem1 kb(1,2)] by blast
  obtain e1 where x: "x = (uid, ?b')" and w1: "w1 = (let w1 = w\<lparr>segmentMap := (segmentMap w)(uid \<mapsto> first_state X uid ?b r), ext := e1\<rparr> in
       w1\<lparr>segmentQueue := SegmentQueue_Push (tail_height X w1) uid (segmentQueue w)\<rparr>)"
    by (rule NewSegment_written [OF X(1) mem1 kb(1,2) new]) simp
  have id: "ss_Id (seg_state X uid w1) = uid" using w1 by (simp add: Let_def seg_state_def first_state_def)
  obtain e2 where e2: "Block_WriteState X ?b' w1 = (Ok (), w1\<lparr>ext := e2\<rparr>)" by (rule Block_write_view [OF X kb(3,4)])
  let ?w2 = "w1\<lparr>ext := e2, ch_state := ?cs\<rparr>"
  obtain e3 where "db_set X e2 (c_dbm c) (Chain_dbKey c) bs = (Inr (), e3)"
    using X(2) unfolding writes_ok_def by blast
  then obtain w3 where w3: "Chain_writeState X c ?w2 = (Ok (), w3)"
    using enc by (auto simp: Chain_writeState_def write_slot_def gbind_def gasks_def gmodify_def triggerStateRecheck_def)
  show ?thesis
    using g new x id e2 w3 by (simp add: linkFirstBlock_def gbind_def gasks_def gmodify_def Let_def)
qed

lemma NewChain_links:
  assumes "NewChain X dbm cid priv bv gs rnd wrap ts ts2 uid0 uid w0 = (Ok (c, conf), w)"
  obtains w1 header ref where "stores_apart X c \<longrightarrow> blank X c (ext w0) \<longrightarrow> blank X c (ext w1)"
    "segmentMap w1 = Map.empty" "pq (segmentQueue w1) = []" "hdr_LastBlockRef header = None"
    "linkFirstBlock X c header ref uid w1 = (Ok (), w)"
proof -
  from assms obtain p w2 vid where m: "mintGenesis X cid priv rnd wrap ts w0 = (Ok p, w2)"
    and f: "mintFirstBlock X c priv vid gs ts2 uid0 uid (fresh_chain w2) = (Ok (), w)"
    by (auto simp: NewChain_def Let_def gbind_Ok_iff split: if_splits)
  obtain e ref where e: "stores_apart X c \<longrightarrow> blank X c (ext (fresh_chain w2)) \<longrightarrow> blank X c e"
    and l: "linkFirstBlock X c (firstBlockHeader (c_GenesisRef c) (gen_InitChainConfigRef (c_genesis c)) ts2 (pretty_id X vid) gs)
       ref uid ((fresh_chain w2)\<lparr>ext := e\<rparr>) = (Ok (), w)"
    by (rule mintFirstBlock_links [OF f, where c = c])
  have "stores_apart X c \<longrightarrow> blank X c (ext w0) \<longrightarrow> blank X c e"
    using e keepsD [OF mintGenesis_blank m] by (simp add: fresh_chain_def)
  then show thesis
    by (intro that [OF _ _ _ _ l]) (simp_all add: fresh_chain_def NewSegmentQueue_def heap_Init_def firstBlockHeader_def)
qed

lemma NewChain_lists:
  assumes X: "store_ok X" and apart: "stores_apart X c" and blank: "blank X c (ext w0)" and uid: "uid \<noteq> ''''"
    and run: "NewChain X dbm cid priv bv gs rnd wrap ts ts2 uid0 uid w0 = (Ok (c, conf), w)"
  shows "\<exists>r. seg_lists X c (ext w) (segmentMap w) [uid \<mapsto> [r]]"
proof -
  from run obtain w1 header r where b: "stores_apart X c \<longrightarrow> blank X c (ext w0) \<longrightarrow> blank X c (ext w1)"
    and m: "segmentMap w1 = Map.empty" "pq (segmentQueue w1) = []"
    and l: "linkFirstBlock X c header r uid w1 = (Ok (), w)" by (rule NewChain_links)
  from b apart blank have bl: "blank X c (ext w1)" by blast
  from l obtain b st where b: "blk_of X c (ext w1) r = Ok b" "block_view X c (ext w1) (GetObjectDigest r) = Ok st"
    and mem: "segmentMap w = [uid \<mapsto> first_state X uid b r]" and same: "same_objs X (ext w1) (ext w)"
    and bv: "block_view X c (ext w) = (block_view X c (ext w1))(GetObjectDigest r := Ok (st\<lparr>bs_SegmentId := uid\<rparr>))"
    and sv: "seg_view X c (ext w) = (seg_view X c (ext w1))(uid := Ok (first_state X uid b r))"
    by (rule linkFirstBlock_Ok [OF X m])
  from b(2) bl have st: "st = zero_block" by (simp add: blank_def)
  have "lists_of (\<lambda>sid. (zero_segment X)\<lparr>ss_Id := sid\<rparr>) (follows X c (ext w1)) (obeys X c (ext w1)) (accepts X c (ext w1))
      (block_view X c (ext w)) (seg_view X c (ext w)) (Map.empty(uid \<mapsto> first_state X uid b r)) (Map.empty(uid \<mapsto> [r]))"
    unfolding bv sv st
    using lists_of_new [OF blank_lists [OF bl, unfolded seg_lists_def] uid _ blk_of_fields(5) [OF b(1)],
        of "first_state X uid b r"] b(2) st
    by (simp add: first_state_def)
  then show ?thesis using mem by (auto simp: seg_lists_def same_objs_views [OF same])
qed

section \<open>A chain is loaded\<close>

lemma seg_lists_chain:
  assumes "c_dbm c' = c_dbm c" "gen_ChainId (c_genesis c') = gen_ChainId (c_genesis c)" "c_encStrat c' = c_encStrat c"
  shows "seg_lists X c' = seg_lists X c"
proof -
  have db: "GetBlockDbm c' = GetBlockDbm c" "segStoreDbm c' = segStoreDbm c"
    using assms by (simp_all add: GetBlockDbm_def segStoreDbm_def)
  have "blk_of X c' = blk_of X c"
    by (simp add: fun_eq_iff blk_of_def follow_blk_def follow_hdr_def db assms)
  then show ?thesis
    by (simp add: fun_eq_iff seg_lists_def follows_def [abs_def] obeys_def [abs_def] accepts_def [abs_def] block_view_def [abs_def]
        seg_view_def [abs_def] db)
qed

lemma FromConfig_lists:
  assumes run: "FromConfig X known reg (c_dbm c) conf bv w0 = (Ok c', w')" and L: "seg_lists X c (ext w0) m A"
    and same: "gen_ChainId (c_genesis c') = gen_ChainId (c_genesis c)" "c_encStrat c' = c_encStrat c"
  shows "seg_lists X c' (ext w') (segmentMap w') A"
proof -
  note ld = FromConfig_parts [OF run]
  from ld(1) have "ext w' = ext w0" "segmentMap w' = Map.empty"
    by (auto simp: Chain_readState_def gbind_Ok_iff read_slot_eq fresh_chain_def)
  moreover have "seg_lists X c (ext w0) Map.empty A" using L by (auto simp: seg_lists_def lists_of_def)
  ultimately show ?thesis using seg_lists_chain [OF ld(2) same, of X] by simp
qed

section \<open>The life of a chain\<close>

inductive life :: "('e, 'x) externals_scheme \<Rightarrow> chain \<Rightarrow> ('e, 'z) chain_world_scheme \<Rightarrow> bool" for X where
  life_new: "NewChain X dbm cid priv bv gs rnd wrap ts ts2 uid0 uid w0 = (Ok (c, conf :: bytes chain_conf), w) \<Longrightarrow>
    uid \<noteq> '''' \<Longrightarrow> stores_apart X c \<Longrightarrow> blank X c (ext w0) \<Longrightarrow> life X c w"
| life_step: "life X c w \<Longrightarrow> live_step X c w w' \<Longrightarrow> life X c w'"
| life_restart: "life X c w \<Longrightarrow> ext w0 = ext w \<Longrightarrow>
    FromConfig X known reg (c_dbm c) (conf :: bytes chain_conf) bv w0 = (Ok c', w') \<Longrightarrow>
    gen_ChainId (c_genesis c') = gen_ChainId (c_genesis c) \<Longrightarrow> c_encStrat c' = c_encStrat c \<Longrightarrow> life X c' w'"

lemma life_lists:
  assumes X: "store_ok X" "writes_ok X" and "life X c w"
  shows "\<exists>A. seg_lists X c (ext w) (segmentMap w) A"
  using assms(3)
proof (induction rule: life.induct)
  case (life_new dbm cid priv bv gs rnd wrap ts ts2 uid0 uid w0 c conf w)
  then show ?case using NewChain_lists [OF X(1)] by blast
next
  case (life_step c w w')
  then show ?case using live_step_lists [OF X] by blast
next
  case (life_restart c w w0 known reg conf bv c' w')
  then show ?case using FromConfig_lists by metis
qed

text \<open>A segment in memory that has a tail is a list from its tail to its head.\<close>

lemma life_segment:
  assumes X: "store_ok X" "writes_ok X" and life: "life X c w"
    and st: "segmentMap w sid = Some st" "ss_TailBlock st \<noteq> None"
  obtains rs where "list_of (follows X c (ext w)) (obeys X c (ext w)) (block_view X c (ext w)) sid rs st"
    "seg_view X c (ext w) sid = Ok st"
proof -
  obtain A where L: "seg_lists X c (ext w) (segmentMap w) A" using life_lists [OF X life] by blast
  have s: "seg_state X sid w = st" using st(1) by (simp add: seg_state_def)
  from lists_with_tail [OF L, of sid] st s obtain rs where A: "A sid = Some rs" "segmentMap w sid \<noteq> None" by auto
  from lists_state [OF L A] s show thesis by (intro that) simp_all
qed

lemma successively_nth: "successively P xs \<Longrightarrow> Suc i < length xs \<Longrightarrow> P (xs ! i) (xs ! Suc i)"
  by (simp add: successively_conv_nth)

lemma chained_nth:
  "chained B sid rs \<Longrightarrow> i < length rs \<Longrightarrow>
     B (GetObjectDigest (rs ! i)) = Ok \<lparr>bs_SegmentId = sid, bs_NextBlock = (if Suc i < length rs then rs ! Suc i else None)\<rparr>"
proof (induction B sid rs arbitrary: i rule: chained.induct)
  case (3 B sid r s rs)
  then show ?case by (cases i) auto
qed auto

text \<open>C7: throughout the life of a chain, over restarts and any order of operations, a segment is a list of
  distinct blocks from its tail to its head: each block's record in the database names the segment and the
  block after it, each block names the one before it as its last block, and when the segment is not invalid
  each block satisfies the child rule after the one before it. What memory holds of the segment is what
  the database holds.\<close>

theorem segment_blocks_obey:
  assumes "store_ok X" "writes_ok X" and "life X c w" and "segmentMap w sid = Some st" "ss_TailBlock st \<noteq> None"
  shows "seg_view X c (ext w) sid = Ok st \<and>
    (\<exists>rs. rs \<noteq> [] \<and> hd rs = ss_TailBlock st \<and> last rs = ss_HeadBlock st \<and> distinct (map GetObjectDigest rs) \<and>
      (\<forall>i < length rs. block_view X c (ext w) (GetObjectDigest (rs ! i)) =
         Ok \<lparr>bs_SegmentId = sid, bs_NextBlock = (if Suc i < length rs then rs ! Suc i else None)\<rparr>) \<and>
      (\<forall>i. Suc i < length rs \<longrightarrow> follows X c (ext w) (rs ! i) (rs ! Suc i)) \<and>
      (ss_Status st \<noteq> INVALID \<longrightarrow> (\<forall>i. Suc i < length rs \<longrightarrow> obeys X c (ext w) (rs ! i) (rs ! Suc i))))"
proof -
  from assms obtain rs where "list_of (follows X c (ext w)) (obeys X c (ext w)) (block_view X c (ext w)) sid rs st"
    "seg_view X c (ext w) sid = Ok st" by (rule life_segment)
  then show ?thesis
    by (intro conjI exI [of _ rs]) (auto simp: list_of_def chained_nth successively_nth)
qed

text \<open>References to the same digest lead to the same object.\<close>

definition content_addressed :: "('e, 'x) externals_scheme \<Rightarrow> bool" where
  "content_addressed X \<longleftrightarrow> (\<forall>e r r' k. GetObjectDigest r = GetObjectDigest r' \<longrightarrow>
     follow_block X e r k (GetObjectDigest r) = follow_block X e r' k (GetObjectDigest r'))"

lemma blk_of_digest:
  assumes "content_addressed X" "GetObjectDigest r' = GetObjectDigest r" "blk_of X c e r = Ok b"
  obtains b' where "blk_of X c e r' = Ok b'" "b_header b' = b_header b"
proof -
  have "follow_block X e r' k (GetObjectDigest r') = follow_block X e r k (GetObjectDigest r)" for k
    using assms(1,2) unfolding content_addressed_def by blast
  then have "follow_blk X c e r' = follow_blk X c e r" using assms(2) by (simp add: follow_blk_def)
  with assms(3) that show thesis by (auto simp: blk_of_def rbind_def split: res.splits)
qed

lemma obeys_step:
  assumes "content_addressed X" "obeys X c e p r"
  obtains pb rb where "blk_of X c e p = Ok pb" "blk_of X c e r = Ok rb" "block_height rb = block_height pb + 1"
    "block_time X pb \<le> block_time X rb"
proof -
  from assms(2) obtain rb pb where rb: "blk_of X c e r = Ok rb" and pb: "blk_of X c e (hdr_LastBlockRef (b_header rb)) = Ok pb"
    and d: "GetObjectDigest (hdr_LastBlockRef (b_header rb)) = GetObjectDigest p" and v: "valid_child X e pb rb"
    unfolding obeys_def by blast
  obtain pb' where pb': "blk_of X c e p = Ok pb'" "b_header pb' = b_header pb"
    by (rule blk_of_digest [OF assms(1) d [symmetric] pb])
  show thesis by (rule that [OF pb'(1) rb]) (use v pb'(2) in \<open>simp_all add: valid_child_def block_height_def block_time_def\<close>)
qed

lemma obeys_path:
  assumes "content_addressed X" "successively (obeys X c e) rs" "i + k < length rs"
    and "blk_of X c e (rs ! i) = Ok bi" "blk_of X c e (rs ! (i + k)) = Ok bk"
  shows "block_height bk = block_height bi + of_nat k \<and> block_time X bi \<le> block_time X bk"
  using assms(3,5)
proof (induction k arbitrary: bk)
  case 0
  with assms(4) show ?case by simp
next
  case (Suc k)
  have "obeys X c e (rs ! (i + k)) (rs ! Suc (i + k))" by (rule successively_nth [OF assms(2)]) (use Suc.prems in simp)
  then obtain pb rb where b: "blk_of X c e (rs ! (i + k)) = Ok pb" "blk_of X c e (rs ! Suc (i + k)) = Ok rb"
    "block_height rb = block_height pb + 1" "block_time X pb \<le> block_time X rb" by (rule obeys_step [OF assms(1)])
  from Suc.IH [OF _ b(1)] Suc.prems b(2,3,4) show ?case by (auto simp: algebra_simps)
qed

text \<open>The blocks of such a list can all be read if the first one can.\<close>

lemma obeys_readable:
  assumes "content_addressed X" "successively (obeys X c e) rs" "rs \<noteq> []" "blk_of X c e (hd rs) = Ok tb" "i < length rs"
  shows "\<exists>b. blk_of X c e (rs ! i) = Ok b"
proof (cases i)
  case 0
  with assms(3,4) show ?thesis by (simp add: hd_conv_nth)
next
  case (Suc k)
  then have "obeys X c e (rs ! k) (rs ! Suc k)" using successively_nth [OF assms(2)] assms(5) by simp
  with Suc show ?thesis by (auto elim: obeys_step [OF assms(1)])
qed

text \<open>C8: a segment that is not invalid counts heights. At any time in the life of a chain it is a list of distinct blocks, from
  its tail to its head, whose records in the database name the segment and the block after each; if its tail can be read, so can all
  its blocks, the height of the block at position \<open>i\<close> is that of the tail plus \<open>i\<close>, modulo the 64 bits of a height, and
  timestamps never decrease along the list.\<close>

theorem segment_heights:
  assumes "store_ok X" "writes_ok X" "content_addressed X" and "life X c w"
    and "segmentMap w sid = Some st" "ss_TailBlock st \<noteq> None" "ss_Status st \<noteq> INVALID"
    and tb: "blk_of X c (ext w) (ss_TailBlock st) = Ok tb"
  shows "\<exists>rs bs. rs \<noteq> [] \<and> hd rs = ss_TailBlock st \<and> last rs = ss_HeadBlock st \<and> distinct (map GetObjectDigest rs) \<and>
    length bs = length rs \<and>
    (\<forall>i < length rs. block_view X c (ext w) (GetObjectDigest (rs ! i)) =
         Ok \<lparr>bs_SegmentId = sid, bs_NextBlock = (if Suc i < length rs then rs ! Suc i else None)\<rparr> \<and>
       blk_of X c (ext w) (rs ! i) = Ok (bs ! i) \<and> block_height (bs ! i) = block_height tb + of_nat i) \<and>
    (\<forall>j < length rs. \<forall>i \<le> j. block_time X (bs ! i) \<le> block_time X (bs ! j))"
proof -
  from assms(1,2,4-6) obtain rs where rs: "list_of (follows X c (ext w)) (obeys X c (ext w)) (block_view X c (ext w)) sid rs st"
    by (rule life_segment)
  then have l: "rs \<noteq> []" "hd rs = ss_TailBlock st" "last rs = ss_HeadBlock st" "distinct (map GetObjectDigest rs)"
      "chained (block_view X c (ext w)) sid rs" and obeys: "successively (obeys X c (ext w)) rs"
    using assms(7) by (simp_all add: list_of_def)
  define bs where "bs = map (\<lambda>r. case blk_of X c (ext w) r of Ok b \<Rightarrow> b | _ \<Rightarrow> tb) rs"
  have blk: "blk_of X c (ext w) (rs ! i) = Ok (bs ! i)" if "i < length rs" for i
    using obeys_readable [OF assms(3) obeys l(1) _ that] tb l(2) that by (auto simp: bs_def)
  have path: "block_height (bs ! j) = block_height (bs ! i) + of_nat (j - i) \<and> block_time X (bs ! i) \<le> block_time X (bs ! j)"
    if "i \<le> j" "j < length rs" for i j
    using obeys_path [OF assms(3) obeys, of i "j - i"] blk that by simp
  have "bs ! 0 = tb" using blk [of 0] l(1,2) tb by (simp add: hd_conv_nth)
  with path [of 0] have "block_height (bs ! i) = block_height tb + of_nat i" if "i < length rs" for i using that by simp
  with l blk path show ?thesis by (intro exI [of _ rs] exI [of _ bs]) (simp add: chained_nth bs_def)
qed

section \<open>The queue of segments to rewind\<close>

text \<open>C38: a chain that was just created panics as soon as it rewinds. \<open>NewChain\<close> leaves the segment of the first
  block in the queue, disjointed; the block has no block before it, and the first iteration of the rewind
  loop, which the new chain starts, ends in a panic while it computes the encryption key of that block. The
  hypothesis says that the first block's header was read back as it was stored.\<close>

theorem minted_chain_panics:
  assumes X: "store_ok X" and run: "NewChain X dbm cid priv bv gs rnd wrap ts ts2 uid0 uid w0 = (Ok (c, conf), w)"
    and stored: "lastBlock w = Some b" "lastBlockHeader w = Some (b_header b)"
  shows "fst (manageSegmentRewindOnce X (SetBlockValidator v c) w) = Panic"
proof -
  from run obtain w1 header r where m: "segmentMap w1 = Map.empty" "pq (segmentQueue w1) = []"
    and h: "hdr_LastBlockRef header = None" and l: "linkFirstBlock X c header r uid w1 = (Ok (), w)"
    by (rule NewChain_links)
  from l obtain b0 st where b0: "blk_of X c (ext w1) r = Ok b0"
    and mem: "segmentMap w = [uid \<mapsto> first_state X uid b0 r]" and q: "pq (segmentQueue w) = [uid]"
    and b: "lastBlock w = Some (b0\<lparr>b_State := st\<lparr>bs_SegmentId := uid\<rparr>\<rparr>)" "lastBlockHeader w = Some header"
    and same: "same_objs X (ext w1) (ext w)"
    and bv: "block_view X c (ext w) = (block_view X c (ext w1))(GetObjectDigest r := Ok (st\<lparr>bs_SegmentId := uid\<rparr>))"
    by (rule linkFirstBlock_Ok [OF X m])
  have hb: "hdr_LastBlockRef (b_header b0) = None" using stored b h by auto
  let ?w = "w\<lparr>segmentQueue := (segmentQueue w)\<lparr>pq := []\<rparr>\<rparr>"
  have s: "seg_state X uid ?w = first_state X uid b0 r" using mem by (simp add: seg_state_def)
  have "GetBlock X (c_encStrat c) (GetBlockDbm c) r ?w = (Ok (b0\<lparr>b_State := st\<lparr>bs_SegmentId := uid\<rparr>\<rparr>), ?w)"
    using b0 bv by (simp add: GetBlock_view same_objs_views [OF same])
  then have "Segment_RewindOnce X (segStoreDbm c) uid (c_encStrat c) v (GetBlockDbm c) ?w = (Panic, ?w)"
    using s hb
    by (intro rewind_at_genesis_panics [where tb = "b0\<lparr>b_State := st\<lparr>bs_SegmentId := uid\<rparr>\<rparr>"])
       (simp_all add: first_state_def)
  moreover have "queue_pop X w = (Ok (Some uid), ?w)" using q by (simp add: queue_pop_def pop_single)
  ultimately show ?thesis
    by (simp add: manageSegmentRewindOnce_def SegmentStore_RewindOnce_def SetBlockValidator_def segStoreDbm_def
        GetBlockDbm_def gbind_def gtry_def)
qed

text \<open>A restart forgets which segments are to be rewound: a loaded chain has nothing to rewind, whatever
  disjointed segments its database holds, until a commit starts another one.\<close>

lemma restart_forgets_rewinds:
  assumes "FromConfig X known reg dbm conf bv w0 = (Ok c, w)"
  shows "manageSegmentRewindOnce X c w = (Ok False, w)"
proof -
  from FromConfig_parts(1) [OF assms] have "segmentQueue w = NewSegmentQueue (\<lambda>_. 0)"
    by (auto simp: Chain_readState_def gbind_Ok_iff read_slot_eq fresh_chain_def)
  then have "queue_pop X w = (Ok None, w)"
    by (simp add: queue_pop_def SegmentQueue_Pop_def NewSegmentQueue_def heap_Init_def)
  then show ?thesis by (simp add: manageSegmentRewindOnce_def SegmentStore_RewindOnce_def gbind_def)
qed

end
