(* ===== verification/Rewinds.thy ===== *)
theory Rewinds
  imports SegLife
begin

text \<open>
  The rewind loop of a chain (\<open>manageSegmentRewind\<close> in \<^verbatim>\<open>chain/chain.go\<close>) comes to rest. Every iteration that
  goes on at once has taken a segment off the queue and put back at most one, whose tail is lower: the same
  segment after a block before its tail was included, or the segment before it. The heights of the tails bound
  the number of iterations.
\<close>

section \<open>The loop\<close>

text \<open>\<open>n\<close> iterations of the loop, or fewer when it comes to wait; \<open>True\<close> when it has not come to wait.\<close>

fun manageSegmentRewind_run :: "('e, 'x) externals_scheme \<Rightarrow> chain \<Rightarrow> nat \<Rightarrow> (('e, 'z) chain_world_scheme, bool) go" where
  "manageSegmentRewind_run X c 0 = gret True"
| "manageSegmentRewind_run X c (Suc n) =
     gbind (manageSegmentRewindOnce X c) (\<lambda>matchedAny.
       if matchedAny then manageSegmentRewind_run X c n else gret False)"

section \<open>What an iteration leaves alone\<close>

text \<open>The objects behind references, and the tails \<open>T\<close> of segments in memory.\<close>

definition tails_kept ::
  "('e, 'x) externals_scheme \<Rightarrow> 'e \<Rightarrow> (string \<rightharpoonup> sref) \<Rightarrow> ('e, 'z) seg_world_scheme \<Rightarrow> bool" where
  "tails_kept X e T w \<longleftrightarrow> same_objs X e (ext w) \<and>
     (\<forall>t r. T t = Some r \<longrightarrow> (\<exists>st. segmentMap w t = Some st \<and> ss_TailBlock st = r))"

lemma tails_kept_state: "tails_kept X e T w \<Longrightarrow> T t = Some r \<Longrightarrow> ss_TailBlock (seg_state X t w) = r"
  unfolding tails_kept_def seg_state_def by fastforce

lemma tails_kept_upd:
  "tails_kept X e T w \<Longrightarrow> (\<And>r. T sid = Some r \<Longrightarrow> ss_TailBlock st = r) \<Longrightarrow>
     tails_kept X e T (w\<lparr>segmentMap := (segmentMap w)(sid \<mapsto> st)\<rparr>)"
  by (auto simp: tails_kept_def)

lemma tails_kept_frame [simp]: "tails_kept X e T (w\<lparr>segmentQueue := q\<rparr>) = tails_kept X e T w"
  by (simp add: tails_kept_def)

lemma write_slot_keeps_tails: "objects_ok X \<Longrightarrow> keeps (tails_kept X e T) (write_slot X cd h k v)"
proof (rule keepsI)
  fix w assume ok: "objects_ok X" and P: "tails_kept X e T w"
  obtain x w' where run: "write_slot X cd h k v w = (x, w')" by force
  then obtain e' where "w' = w\<lparr>ext := e'\<rparr>" by (rule write_slot_frame)
  moreover have "same_objs X (ext w) (ext w')"
    using write_slot_objects [OF ok run] by (simp add: same_objs_def)
  ultimately show "tails_kept X e T (snd (write_slot X cd h k v w))"
    using P run same_objs_trans by (fastforce simp: tails_kept_def)
qed

lemma tails_kept_rules:
  assumes "objects_ok X"
  shows "keeps (tails_kept X e T) (Segment_writeState X sdb sid)" "keeps (tails_kept X e T) (Block_WriteState X b)"
    "keeps (tails_kept X e T) (GetSegmentById X sdb sid)" "keeps (tails_kept X e T) (MarkValid X sdb sid)"
    "keeps (tails_kept X e T) (AppendSegment X sdb sid n s v h)"
proof -
  show ws: "keeps (tails_kept X e T) (Segment_writeState X sdb sid)" for sid
    unfolding Segment_writeState_def by (intro keeps_gbind keeps_gasks write_slot_keeps_tails assms)
  show "keeps (tails_kept X e T) (Block_WriteState X b)"
    unfolding Block_WriteState_def by (intro keeps_gbind keeps_gasks write_slot_keeps_tails assms)
  show "keeps (tails_kept X e T) (GetSegmentById X sdb sid)"
    by (rule keeps_GetSegmentById) (fastforce simp: tails_kept_def)
  show "keeps (tails_kept X e T) (MarkValid X sdb sid)"
    unfolding MarkValid_def by (intro ws keeps_intros) (auto intro!: tails_kept_upd dest: tails_kept_state)
  show "keeps (tails_kept X e T) (AppendSegment X sdb sid n s v h)"
    unfolding AppendSegment_def by (intro ws keeps_intros) (auto intro!: tails_kept_upd dest: tails_kept_state)
qed

lemma RewindOnce_keeps_tails:
  assumes "objects_ok X" "T sid = None"
  shows "keeps (tails_kept X e T) (Segment_RewindOnce X sdb sid s v h)"
  unfolding Segment_RewindOnce_def Let_def
  by (intro tails_kept_rules [OF assms(1)] keeps_intros) (use assms(2) in \<open>auto intro: tails_kept_upd\<close>)

lemma setHeadBlock_keeps_tails: "objects_ok X \<Longrightarrow> keeps (tails_kept X e T) (setHeadBlock X c b)"
  unfolding setHeadBlock_def Chain_writeState_def triggerStateRecheck_def
  by (intro write_slot_keeps_tails keeps_intros) (simp_all add: tails_kept_def)

lemma HandleSegmentUpdated_keeps_tails:
  assumes "objects_ok X"
  shows "keeps (tails_kept X e T) (HandleSegmentUpdated X c seg)"
  unfolding HandleSegmentUpdated_def markAsHead_def Let_def
  by (intro tails_kept_rules(4) [OF assms] setHeadBlock_keeps_tails [OF assms] keeps_intros)

text \<open>The queue.\<close>

lemma queue_kept:
  "keeps (\<lambda>w. segmentQueue w = q) (Segment_RewindOnce X sdb sid s v h)"
  "keeps (\<lambda>w. segmentQueue w = q) (GetSegmentById X sdb sid)"
  "keeps (\<lambda>w. segmentQueue w = q) (HandleSegmentUpdated X c seg)"
proof -
  have append: "keeps (\<lambda>w. segmentQueue w = q) (AppendSegment X sdb sid n s v h)" for sid n
    unfolding AppendSegment_def by (intro keeps_intros) simp_all
  show get: "keeps (\<lambda>w. segmentQueue w = q) (GetSegmentById X sdb sid)" for sid
    by (rule keeps_GetSegmentById) simp
  show "keeps (\<lambda>w. segmentQueue w = q) (Segment_RewindOnce X sdb sid s v h)"
    unfolding Segment_RewindOnce_def Let_def by (intro append get keeps_intros) simp_all
  have "keeps (\<lambda>w. segmentQueue w = q) (MarkValid X sdb sid)" for sdb sid
    unfolding MarkValid_def by (intro keeps_intros) simp_all
  then show "keeps (\<lambda>w. segmentQueue w = q) (HandleSegmentUpdated X c seg)"
    by (intro HandleSegmentUpdated_keeps) (simp add: chain_free_def)
qed

section \<open>Where a rewind leads\<close>

definition height_at :: "('e, 'x) externals_scheme \<Rightarrow> chain \<Rightarrow> 'e \<Rightarrow> sref \<Rightarrow> nat" where
  "height_at X c e r = (case blk_of X c e r of Ok b \<Rightarrow> unat (block_height b) | _ \<Rightarrow> 0)"

text \<open>No block has the largest height of 64 bits, so that the height after it does not wrap around.\<close>

definition heights_bounded :: "('e, 'x) externals_scheme \<Rightarrow> chain \<Rightarrow> 'e \<Rightarrow> bool" where
  "heights_bounded X c e \<longleftrightarrow> (\<forall>r b. blk_of X c e r = Ok b \<longrightarrow> block_height b \<noteq> - 1)"

lemma height_step:
  assumes "heights_bounded X c e" "blk_of X c e p = Ok pb" "blk_of X c e r = Ok rb" "block_height rb = block_height pb + 1"
  shows "height_at X c e r = Suc (height_at X c e p)"
proof -
  have "block_height pb \<noteq> - 1" using assms(1,2) unfolding heights_bounded_def by blast
  then have "1 + block_height pb \<noteq> 0" unfolding eq_neg_iff_add_eq_0 by (subst add.commute)
  then have "unat (1 + block_height pb) = Suc (unat (block_height pb))" by (rule unatSuc)
  with assms(2-4) show ?thesis by (simp add: height_at_def add.commute)
qed

lemma accepts_height:
  "heights_bounded X c e \<Longrightarrow> accepts X c e p r \<Longrightarrow> height_at X c e r = Suc (height_at X c e p)"
  by (auto simp: accepts_def valid_child_def intro: height_step)

lemma obeys_height:
  assumes "content_addressed X" "heights_bounded X c e" "obeys X c e p r"
  shows "height_at X c e r = Suc (height_at X c e p)"
  by (rule obeys_step [OF assms(1,3)]) (use height_step [OF assms(2)] in blast)

lemma obeys_list_height:
  assumes "content_addressed X" "heights_bounded X c e"
  shows "successively (obeys X c e) rs \<Longrightarrow> q \<in> set rs \<Longrightarrow> height_at X c e (hd rs) \<le> height_at X c e q"
proof (induction rs)
  case (Cons r rs)
  show ?case
  proof (cases rs)
    case (Cons s ss)
    with Cons.prems have "height_at X c e s = Suc (height_at X c e r)"
      using obeys_height [OF assms] by simp
    with Cons.IH Cons.prems Cons show ?thesis by auto
  qed (use Cons.prems in simp)
qed simp

lemma same_objs_heights: "same_objs X e e' \<Longrightarrow> height_at X c e' = height_at X c e"
  by (simp add: fun_eq_iff height_at_def same_objs_views)

text \<open>Joining gives the segment a verdict or a segment before it, and does not move its tail.\<close>

lemma AppendSegment_after:
  fixes w w' :: "('e, 'z) seg_world_scheme"
  assumes ne: "sid \<noteq> next" and id: "ss_Id (seg_state X sid w) \<noteq> ''''"
    and run: "AppendSegment X sdb sid next s v h w = (Ok (), w')"
  shows "ss_TailBlock (seg_state X next w') = ss_TailBlock (seg_state X next w) \<and>
    (ss_Status (seg_state X next w') = DISJOINTED \<longrightarrow> ss_SegmentPrev (seg_state X next w') \<noteq> '''')"
proof -
  from run obtain tb hb where st: "ss_Status (seg_state X next w) = DISJOINTED"
    and tb: "GetBlock X s h (ss_TailBlock (seg_state X next w)) w = (Ok tb, w)"
    and hb: "GetBlock X s h (ss_HeadBlock (seg_state X sid w)) w = (Ok hb, w)"
    by (auto simp: AppendSegment_def gbind_Ok_iff keeps_all_eq [OF keeps_GetBlock] split: if_splits)
  obtain r where val: "ValidateChild X hb tb v w = (r, w)" using ValidateChild_state by (metis surj_pair)
  have np: "r \<noteq> Panic" using run st tb hb val by (auto simp: AppendSegment_def gbind_def gtry_def)
  note app = run [unfolded AppendSegment_run [OF ne st tb hb val np]]
  show ?thesis
    using app ne id by (cases r) (auto simp: gbind_Ok_iff dest!: Segment_writeState_all)
qed

text \<open>After a rewind the segment has its tail one block lower, or a segment before it, or a verdict.\<close>

lemma RewindOnce_after:
  fixes w w' :: "('e, 'z) chain_world_scheme"
  assumes X: "store_ok X" "writes_ok X" and hb: "heights_bounded X c (ext w)" and L: "lists_in X c A w"
    and run: "Segment_RewindOnce X (segStoreDbm c) sid (c_encStrat c) v (GetBlockDbm c) w = (Ok (), w')"
  shows "if ss_SegmentPrev (seg_state X sid w') = ''''
    then ss_Status (seg_state X sid w') = DISJOINTED \<longrightarrow>
      height_at X c (ext w) (ss_TailBlock (seg_state X sid w')) < height_at X c (ext w) (ss_TailBlock (seg_state X sid w))
    else ss_TailBlock (seg_state X sid w') = ss_TailBlock (seg_state X sid w)"
proof (cases "ss_Status (seg_state X sid w) = DISJOINTED")
  case False
  then have "w' = w" using run by (simp add: Segment_RewindOnce_def gbind_def)
  with False show ?thesis by simp
next
  case st: True
  let ?st = "seg_state X sid w"
  let ?get = "\<lambda>r. GetBlock X (c_encStrat c) (GetBlockDbm c) r w"
  from run st obtain tb where tb: "?get (ss_TailBlock ?st) = (Ok tb, w)"
    by (auto simp: Segment_RewindOnce_def gbind_Ok_iff Let_def keeps_all_eq [OF keeps_GetBlock]
        keeps_all_eq [OF keeps_FollowBlockRef])
  note parts = GetBlock_parts [OF tb]
  obtain tb0 where tb0: "blk_of X c (ext w) (ss_TailBlock ?st) = Ok tb0" "b_header tb = b_header tb0"
    using tb unfolding GetBlock_view_Ok by fastforce
  from run st tb parts obtain pb where pb: "?get (hdr_LastBlockRef (b_header tb)) = (Ok pb, w)"
    by (auto simp: Segment_RewindOnce_def gbind_Ok_iff Let_def keeps_all_eq [OF keeps_GetBlock])
  then obtain pb0 ps where p: "blk_of X c (ext w) (hdr_LastBlockRef (b_header tb)) = Ok pb0"
    "pb = pb0\<lparr>b_State := ps\<rparr>" "block_view X c (ext w) (GetObjectDigest (hdr_LastBlockRef (b_header tb))) = Ok ps"
    unfolding GetBlock_view_Ok by blast
  note pf = blk_of_fields [OF p(1)]
  show ?thesis
  proof (cases "bs_SegmentId ps = ''''")
    case True
    let ?s = "rewind_status X (ext w) v (rewound_prev ?st pb tb) tb"
    obtain e' where "w' = w\<lparr>segmentMap := (segmentMap w)(sid \<mapsto> rewound_state ?st pb tb ?s), ext := e'\<rparr>"
      by (rule RewindOnce_writes [OF X run _ st tb pb]) (use True p(2) pf in simp_all)
    then have s': "seg_state X sid w' = rewound_state ?st pb tb ?s" by simp
    have down: "height_at X c (ext w) (hdr_LastBlockRef (b_header tb)) < height_at X c (ext w) (ss_TailBlock ?st)"
      if "?s = DISJOINTED"
    proof -
      from that have "valid_child X (ext w) pb tb" by (auto simp: rewind_status_def split: if_splits)
      then have "block_height tb0 = block_height pb0 + 1"
        using tb0(2) p(2) by (simp add: valid_child_def block_height_def)
      from height_step [OF hb p(1) tb0(1) this] show ?thesis by simp
    qed
    obtain rs where A: "A sid = Some rs" "segmentMap w sid \<noteq> None"
      by (rule lists_with_tail [OF L blk_of_fields(5) [OF tb0(1)]])
    have v: "block_view X c (ext w) (GetObjectDigest (hdr_LastBlockRef (b_header tb0))) = Ok ps"
      using p(3) tb0(2) by simp
    with seg_lists_free_block [OF L v True] have "ss_SegmentPrev ?st = ''''" by (intro lists_unlinked [OF L A tb0(1)]) simp
    with down s' show ?thesis by (simp add: rewound_state_def)
  next
    case False
    let ?ps = "bs_SegmentId ps"
    obtain sst where s: "GetSegmentById X (segStoreDbm c) ?ps w = (Ok ?ps, w\<lparr>segmentMap := (segmentMap w)(?ps \<mapsto> sst)\<rparr>)"
      and L1: "lists_in X c A (w\<lparr>segmentMap := (segmentMap w)(?ps \<mapsto> sst)\<rparr>)"
      by (rule GetSegmentById_run [OF L])
    let ?w1 = "w\<lparr>segmentMap := (segmentMap w)(?ps \<mapsto> sst)\<rparr>"
    have ne: "?ps \<noteq> sid" and app: "AppendSegment X (segStoreDbm c) ?ps sid (c_encStrat c) v (GetBlockDbm c) ?w1 = (Ok (), w')"
      using run st tb parts pb s False p(2) by (auto simp: Segment_RewindOnce_def gbind_def Let_def split: if_splits)
    obtain qs where "A ?ps = Some qs" by (rule lists_of_block [OF L [unfolded seg_lists_def] p(3) False])
    from lists_state(2) [OF L1 this] have "ss_Id (seg_state X ?ps ?w1) = ?ps" by (simp add: list_of_def)
    with False have "ss_Id (seg_state X ?ps ?w1) \<noteq> ''''" by simp
    from AppendSegment_after [OF ne this app] ne show ?thesis by auto
  qed
qed

text \<open>The segment before a joined one has a lower tail, unless it is invalid.\<close>

lemma lists_before:
  assumes content: "content_addressed X" and hb: "heights_bounded X c (ext w)" and L: "lists_in X c A w"
    and mem: "segmentMap w sid \<noteq> None" and p: "ss_SegmentPrev (seg_state X sid w) = p" "p \<noteq> ''''"
    and loaded: "segmentMap w p \<noteq> None" "ss_Status (seg_state X p w) \<noteq> INVALID"
  shows "height_at X c (ext w) (ss_TailBlock (seg_state X p w)) < height_at X c (ext w) (ss_TailBlock (seg_state X sid w))"
proof -
  obtain st where "segmentMap w sid = None \<or> segmentMap w sid = Some st"
    "case A sid of None \<Rightarrow> st = (zero_segment X)\<lparr>ss_Id := sid\<rparr>
      | Some rs \<Rightarrow> list_of (follows X c (ext w)) (obeys X c (ext w)) (block_view X c (ext w)) sid rs st"
    by (rule lists_ofD [OF L [unfolded seg_lists_def]])
  with mem p obtain rs where A: "A sid = Some rs" by (cases "A sid") (auto simp: seg_state_def)
  note ls = lists_state [OF L A mem]
  from lists_of_list(2) [OF L [unfolded seg_lists_def] A ls(1)] p obtain ps q where
    ps: "A p = Some ps" and q: "q \<in> set ps" "accepts X c (ext w) q (hd rs)"
    unfolding joined_def by blast
  note lp = lists_state(2) [OF L ps loaded(1)]
  with loaded(2) have "successively (obeys X c (ext w)) ps" by (simp add: list_of_def)
  from obeys_list_height [OF content hb this q(1)] accepts_height [OF hb q(2)] show ?thesis
    using ls(2) lp by (simp add: list_of_def)
qed

section \<open>Joining after a fork\<close>

text \<open>A segment is joined after the head of the segment before it, whichever block of that segment it follows. The
  child rule is checked against the head only: the tail may name a block in the middle as its last block and break
  the child rule after it, and still the segment becomes the next one of the head, with its status.\<close>

lemma fork_joined_after_head:
  fixes w w' :: "('e, 'z) seg_world_scheme"
  assumes st: "ss_Status (seg_state X sid w) = DISJOINTED" and tail: "GetBlock X s h (ss_TailBlock (seg_state X sid w)) w = (Ok tb, w)"
    and prev: "GetBlock X s h (hdr_LastBlockRef (b_header tb)) w = (Ok pb, w)"
    and p: "bs_SegmentId (b_State pb) = p" "p \<noteq> ''''" "p \<noteq> sid" "segmentMap w p \<noteq> None"
    and head: "GetBlock X s h (ss_HeadBlock (seg_state X p w)) w = (Ok hb, w)"
    and middle: "block_height pb \<noteq> block_height hb"
    and val: "valid_child X (ext w) hb tb" "validator_verdict v tb hb = Ok m"
    and run: "Segment_RewindOnce X sdb sid s v h w = (Ok (), w')"
  shows "\<not> valid_child X (ext w) pb tb \<and>
    seg_state X sid w' = (seg_state X sid w)\<lparr>ss_Status := ss_Status (seg_state X p w), ss_SegmentPrev := ss_Id (seg_state X p w)\<rparr>"
proof -
  have "\<not> valid_child X (ext w) pb tb" using middle val(1) by (auto simp: valid_child_def)
  moreover have "GetSegmentById X sdb p w = (Ok p, w)" using p(4) by (auto simp: GetSegmentById_def gbind_def)
  then have app: "AppendSegment X sdb p sid s v h w = (Ok (), w')"
    using run st tail prev p GetBlock_parts [OF tail] by (simp add: Segment_RewindOnce_def gbind_def Let_def)
  have "ValidateChild X hb tb v w = (Ok m, w)" using val by (simp add: validate_child_rule)
  from app [unfolded AppendSegment_run [OF p(3) st tail head this res.distinct(3)]] p(3)
  have "seg_state X sid w' = (seg_state X sid w)\<lparr>ss_Status := ss_Status (seg_state X p w), ss_SegmentPrev := ss_Id (seg_state X p w)\<rparr>"
    by (auto simp: gbind_Ok_iff dest!: Segment_writeState_all)
  ultimately show ?thesis by blast
qed

section \<open>The loop comes to rest\<close>

text \<open>How often the loop can go on at once: a bound that only depends on the tails of the queued segments.\<close>

definition rewinds_left :: "('e, 'x) externals_scheme \<Rightarrow> chain \<Rightarrow> ('e, 'z) chain_world_scheme \<Rightarrow> nat" where
  "rewinds_left X c w = (\<Sum>sid\<in>set (pq (segmentQueue w)). Suc (height_at X c (ext w) (ss_TailBlock (seg_state X sid w))))"

lemma pop_queue:
  assumes "queue_inv w" "SegmentQueue_Pop hgt (segmentQueue w) = (Some sid, q)"
  shows "set (pq q) = set (pq (segmentQueue w)) - {sid}" "sid \<in> set (pq (segmentQueue w))"
    "queue_inv (w\<lparr>segmentQueue := q\<rparr>)"
  using seg_pending.pop_Some [OF _ assms(2)] queue_inv_pop [OF assms(1), of hgt] assms
  by (auto simp: queue_inv_def)

text \<open>One segment is replaced by at most one with a lower tail.\<close>

lemma rewinds_left_less:
  fixes w w' :: "('e, 'z) chain_world_scheme"
  assumes Q: "set (pq (segmentQueue w')) \<subseteq> insert n (set (pq (segmentQueue w)) - {sid})"
    "n \<in> set (pq (segmentQueue w')) \<Longrightarrow> n \<notin> set (pq (segmentQueue w)) - {sid} \<Longrightarrow>
       height_at X c (ext w') (ss_TailBlock (seg_state X n w')) < height_at X c (ext w) (ss_TailBlock (seg_state X sid w))"
    and sid: "sid \<in> set (pq (segmentQueue w))"
    and others: "\<And>t. t \<in> set (pq (segmentQueue w)) \<Longrightarrow> t \<noteq> sid \<Longrightarrow>
      height_at X c (ext w') (ss_TailBlock (seg_state X t w')) = height_at X c (ext w) (ss_TailBlock (seg_state X t w))"
  shows "rewinds_left X c w' < rewinds_left X c w"
proof -
  let ?h = "\<lambda>t. Suc (height_at X c (ext w) (ss_TailBlock (seg_state X t w)))"
  let ?h' = "\<lambda>t. Suc (height_at X c (ext w') (ss_TailBlock (seg_state X t w')))"
  let ?R = "set (pq (segmentQueue w)) - {sid}"
  let ?Q' = "set (pq (segmentQueue w'))"
  have rest: "sum ?h' ?R = sum ?h ?R" by (rule sum.cong) (use others in auto)
  have "rewinds_left X c w = ?h sid + sum ?h ?R" unfolding rewinds_left_def using sid by (simp add: sum.remove)
  moreover have "sum ?h' ?Q' < ?h sid + sum ?h' ?R"
  proof (cases "n \<in> ?Q' \<and> n \<notin> ?R")
    case True
    have "sum ?h' ?Q' \<le> sum ?h' (insert n ?R)" by (rule sum_mono2) (use Q(1) in auto)
    also have "\<dots> = ?h' n + sum ?h' ?R" using True by simp
    finally show ?thesis using Q(2) True by simp
  next
    case False
    have "sum ?h' ?Q' \<le> sum ?h' ?R" by (rule sum_mono2) (use Q(1) False in auto)
    then show ?thesis by simp
  qed
  ultimately show ?thesis unfolding rewinds_left_def rest by simp
qed

text \<open>The parts of an iteration that goes on at once.\<close>

lemma rewind_parts:
  assumes run: "manageSegmentRewindOnce X c w = (Ok True, w')" and Q: "queue_inv w"
  obtains q sid w2 n w3 w4 where
    "SegmentQueue_Pop (tail_height X w) (segmentQueue w) = (Some sid, q)"
    "Segment_RewindOnce X (segStoreDbm c) sid (c_encStrat c) (c_blockValidator c) (GetBlockDbm c)
       (w\<lparr>segmentQueue := q\<rparr>) = (Ok (), w2)"
    "if ss_SegmentPrev (seg_state X sid w2) = '''' then n = sid \<and> w3 = w2
     else n = ss_SegmentPrev (seg_state X sid w2) \<and> GetSegmentById X (segStoreDbm c) n w2 = (Ok n, w3)"
    "HandleSegmentUpdated X c n w3 = (Ok (), w4)"
    "w' = (if ss_Status (seg_state X n w4) = DISJOINTED
       then w4\<lparr>segmentQueue := SegmentQueue_Push (tail_height X w4) n (segmentQueue w4)\<rparr> else w4)"
proof -
  obtain popped q where pop: "SegmentQueue_Pop (tail_height X w) (segmentQueue w) = (popped, q)" by force
  then have p: "queue_pop X w = (Ok popped, w\<lparr>segmentQueue := q\<rparr>)" by (simp add: queue_pop_def)
  with run obtain sid where sid: "popped = Some sid"
    by (cases popped) (auto simp: manageSegmentRewindOnce_def SegmentStore_RewindOnce_def gbind_def)
  note defs = manageSegmentRewindOnce_def SegmentStore_RewindOnce_def gbind_def gtry_def queue_push_def
  obtain x w2 where rw: "Segment_RewindOnce X (segStoreDbm c) sid (c_encStrat c) (c_blockValidator c) (GetBlockDbm c)
      (w\<lparr>segmentQueue := q\<rparr>) = (x, w2)" by force
  have x: "x = Ok ()" using run p sid rw by (cases x) (simp_all add: defs)
  obtain y w3 where n: "(if ss_SegmentPrev (seg_state X sid w2) \<noteq> '''' then gtry (GetSegmentById X (segStoreDbm c)
        (ss_SegmentPrev (seg_state X sid w2))) else gret (Inr sid)) w2 = (y, w3)" by force
  obtain n where y: "y = Ok (Inr n)"
    using run p sid rw x n that by (cases y) (auto simp: defs split: sum.splits if_splits res.splits prod.splits)
  obtain z w4 where h: "HandleSegmentUpdated X c n w3 = (z, w4)" by force
  have z: "z = Ok ()" and w': "w' = (if ss_Status (seg_state X n w4) = DISJOINTED
       then w4\<lparr>segmentQueue := SegmentQueue_Push (tail_height X w4) n (segmentQueue w4)\<rparr> else w4)"
    using run p sid rw x n y h by (cases z; auto simp: defs split: if_splits res.splits prod.splits)+
  have "if ss_SegmentPrev (seg_state X sid w2) = '''' then n = sid \<and> w3 = w2
     else n = ss_SegmentPrev (seg_state X sid w2) \<and> GetSegmentById X (segStoreDbm c) n w2 = (Ok n, w3)"
    using n y by (auto simp: gtry_Ok_iff dest: GetSegmentById_loaded split: if_splits)
  with that pop sid rw x h z w' show thesis by blast
qed

text \<open>The segment that an iteration puts back has a lower tail than the one it took off.\<close>

lemma rewound_lower:
  fixes w w4 :: "('e, 'z) chain_world_scheme"
  assumes X: "store_ok X" "writes_ok X" "content_addressed X" and hb: "heights_bounded X c (ext w)"
    and L: "lists_in X c A w" and Q: "queue_inv (w\<lparr>segmentQueue := q\<rparr>)" and mem: "sid \<in> dom (segmentMap w)"
    and rw: "Segment_RewindOnce X (segStoreDbm c) sid (c_encStrat c) v (GetBlockDbm c) (w\<lparr>segmentQueue := q\<rparr>) = (Ok (), w2)"
    and n: "if ss_SegmentPrev (seg_state X sid w2) = '''' then n = sid \<and> w3 = w2
      else n = ss_SegmentPrev (seg_state X sid w2) \<and> GetSegmentById X (segStoreDbm c) n w2 = (Ok n, w3)"
    and h: "HandleSegmentUpdated X c n w3 = (Ok (), w4)" and dis: "ss_Status (seg_state X n w4) = DISJOINTED"
    and same: "same_objs X (ext w) (ext w2)" "same_objs X (ext w) (ext w3)"
  shows "height_at X c (ext w) (ss_TailBlock (seg_state X n w4)) < height_at X c (ext w) (ss_TailBlock (seg_state X sid w))"
proof -
  let ?w1 = "w\<lparr>segmentQueue := q\<rparr>"
  have ok: "objects_ok X" using X(1) by (simp add: store_ok_def)
  have L1: "lists_in X c A ?w1" and hb1: "heights_bounded X c (ext ?w1)" using L hb by simp_all
  obtain A' where L2: "lists_in X c A' w2" using RewindOnce_lists [OF X(1,2) L1 rw] by auto
  have m2: "sid \<in> dom (segmentMap w2)"
    using keepsD [OF Segment_RewindOnce_keeps_loaded [where t = sid] rw] mem by (simp add: loaded_def)
  have m3: "n \<in> dom (segmentMap w3)" using n m2 by (auto dest: GetSegmentById_loaded split: if_splits)
  have dis3: "ss_Status (seg_state X n w3) = DISJOINTED"
  proof (rule ccontr)
    assume "ss_Status (seg_state X n w3) \<noteq> DISJOINTED"
    with m3 have "settled n (ss_Status (seg_state X n w3)) w3" by (auto simp: settled_def seg_state_def)
    from settled_state [OF keepsD [OF HandleSegmentUpdated_keeps_settled h this]] dis show False by metis
  qed
  have "tails_kept X (ext w3) [n \<mapsto> ss_TailBlock (seg_state X n w3)] w3"
    using m3 by (auto simp: tails_kept_def seg_state_def)
  from tails_kept_state [OF keepsD [OF HandleSegmentUpdated_keeps_tails [OF ok] h this]]
  have tail: "ss_TailBlock (seg_state X n w4) = ss_TailBlock (seg_state X n w3)" by simp
  note after = RewindOnce_after [OF X(1,2) hb1 L1 rw]
  show ?thesis
  proof (cases "ss_SegmentPrev (seg_state X sid w2) = ''''")
    case True
    with n after dis3 tail show ?thesis by simp
  next
    case False
    then have n: "n = ss_SegmentPrev (seg_state X sid w2)" "GetSegmentById X (segStoreDbm c) n w2 = (Ok n, w3)"
      using n unfolding if_not_P [OF False] by blast+
    obtain st where st: "segmentMap w2 n = None \<or> segmentMap w2 n = Some st"
      "w3 = w2\<lparr>segmentMap := (segmentMap w2)(n \<mapsto> st)\<rparr>" "lists_in X c A' w3"
      by (rule GetSegmentById_run [OF L2, of n]) (use n(2) in auto)
    have sid3: "seg_state X sid w3 = seg_state X sid w2" "segmentMap w3 sid \<noteq> None"
      using st(1,2) m2 by (auto simp: seg_state_def)
    have hb3: "heights_bounded X c (ext w3)" using hb same_objs_views(1) [OF same(2)] by (simp add: heights_bounded_def)
    have "height_at X c (ext w3) (ss_TailBlock (seg_state X n w3)) < height_at X c (ext w3) (ss_TailBlock (seg_state X sid w3))"
      by (rule lists_before [OF X(3) hb3 st(3) sid3(2)]) (use sid3(1) n(1) False m3 dis3 in auto)
    with same_objs_heights [OF same(2)] after False sid3(1) tail show ?thesis by simp
  qed
qed

text \<open>An iteration that goes on at once keeps the lists and the objects, and brings the bound down.\<close>

lemma rewind_iteration:
  fixes w w' :: "('e, 'z) chain_world_scheme"
  assumes X: "store_ok X" "writes_ok X" "content_addressed X" and hb: "heights_bounded X c (ext w)"
    and L: "lists_in X c A w" and Q: "queue_inv w"
    and run: "manageSegmentRewindOnce X c w = (Ok True, w')"
  shows "rewinds_left X c w' < rewinds_left X c w \<and> same_objs X (ext w) (ext w')"
proof -
  have ok: "objects_ok X" using X(1) by (simp add: store_ok_def)
  from run Q obtain q sid w2 n w3 w4 where
    pop: "SegmentQueue_Pop (tail_height X w) (segmentQueue w) = (Some sid, q)" and
    rw: "Segment_RewindOnce X (segStoreDbm c) sid (c_encStrat c) (c_blockValidator c) (GetBlockDbm c)
      (w\<lparr>segmentQueue := q\<rparr>) = (Ok (), w2)" and
    n: "if ss_SegmentPrev (seg_state X sid w2) = '''' then n = sid \<and> w3 = w2
     else n = ss_SegmentPrev (seg_state X sid w2) \<and> GetSegmentById X (segStoreDbm c) n w2 = (Ok n, w3)" and
    h: "HandleSegmentUpdated X c n w3 = (Ok (), w4)" and
    w': "w' = (if ss_Status (seg_state X n w4) = DISJOINTED
       then w4\<lparr>segmentQueue := SegmentQueue_Push (tail_height X w4) n (segmentQueue w4)\<rparr> else w4)"
    by (rule rewind_parts)
  let ?w1 = "w\<lparr>segmentQueue := q\<rparr>"
  note pq = pop_queue [OF Q pop]
  let ?T = "\<lambda>t. if t \<in> set (pq q) then Some (ss_TailBlock (seg_state X t w)) else None"
  have T: "?T sid = None" and "tails_kept X (ext w) ?T ?w1"
    using pq by (auto simp: tails_kept_def queue_inv_def seg_state_def)
  from keepsD [OF RewindOnce_keeps_tails [where T = ?T and sid = sid, OF ok T] rw this(2)] have T2: "tails_kept X (ext w) ?T w2" .
  have Q2: "segmentQueue w2 = q" using keepsD [OF queue_kept(1) rw] by simp
  have T3: "tails_kept X (ext w) ?T w3" and Q3: "segmentQueue w3 = q"
    using n T2 keepsD [OF tails_kept_rules(3) [OF ok] _ T2] keepsD [OF queue_kept(2) _ Q2] Q2
    by (auto split: if_splits)
  have T4: "tails_kept X (ext w) ?T w4" and Q4: "segmentQueue w4 = q"
    using keepsD [OF HandleSegmentUpdated_keeps_tails [OF ok] h T3] keepsD [OF queue_kept(3) h Q3] .
  have w'4: "ext w' = ext w4" "segmentMap w' = segmentMap w4" "seg_state X t w' = seg_state X t w4" for t
    using w' by (simp_all add: seg_state_def)
  have same: "same_objs X (ext w) (ext w2)" "same_objs X (ext w) (ext w3)" "same_objs X (ext w) (ext w')"
    using T2 T3 T4 w'4 by (simp_all add: tails_kept_def)
  have heights: "height_at X c (ext w2) = height_at X c (ext w)" "height_at X c (ext w3) = height_at X c (ext w)"
    "height_at X c (ext w') = height_at X c (ext w)"
    by (rule same_objs_heights, rule same)+
  have Q': "set (pq (segmentQueue w')) = (if ss_Status (seg_state X n w4) = DISJOINTED
      then insert n (set (pq q)) else set (pq q))"
    using w' Q4 by (simp add: seg_pending.elems_push)
  have lower: "height_at X c (ext w) (ss_TailBlock (seg_state X n w4)) < height_at X c (ext w) (ss_TailBlock (seg_state X sid w))"
    if "ss_Status (seg_state X n w4) = DISJOINTED"
    by (rule rewound_lower [OF X hb L pq(3) _ rw n h that same(1,2)]) (use Q pq(2) in \<open>auto simp: queue_inv_def\<close>)
  have "rewinds_left X c w' < rewinds_left X c w"
    by (rule rewinds_left_less [where n = n, OF _ _ pq(2)])
       (use Q' pq(1) lower w'4 heights tails_kept_state [OF T4] in \<open>auto split: if_splits\<close>)
  with same(3) show ?thesis by blast
qed

lemma life_queue: "life X c w \<Longrightarrow> queue_inv w"
proof (induction rule: life.induct)
  case (life_new dbm cid priv bv gs rnd wrap ts ts2 uid0 uid w0 c conf w)
  then show ?case using NewChain_inv unfolding chain_inv_def by blast
next
  case (life_step c w w')
  then show ?case using chain_step_queue live_step_chain_step by blast
next
  case (life_restart c w w0 known reg conf bv c' w')
  then show ?case using FromConfig_inv unfolding chain_inv_def by blast
qed

text \<open>The loop handles every error itself.\<close>

lemma HandleSegmentUpdated_no_error: "HandleSegmentUpdated X c seg w \<noteq> (Err e, w')"
  by (auto simp: HandleSegmentUpdated_def markAsHead_def Let_def gbind_Err_iff gtry_not_Err split: sum.splits if_splits)

lemma rewind_no_error: "manageSegmentRewindOnce X c w \<noteq> (Err e, w')"
  by (auto simp: manageSegmentRewindOnce_def SegmentStore_RewindOnce_def queue_pop_def queue_push_def gbind_Err_iff gtry_not_Err
      HandleSegmentUpdated_no_error split: option.splits sum.splits prod.splits if_splits)

lemma rewind_loop_rests:
  fixes w :: "('e, 'z) chain_world_scheme"
  assumes X: "store_ok X" "writes_ok X" "content_addressed X"
  shows "heights_bounded X c (ext w) \<Longrightarrow> lists_in X c A w \<Longrightarrow> queue_inv w \<Longrightarrow> rewinds_left X c w < n \<Longrightarrow>
    fst (manageSegmentRewind_run X c n w) \<in> {Ok False, Panic}"
proof (induction n arbitrary: w A)
  case (Suc n)
  obtain r w' where run: "manageSegmentRewindOnce X c w = (r, w')" by force
  show ?case
  proof (cases "r = Ok True")
    case True
    with run have run: "manageSegmentRewindOnce X c w = (Ok True, w')" by simp
    from rewind_iteration [OF X Suc.prems(1-3) run] have less: "rewinds_left X c w' < n" and same: "same_objs X (ext w) (ext w')"
      using Suc.prems(4) by simp_all
    obtain A' where "lists_in X c A' w'" using rewind_lists [OF X(1,2) Suc.prems(2) run] by auto
    moreover have "heights_bounded X c (ext w')"
      using Suc.prems(1) same_objs_views(1) [OF same] by (simp add: heights_bounded_def)
    moreover have "queue_inv w'" using keepsD [OF rewind_keeps_queue run Suc.prems(3)] .
    ultimately have "fst (manageSegmentRewind_run X c n w') \<in> {Ok False, Panic}" using Suc.IH less by blast
    with run show ?thesis by (simp add: gbind_def)
  next
    case False
    with run rewind_no_error [of X c w] show ?thesis by (cases r) (auto simp: gbind_def)
  qed
qed simp

text \<open>C9: the rewind loop of a chain comes to rest. At any time in the life of a chain, when the loop runs and no
  block has the largest height, it stops going on at once after at most as many iterations as the heights of
  the tails of the queued segments, each increased by one, add up to: it waits, or the process has ended in a panic.\<close>

theorem rewind_loop_terminates:
  assumes "store_ok X" "writes_ok X" "content_addressed X" and "life X c w" "heights_bounded X c (ext w)"
    and "(\<Sum>sid\<in>set (pq (segmentQueue w)). Suc (height_at X c (ext w) (ss_TailBlock (seg_state X sid w)))) < n"
  shows "fst (manageSegmentRewind_run X c n w) \<in> {Ok False, Panic}"
proof -
  obtain A where "lists_in X c A w" using life_lists [OF assms(1,2,4)] by blast
  from rewind_loop_rests [OF assms(1-3,5) this life_queue [OF assms(4)]] assms(6) show ?thesis
    by (simp add: rewinds_left_def)
qed

end
