(* ===== verification/SegWitnesses.thy ===== *)
theory SegWitnesses
  imports Rewinds Demo
begin

text \<open>
  Witnesses for the properties of segments as lists: a chain that is created in the environment of \<open>Demo\<close>,
  with encodings of block and segment states that never fail, and a second block that is committed to it.
\<close>

section \<open>Encodings\<close>

text \<open>A length in unary, followed by that many bytes.\<close>

definition put_bytes :: "bytes \<Rightarrow> bytes" where
  "put_bytes bs = replicate (length bs) 1 @ 0 # bs"

definition get_bytes :: "bytes \<Rightarrow> bytes \<times> bytes" where
  "get_bytes bs = (let n = length (takeWhile (\<lambda>b. b \<noteq> 0) bs); r = tl (dropWhile (\<lambda>b. b \<noteq> 0) bs) in (take n r, drop n r))"

lemma get_put_bytes [simp]: "get_bytes (put_bytes bs @ r) = (bs, r)"
proof -
  have "takeWhile (\<lambda>b. b \<noteq> 0) (replicate n (1 :: byte) @ 0 # xs) = replicate n 1"
    "dropWhile (\<lambda>b. b \<noteq> 0) (replicate n (1 :: byte) @ 0 # xs) = 0 # xs" for n xs
    by (induction n) simp_all
  then show ?thesis by (simp add: put_bytes_def get_bytes_def Let_def)
qed

definition put_str :: "string \<Rightarrow> bytes" where
  "put_str s = put_bytes (map (\<lambda>c. word_of_nat (of_char c)) s)"

definition get_str :: "bytes \<Rightarrow> string \<times> bytes" where
  "get_str bs = (case get_bytes bs of (x, r) \<Rightarrow> (map (\<lambda>b. char_of (unat b)) x, r))"

lemma char_through_byte: "char_of (unat (word_of_nat (of_char c) :: byte)) = c"
  by (simp add: unat_of_nat)

lemma get_put_str [simp]: "get_str (put_str s @ r) = (s, r)"
  by (simp add: put_str_def get_str_def char_through_byte comp_def)

definition put_ref :: "sref \<Rightarrow> bytes" where
  "put_ref r = (case r of None \<Rightarrow> [0] | Some x \<Rightarrow> 1 # put_bytes (ObjectDigest x) @ put_str (refLocation x))"

definition get_ref :: "bytes \<Rightarrow> sref \<times> bytes" where
  "get_ref bs = (if hd bs = 0 then (None, tl bs)
     else case get_bytes (tl bs) of (d, r) \<Rightarrow> case get_str r of (l, r') \<Rightarrow> (Some \<lparr>ObjectDigest = d, refLocation = l\<rparr>, r'))"

lemma get_put_ref [simp]: "get_ref (put_ref x @ r) = (x, r)"
  by (cases x) (simp_all add: put_ref_def get_ref_def)

definition put_round :: "round_info option \<Rightarrow> bytes" where
  "put_round x = (case x of None \<Rightarrow> [0] | Some i \<Rightarrow>
     1 # put_bytes (replicate (unat (Height i)) 1) @ put_bytes (replicate (unat (Round i)) 1))"

definition get_round :: "bytes \<Rightarrow> round_info option \<times> bytes" where
  "get_round bs = (if hd bs = 0 then (None, tl bs)
     else case get_bytes (tl bs) of (h, r) \<Rightarrow> case get_bytes r of (n, r') \<Rightarrow>
       (Some \<lparr>Height = word_of_nat (length h), Round = word_of_nat (length n)\<rparr>, r'))"

lemma get_put_round [simp]: "get_round (put_round x @ r) = (x, r)"
  by (cases x) (simp_all add: put_round_def get_round_def)

definition put_status :: "segment_status \<Rightarrow> byte" where
  "put_status s = (case s of DISJOINTED \<Rightarrow> 0 | VALID \<Rightarrow> 1 | INVALID \<Rightarrow> 2)"

definition get_status :: "byte \<Rightarrow> segment_status" where
  "get_status b = (if b = 0 then DISJOINTED else if b = 1 then VALID else INVALID)"

lemma get_put_status [simp]: "get_status (put_status s) = s"
  by (cases s) (simp_all add: put_status_def get_status_def)

definition block_codec :: "block_state codec" where
  "block_codec =
     \<lparr>marshal = (\<lambda>s. Inr (put_str (bs_SegmentId s) @ put_ref (bs_NextBlock s))),
      unmarshal = (\<lambda>bs. case get_str bs of (i, r) \<Rightarrow> Inr \<lparr>bs_SegmentId = i, bs_NextBlock = fst (get_ref r)\<rparr>)\<rparr>"

definition segment_codec :: "segment_state codec" where
  "segment_codec =
     \<lparr>marshal = (\<lambda>s. Inr (put_status (ss_Status s) # put_str (ss_Id s) @ put_ref (ss_HeadBlock s) @ put_ref (ss_TailBlock s) @
        put_round (ss_TailBlockRound s) @ put_str (ss_SegmentPrev s) @ put_str (ss_SegmentNext s))),
      unmarshal = (\<lambda>bs. case get_str (tl bs) of (i, r1) \<Rightarrow> case get_ref r1 of (h, r2) \<Rightarrow> case get_ref r2 of (t, r3) \<Rightarrow>
        case get_round r3 of (n, r4) \<Rightarrow> case get_str r4 of (p, r5) \<Rightarrow>
        Inr \<lparr>ss_Id = i, ss_Status = get_status (hd bs), ss_HeadBlock = h, ss_TailBlock = t, ss_TailBlockRound = n,
          ss_SegmentPrev = p, ss_SegmentNext = fst (get_str r5)\<rparr>)\<rparr>"

lemma block_codec_ok: "codec_ok block_codec"
  using get_put_ref [where r = "[]"] by (auto simp: codec_ok_def block_codec_def)

lemma segment_codec_ok: "codec_ok segment_codec"
  using get_put_str [where r = "[]"] by (auto simp: codec_ok_def segment_codec_def)

section \<open>The services\<close>

definition live_X :: "demo_env externals" where
  "live_X = (demo_externals demo_tables0)\<lparr>pb_block_state := block_codec, pb_segment_state := segment_codec,
     pb_chain_state := table_codec [\<lparr>cs_StateSegment = ''m'', cs_LastHeight = 0, cs_LastRound = 0\<rparr>]\<rparr>"

lemmas live_X_defs = live_X_def demo_externals_def Let_def

lemma live_X_db:
  "db_get live_X e h k = Inr (map_of (env_kv e) (concat h @ k))"
  "db_set live_X e h k v = (Inr (), e\<lparr>env_kv := (concat h @ k, v) # env_kv e\<rparr>)"
  "pb_block_state live_X = block_codec" "pb_segment_state live_X = segment_codec"
  "marshal (pb_chain_state live_X) \<lparr>cs_StateSegment = ''m'', cs_LastHeight = 0, cs_LastRound = 0\<rparr> = Inr []"
  by (simp_all add: live_X_defs table_codec_def)

lemma live_X_follow:
  "follow_block live_X = (\<lambda>e r c d. lookup_ref (env_blocks e) r)"
  "follow_header live_X = (\<lambda>e r c d. lookup_ref (env_headers e) r)"
  "follow_chain_config live_X = (\<lambda>e r c d. lookup_ref (env_configs e) r)"
  "follow_validator_set live_X = (\<lambda>e r c d. lookup_ref (env_vsets e) r)"
  by (simp_all add: live_X_defs)

lemma live_X_store:
  "store_header live_X e h k = (Inr (demo_ref (of_nat (120 + length (env_headers e)))),
     e\<lparr>env_headers := (replicate 24 (of_nat (120 + length (env_headers e))), h) # env_headers e\<rparr>)"
  "store_block live_X e b k = (Inr (demo_ref (of_nat (100 + length (env_blocks e)))),
     e\<lparr>env_blocks := (replicate 24 (of_nat (100 + length (env_blocks e))), b) # env_blocks e\<rparr>)"
  "store_vote live_X e v k = (Inr (demo_ref (of_nat (140 + length (env_votes e)))),
     e\<lparr>env_votes := (replicate 24 (of_nat (140 + length (env_votes e))), v) # env_votes e\<rparr>)"
  "store_validator_set live_X e vs k = (Inr (demo_ref (of_nat (160 + length (env_vsets e)))),
     e\<lparr>env_vsets := (replicate 24 (of_nat (160 + length (env_vsets e))), vs) # env_vsets e\<rparr>)"
  "store_chain_config live_X e cc k = (Inr (demo_ref (of_nat (180 + length (env_configs e)))),
     e\<lparr>env_configs := (replicate 24 (of_nat (180 + length (env_configs e))), cc) # env_configs e\<rparr>)"
  "store_genesis live_X e g k = (Inr (demo_ref (of_nat (200 + length (env_genesis e)))),
     e\<lparr>env_genesis := (replicate 24 (of_nat (200 + length (env_genesis e))), g) # env_genesis e\<rparr>)"
  "store_local_segment live_X e st = (Inr (), e)"
  by (simp_all add: live_X_defs demo_ref_def)

lemma live_X_keys:
  "priv_public live_X (PrivKey n) = PubKey n" "pub_bytes live_X (PubKey n) = Inr (replicate n 0)"
  "id_from_pub live_X (PubKey n) = (PeerID (replicate n CHR ''p''), None)" "pretty_id live_X (PeerID s) = s"
  "parse_peer_id live_X v = Inr (PeerID (replicate (length (val_PubKey v)) CHR ''p''), PubKey (length (val_PubKey v)))"
  "select_proposer live_X vs d h r = (case Validators vs of [] \<Rightarrow> (None, 0)
     | v # _ \<Rightarrow> (Some v, sum_list (map val_VotingPower (Validators vs))))"
  "ref_equals live_X = (=)" "zero_segment_status live_X = DISJOINTED"
  "ts_to_time live_X t = (case t of None \<Rightarrow> 0 | Some x \<Rightarrow> uint (TimeUnixMs x) * millisecond)"
  by (simp_all add: live_X_defs demo_pub_def)

lemma live_X_store_ok: "store_ok live_X"
proof -
  have "objects_ok live_X" by (simp add: objects_ok_def live_X_defs)
  then show ?thesis by (auto simp: store_ok_def db_ok_def live_X_db block_codec_ok segment_codec_ok)
qed

lemma live_X_writes_ok: "writes_ok live_X"
  by (simp add: writes_ok_def live_X_db block_codec_def segment_codec_def)

lemma live_X_addressed: "content_addressed live_X"
  by (simp add: content_addressed_def live_X_follow lookup_ref_def)

lemma live_X_apart: "stores_apart live_X c"
proof -
  have "apart live_X c e e'" if "env_kv e' = env_kv e" for e e'
    using that by (simp add: apart_def fun_eq_iff block_view_def seg_view_def slot_view_def live_X_db)
  then show ?thesis by (simp add: stores_apart_def live_X_store)
qed

section \<open>A chain and its second block\<close>

definition second_header :: block_header where
  "second_header = \<lparr>hdr_GenesisRef = demo_ref 200, hdr_ChainConfigRef = demo_ref 180, hdr_NextChainConfigRef = demo_ref 180,
     hdr_LastBlockRef = demo_ref 101, hdr_RoundInfo = Some \<lparr>Height = 1, Round = 0\<rparr>,
     hdr_BlockTs = Some \<lparr>TimeUnixMs = 1000\<rparr>, hdr_ProposerId = ''p'', hdr_StateRef = None\<rparr>"

definition live_env0 :: demo_env where
  "live_env0 = \<lparr>env_kv = [], env_blocks = [(replicate 24 11, \<lparr>blk_BlockHeaderRef = demo_ref 21, blk_VoteRefs = []\<rparr>)],
     env_headers = [(replicate 24 21, second_header)], env_votes = [], env_configs = [], env_vsets = [],
     env_messages = [], env_genesis = [], env_topics = []\<rparr>"

abbreviation (input) always :: block_validator where
  "always \<equiv> \<lambda>child parent. Ok True"

definition live_genesis :: genesis where
  "live_genesis = \<lparr>gen_ChainId = ''c'', gen_Timestamp = Some \<lparr>TimeUnixMs = 0\<rparr>,
     gen_EncStrategy = ConvergentImmutable, gen_InitChainConfigRef = demo_ref 180\<rparr>"

definition live_c :: chain where
  "live_c = computePubsubTopic \<lparr>c_dbm = [''/d''], c_GenesisRef = demo_ref 200, c_genesis = live_genesis,
     c_encStrat = demo_strategy, c_pubsubTopic = [], c_blockValidator = Some always\<rparr>"

definition first_header :: block_header where
  "first_header = firstBlockHeader (demo_ref 200) (demo_ref 180) \<lparr>TimeUnixMs = 0\<rparr> ''p'' None"

text \<open>The services after the genesis objects were stored, and after the first block was.\<close>

definition live_env1 :: demo_env where
  "live_env1 = live_env0\<lparr>
     env_configs := [(replicate 24 180, genesisChainConfig (demo_ref 160))],
     env_vsets := [(replicate 24 160, genesisValidatorSet [0])],
     env_genesis := [(replicate 24 200, live_genesis)]\<rparr>"

definition live_env2 :: demo_env where
  "live_env2 = live_env1\<lparr>
     env_headers := (replicate 24 121, first_header) # env_headers live_env0,
     env_votes := [(replicate 24 140, \<lparr>vote_BlockHeaderRef = demo_ref 121\<rparr>)],
     env_blocks := (replicate 24 101, \<lparr>blk_BlockHeaderRef = demo_ref 121, blk_VoteRefs = [demo_ref 140]\<rparr>) # env_blocks live_env0\<rparr>"

abbreviation live_start :: "demo_env chain_world" where
  "live_start \<equiv> demo_w\<lparr>ext := live_env0\<rparr>"

abbreviation live_new :: "(chain \<times> bytes chain_conf) res \<times> demo_env chain_world" where
  "live_new \<equiv> NewChain live_X [''/d''] ''c'' (PrivKey (Suc 0)) (Some always) None (Inr (replicate 32 7)) Inr
     \<lparr>TimeUnixMs = 0\<rparr> \<lparr>TimeUnixMs = 0\<rparr> ''x'' ''m'' live_start"

lemma live_mintGenesis:
  "mintGenesis live_X ''c'' (PrivKey (Suc 0)) (Inr (replicate 32 7)) Inr \<lparr>TimeUnixMs = 0\<rparr> live_start =
     (Ok (demo_strategy, replicate 32 7, PeerID ''p'', live_genesis, demo_ref 200), demo_w\<lparr>ext := live_env1\<rparr>)"
  by (simp add: mintGenesis_def NewConvergentImmutableStrategy_def BuildArgs_def rbind_def gbind_def gres_def gret_def
      gcall_def live_X_store live_X_keys Let_def live_env0_def live_env1_def live_genesis_def demo_strategy_def
      GetEncryptionStrategyType_def)

lemma live_objects:
  "blk_of live_X live_c live_env2 (demo_ref 101) = Ok \<lparr>b_State = zero_block, b_dbm = GetBlockDbm live_c,
     b_blk = \<lparr>blk_BlockHeaderRef = demo_ref 121, blk_VoteRefs = [demo_ref 140]\<rparr>, b_header = first_header,
     b_encStrat = demo_strategy, b_blkRef = demo_ref 101, b_id = b64_encode (replicate 24 101),
     b_dbKey = ''/'' @ b64_encode (replicate 24 101)\<rparr>"
  "blk_of live_X live_c live_env2 (demo_ref 11) = Ok \<lparr>b_State = zero_block, b_dbm = GetBlockDbm live_c,
     b_blk = \<lparr>blk_BlockHeaderRef = demo_ref 21, blk_VoteRefs = []\<rparr>, b_header = second_header,
     b_encStrat = demo_strategy, b_blkRef = demo_ref 11, b_id = b64_encode (replicate 24 11),
     b_dbKey = ''/'' @ b64_encode (replicate 24 11)\<rparr>"
  by (simp_all add: blk_of_def follow_blk_def follow_hdr_def rbind_def enc_config_defs nonce_of_digest_def live_X_follow
      lookup_ref_def demo_ref_def live_env2_def live_env1_def live_env0_def live_c_def computePubsubTopic_def)

lemma live_blank: "blank live_X c live_env0" "blank live_X c live_env2"
  by (simp_all add: blank_def block_view_def seg_view_def slot_view_def live_X_db live_env0_def live_env1_def live_env2_def
      rbind_def)

lemma call_then: "f (ext w) = (Inr r, e) \<Longrightarrow> gbind (gcall f) g w = g r (w\<lparr>ext := e\<rparr>)"
  by (simp add: gbind_def gcall_def)

lemma live_mintFirstBlock:
  fixes w :: "demo_env chain_world"
  shows "mintFirstBlock live_X live_c (PrivKey (Suc 0)) (PeerID ''p'') None \<lparr>TimeUnixMs = 0\<rparr> ''x'' ''m'' (w\<lparr>ext := live_env1\<rparr>) =
     linkFirstBlock live_X live_c first_header (demo_ref 101) ''m'' (w\<lparr>ext := live_env2\<rparr>)"
proof -
  have f: "c_GenesisRef live_c = demo_ref 200" "gen_InitChainConfigRef (c_genesis live_c) = demo_ref 180"
    by (simp_all add: live_c_def computePubsubTopic_def live_genesis_def)
  have n: "env_headers live_env1 = env_headers live_env0" "length (env_headers live_env0) = 1"
    "env_blocks live_env1 = env_blocks live_env0" "length (env_blocks live_env0) = 1" "env_votes live_env1 = []"
    by (simp_all add: live_env0_def live_env1_def)
  show ?thesis
    unfolding linkFirstBlock_def mintFirstBlock_def Let_def f live_X_keys first_header_def [symmetric]
    by (simp add: call_then live_X_store n live_env2_def)
qed

lemma live_minted:
  obtains conf w where "live_new = (Ok (live_c, conf), w)"
    "linkFirstBlock live_X live_c first_header (demo_ref 101) ''m'' ((fresh_chain demo_w)\<lparr>ext := live_env2\<rparr>) = (Ok (), w)"
proof -
  let ?w = "(fresh_chain demo_w)\<lparr>ext := live_env2\<rparr>"
  have m: "segmentMap ?w = Map.empty" by (simp add: fresh_chain_def)
  have bv: "block_view live_X live_c (ext ?w) (GetObjectDigest (demo_ref 101)) = Ok zero_block"
    using live_blank(2) by (simp add: blank_def)
  have "\<exists>b. blk_of live_X live_c (ext ?w) (demo_ref 101) = Ok b" by (simp add: live_objects(1))
  then obtain b where b: "blk_of live_X live_c (ext ?w) (demo_ref 101) = Ok b" by blast
  from linkFirstBlock_writes [OF live_X_store_ok live_X_writes_ok m b bv live_X_db(5)]
  obtain w where w: "linkFirstBlock live_X live_c first_header (demo_ref 101) ''m'' ?w = (Ok (), w)" by blast
  have "fresh_chain (demo_w\<lparr>ext := live_env1\<rparr>) = (fresh_chain demo_w)\<lparr>ext := live_env1\<rparr>" by (simp add: fresh_chain_def)
  then have f: "mintFirstBlock live_X live_c (PrivKey (Suc 0)) (PeerID ''p'') None \<lparr>TimeUnixMs = 0\<rparr> ''x'' ''m''
      (fresh_chain (demo_w\<lparr>ext := live_env1\<rparr>)) = (Ok (), w)"
    by (simp only: live_mintFirstBlock w)
  have "\<exists>conf. live_new = (Ok (live_c, conf), w)"
    unfolding NewChain_def Let_def gbind_Ok_iff
    using f by (simp add: NewChain_def gbind_Ok_iff live_mintGenesis live_c_def [symmetric])
  with w that show thesis by blast
qed

text \<open>The minted chain: one segment, of the first block.\<close>

abbreviation first_blk :: block where
  "first_blk \<equiv> \<lparr>b_State = zero_block, b_dbm = GetBlockDbm live_c,
     b_blk = \<lparr>blk_BlockHeaderRef = demo_ref 121, blk_VoteRefs = [demo_ref 140]\<rparr>, b_header = first_header,
     b_encStrat = demo_strategy, b_blkRef = demo_ref 101, b_id = b64_encode (replicate 24 101),
     b_dbKey = ''/'' @ b64_encode (replicate 24 101)\<rparr>"

abbreviation second_blk :: block where
  "second_blk \<equiv> \<lparr>b_State = zero_block, b_dbm = GetBlockDbm live_c,
     b_blk = \<lparr>blk_BlockHeaderRef = demo_ref 21, blk_VoteRefs = []\<rparr>, b_header = second_header,
     b_encStrat = demo_strategy, b_blkRef = demo_ref 11, b_id = b64_encode (replicate 24 11),
     b_dbKey = ''/'' @ b64_encode (replicate 24 11)\<rparr>"

lemma demo_ref_digest [simp]: "GetObjectDigest (demo_ref n) = replicate 24 n"
  by (simp add: demo_ref_def)

lemma live_chain:
  obtains conf w where "live_new = (Ok (live_c, conf), w)" "life live_X live_c w"
    "segmentMap w = [''m'' \<mapsto> first_state live_X ''m'' first_blk (demo_ref 101)]" "same_objs live_X live_env2 (ext w)"
    "block_view live_X live_c (ext w) =
       (\<lambda>d. if d = replicate 24 101 then Ok \<lparr>bs_SegmentId = ''m'', bs_NextBlock = None\<rparr> else Ok zero_block)"
    "seg_view live_X live_c (ext w) ''n'' = Ok ((zero_segment live_X)\<lparr>ss_Id := ''n''\<rparr>)"
    "lastBlock w = Some (first_blk\<lparr>b_State := \<lparr>bs_SegmentId = ''m'', bs_NextBlock = None\<rparr>\<rparr>)"
    "lastBlockHeader w = Some first_header"
proof -
  let ?w = "(fresh_chain demo_w)\<lparr>ext := live_env2\<rparr>"
  obtain conf w where new: "live_new = (Ok (live_c, conf), w)"
    and l: "linkFirstBlock live_X live_c first_header (demo_ref 101) ''m'' ?w = (Ok (), w)" by (rule live_minted)
  have m: "segmentMap ?w = Map.empty" "pq (segmentQueue ?w) = []"
    by (simp_all add: fresh_chain_def NewSegmentQueue_def heap_Init_def)
  have e: "ext ?w = live_env2" by simp
  have bl: "block_view live_X live_c live_env2 = (\<lambda>d. Ok zero_block)"
    "seg_view live_X live_c live_env2 = (\<lambda>sid. Ok ((zero_segment live_X)\<lparr>ss_Id := sid\<rparr>))"
    using live_blank(2) by (simp_all add: blank_def fun_eq_iff)
  from l obtain b st where b: "blk_of live_X live_c (ext ?w) (demo_ref 101) = Ok b"
      "block_view live_X live_c (ext ?w) (GetObjectDigest (demo_ref 101)) = Ok st"
    and mem: "segmentMap w = [''m'' \<mapsto> first_state live_X ''m'' b (demo_ref 101)]"
    and lb: "lastBlock w = Some (b\<lparr>b_State := st\<lparr>bs_SegmentId := ''m''\<rparr>\<rparr>)" "lastBlockHeader w = Some first_header"
    and same: "same_objs live_X (ext ?w) (ext w)"
    and bv: "block_view live_X live_c (ext w) = (block_view live_X live_c (ext ?w))
      (GetObjectDigest (demo_ref 101) := Ok (st\<lparr>bs_SegmentId := ''m''\<rparr>))"
    and sv: "seg_view live_X live_c (ext w) = (seg_view live_X live_c (ext ?w))
      (''m'' := Ok (first_state live_X ''m'' b (demo_ref 101)))"
    by (rule linkFirstBlock_Ok [OF live_X_store_ok m])
  note b [unfolded e] and same [unfolded e] and bv [unfolded e] and sv [unfolded e]
  note f = this
  have st: "st = zero_block" "b = first_blk" using f(1,2) live_objects(1) bl by simp_all
  have life: "life live_X live_c w"
    by (rule life_new [OF new _ live_X_apart]) (use live_blank(1) in simp_all)
  show thesis
    by (rule that [OF new life]) (use mem lb f st bl in \<open>simp_all add: fun_eq_iff\<close>)
qed

text \<open>The second block is committed.\<close>

definition grown_state :: segment_state where
  "grown_state = (first_state live_X ''m'' first_blk (demo_ref 101))\<lparr>ss_HeadBlock := demo_ref 11, ss_Status := VALID\<rparr>"

lemma second_obeys: "valid_child live_X live_env2 first_blk second_blk"
  by (simp add: valid_child_def block_height_def block_time_def expected_proposer_def chain_config_of_def
      validator_set_of_def enc_config_defs nonce_of_digest_def rbind_def live_X_keys live_X_follow proposer_name_def
      first_header_def second_header_def firstBlockHeader_def lookup_ref_def live_env2_def live_env1_def
      genesisChainConfig_def genesisValidatorSet_def)

lemma live_grown:
  obtains w w' :: "demo_env chain_world" where "life live_X live_c w" "live_step live_X live_c w w'"
    "segmentMap w' = [''m'' \<mapsto> grown_state]" "same_objs live_X live_env2 (ext w')"
proof -
  obtain conf w where new: "live_new = (Ok (live_c, conf), w)" and life: "life live_X live_c w"
    and mem: "segmentMap w = [''m'' \<mapsto> first_state live_X ''m'' first_blk (demo_ref 101)]"
    and same: "same_objs live_X live_env2 (ext w)"
    and bv: "block_view live_X live_c (ext w) =
       (\<lambda>d. if d = replicate 24 101 then Ok \<lparr>bs_SegmentId = ''m'', bs_NextBlock = None\<rparr> else Ok zero_block)"
    and sv: "seg_view live_X live_c (ext w) ''n'' = Ok ((zero_segment live_X)\<lparr>ss_Id := ''n''\<rparr>)"
    by (rule live_chain)
  let ?p = "first_blk\<lparr>b_State := \<lparr>bs_SegmentId = ''m'', bs_NextBlock = None\<rparr>\<rparr>"
  note same_views = same_objs_views [OF same]
  have strat: "c_encStrat live_c = demo_strategy" "c_blockValidator live_c = Some always"
    by (simp_all add: live_c_def computePubsubTopic_def)
  have "(replicate 24 11 :: bytes) \<noteq> replicate 24 101" by (simp add: replicate_eq_replicate)
  then have g: "GetBlock live_X (c_encStrat live_c) (GetBlockDbm live_c) (demo_ref 11) w = (Ok second_blk, w)"
    "GetBlock live_X (c_encStrat live_c) (GetBlockDbm live_c) (demo_ref 101) w = (Ok ?p, w)"
    by (simp_all add: GetBlock_view same_views live_objects bv rbind_def)
  have val: "ValidateChild live_X ?p second_blk (Some always) w = (Ok True, w)"
    unfolding validate_child_rule same_views valid_child_state using second_obeys by (simp add: validator_verdict_def)
  have st: "seg_state live_X ''m'' w = first_state live_X ''m'' first_blk (demo_ref 101)"
    using mem by (simp add: seg_state_def)
  have next_free: "bs_NextBlock (b_State ?p) = None" "ss_SegmentNext (seg_state live_X ''m'' w) = []"
    by (simp_all add: st first_state_def zero_segment_def)
  have keys: "b_dbm second_blk = GetBlockDbm live_c" "b_dbKey second_blk = ''/'' @ b64_encode (replicate 24 11)"
    "b_dbm ?p = GetBlockDbm live_c" "b_dbKey ?p = ''/'' @ b64_encode (replicate 24 101)" by simp_all
  have grown: "grown_state = (seg_state live_X ''m'' w)\<lparr>ss_HeadBlock := demo_ref 11,
      ss_Status := append_status True (ss_Status (seg_state live_X ''m'' w))\<rparr>"
    by (simp add: st grown_state_def append_status_def first_state_def)
  obtain e' where app: "AppendBlock live_X (segStoreDbm live_c) ''m'' (demo_ref 11) second_blk ?p (Some always) (c_encStrat live_c) w =
       (Ok (), w\<lparr>segmentMap := (segmentMap w)(''m'' \<mapsto> grown_state), ext := e'\<rparr>)" "same_objs live_X (ext w) e'"
    by (rule AppendBlock_writes [OF live_X_store_ok live_X_writes_ok next_free keys val grown])
  have loaded: "GetSegmentById live_X (segStoreDbm live_c) ''m'' w = (Ok ''m'', w)"
    using mem by (simp add: GetSegmentById_def gbind_def gasks_def gret_def)
  obtain r w' where run: "HandleBlockCommit live_X live_c ''n'' (demo_ref 11) w = (r, w')" by force
  have last: "hdr_LastBlockRef second_header = demo_ref 101" by (simp add: second_header_def)
  have w': "segmentMap w' = (segmentMap w)(''m'' \<mapsto> grown_state)" "ext w' = e'"
    using run g app(1) loaded last strat
    by (auto simp: HandleBlockCommit_def gbind_def triggerStateRecheck_def gmodify_def Let_def)
  have "unused_id live_X live_c ''n'' w" using sv mem by (simp add: unused_id_def)
  then have "live_step live_X live_c w w'" using run by (rule live_commit)
  moreover have "same_objs live_X live_env2 (ext w')"
    unfolding w'(2) by (rule same_objs_trans [OF same app(2)])
  ultimately show thesis using that [OF life, of w'] w'(1) mem by simp
qed

section \<open>Witnesses\<close>

theorem segments_refine_lists_witness:
  "\<exists>(w :: demo_env chain_world) w' A A'. live_step live_X live_c w w' \<and> segmentMap w' = [''m'' \<mapsto> grown_state] \<and>
     seg_lists live_X live_c (ext w) (segmentMap w) A \<and> list_step A A' \<and>
     seg_lists live_X live_c (ext w') (segmentMap w') A'"
proof -
  obtain w w' :: "demo_env chain_world" where life: "life live_X live_c w" and step: "live_step live_X live_c w w'"
    and mem: "segmentMap w' = [''m'' \<mapsto> grown_state]" by (rule live_grown)
  obtain A where A: "seg_lists live_X live_c (ext w) (segmentMap w) A"
    using life_lists [OF live_X_store_ok live_X_writes_ok life] by blast
  from segments_refine_lists [OF live_X_store_ok live_X_writes_ok step A]
  obtain A' where A': "list_step A A'" "seg_lists live_X live_c (ext w') (segmentMap w') A'" by blast
  show ?thesis by (intro exI conjI) (rule step mem A A')+
qed

theorem segment_blocks_obey_witness:
  "\<exists>e rs. rs \<noteq> [] \<and> hd rs = demo_ref 101 \<and> last rs = demo_ref 11 \<and>
     (\<forall>i. Suc i < length rs \<longrightarrow> obeys live_X live_c e (rs ! i) (rs ! Suc i))"
proof -
  obtain w w' :: "demo_env chain_world" where life: "life live_X live_c w" and step: "live_step live_X live_c w w'"
    and mem: "segmentMap w' = [''m'' \<mapsto> grown_state]" by (rule live_grown)
  have st: "segmentMap w' ''m'' = Some grown_state" using mem by simp
  have tail: "ss_TailBlock grown_state \<noteq> None" by (simp add: grown_state_def first_state_def demo_ref_def)
  from segment_blocks_obey [OF live_X_store_ok live_X_writes_ok life_step [OF life step] st tail]
  show ?thesis by (auto simp: grown_state_def first_state_def)
qed

theorem segment_heights_witness:
  "\<exists>rs bs. rs \<noteq> [] \<and> hd rs = demo_ref 101 \<and> last rs = demo_ref 11 \<and> 2 \<le> length rs \<and> length bs = length rs \<and>
     (\<forall>i < length rs. block_height (bs ! i) = block_height first_blk + of_nat i)"
proof -
  obtain w w' :: "demo_env chain_world" where life: "life live_X live_c w" and step: "live_step live_X live_c w w'"
    and mem: "segmentMap w' = [''m'' \<mapsto> grown_state]" and same: "same_objs live_X live_env2 (ext w')" by (rule live_grown)
  have st: "segmentMap w' ''m'' = Some grown_state" using mem by simp
  have fields: "ss_TailBlock grown_state \<noteq> None" "ss_Status grown_state \<noteq> INVALID"
    "ss_TailBlock grown_state = demo_ref 101" "ss_HeadBlock grown_state = demo_ref 11"
    by (simp_all add: grown_state_def first_state_def demo_ref_def)
  have b: "blk_of live_X live_c (ext w') (ss_TailBlock grown_state) = Ok first_blk"
    by (simp add: fields same_objs_views [OF same] live_objects)
  have two: "2 \<le> length rs" if "rs \<noteq> []" "hd rs = demo_ref 101" "last rs = demo_ref 11" for rs
    using that by (cases rs; cases "tl rs") (auto simp: demo_ref_def)
  from segment_heights [OF live_X_store_ok live_X_writes_ok live_X_addressed life_step [OF life step] st fields(1,2) b]
  show ?thesis using two by (simp only: fields) blast
qed

theorem minted_chain_panics_witness:
  "\<exists>w :: demo_env chain_world. life live_X live_c w \<and> fst (manageSegmentRewindOnce live_X (SetBlockValidator None live_c) w) = Panic"
proof -
  obtain conf w where new: "live_new = (Ok (live_c, conf), w)" and life: "life live_X live_c w"
    and lb: "lastBlock w = Some (first_blk\<lparr>b_State := \<lparr>bs_SegmentId = ''m'', bs_NextBlock = None\<rparr>\<rparr>)"
      "lastBlockHeader w = Some first_header" by (rule live_chain)
  have "lastBlockHeader w = Some (b_header (first_blk\<lparr>b_State := \<lparr>bs_SegmentId = ''m'', bs_NextBlock = None\<rparr>\<rparr>))"
    using lb by simp
  note panics = minted_chain_panics [OF live_X_store_ok new lb(1) this, of None]
  show ?thesis by (rule exI [of _ w], rule conjI, rule life, rule panics)
qed

lemma live_heights: "heights_bounded live_X live_c live_env2"
proof -
  have headers: "hdr = first_header \<or> hdr = second_header" if "follow_hdr live_X live_c live_env2 r = Ok hdr" for r hdr
    using that by (auto simp: follow_hdr_def rbind_def live_X_follow lookup_ref_def live_env2_def live_env1_def live_env0_def
        split: res.splits option.splits if_splits)
  then have "b_header b = first_header \<or> b_header b = second_header" if "blk_of live_X live_c live_env2 r = Ok b" for r b
  proof -
    from that have "\<exists>r. follow_hdr live_X live_c live_env2 r = Ok (b_header b)"
      by (auto simp: blk_of_def rbind_def split: res.splits)
    then show ?thesis using headers by blast
  qed
  moreover have "GetHeight (hdr_RoundInfo first_header) \<noteq> - 1" "GetHeight (hdr_RoundInfo second_header) \<noteq> - 1"
    by (simp_all add: first_header_def second_header_def firstBlockHeader_def)
  ultimately show ?thesis unfolding heights_bounded_def block_height_def by metis
qed

text \<open>After the second block is committed the segment is valid and still queued; the loop stops after two iterations.\<close>

theorem rewind_loop_terminates_witness:
  "\<exists>w :: demo_env chain_world. life live_X live_c w \<and> segmentMap w = [''m'' \<mapsto> grown_state] \<and>
     fst (manageSegmentRewind_run live_X live_c 2 w) \<in> {Ok False, Panic}"
proof -
  obtain w w' :: "demo_env chain_world" where life: "life live_X live_c w" and step: "live_step live_X live_c w w'"
    and mem: "segmentMap w' = [''m'' \<mapsto> grown_state]" and same: "same_objs live_X live_env2 (ext w')" by (rule live_grown)
  note life' = life_step [OF life step]
  have hb: "heights_bounded live_X live_c (ext w')"
    using live_heights same_objs_views(1) [OF same] by (simp add: heights_bounded_def)
  let ?h = "\<lambda>sid. Suc (height_at live_X live_c (ext w') (ss_TailBlock (seg_state live_X sid w')))"
  have "ss_TailBlock (seg_state live_X ''m'' w') = demo_ref 101"
    using mem by (simp add: seg_state_def grown_state_def first_state_def)
  then have one: "?h ''m'' = 1"
    by (simp add: height_at_def same_objs_views [OF same] live_objects block_height_def first_header_def firstBlockHeader_def)
  have "set (pq (segmentQueue w')) \<subseteq> {''m''}" using life_queue [OF life'] mem by (simp add: queue_inv_def)
  then have "sum ?h (set (pq (segmentQueue w'))) \<le> sum ?h {''m''}" by (intro sum_mono2) auto
  then have "sum ?h (set (pq (segmentQueue w'))) < 2" using one by simp
  from rewind_loop_terminates [OF live_X_store_ok live_X_writes_ok live_X_addressed life' hb this] life' mem
  show ?thesis by blast
qed

end
