(* ===== verification/NodeRun.thy ===== *)
theory NodeRun
  imports Node
begin

text \<open>
  A whole node at work (\<^verbatim>\<open>node/node.go\<close>, the goroutines that \<open>NewNode\<close> and \<open>processNode\<close> start): the chain, the
  proposer, the validator, the goroutines that wait for votes, the subscription to the topic and the loop that
  emits messages, all over one state and in any order. What the earlier theories show of one part at a time
  is shown here of the node, whatever the other parts do in between.

  The parts take turns: the handling of an event by a loop is one step, in any order with those of the other parts; only
  a subscription to the chain's state is two. The code guards the maps of peers and subscribers by locks and hands
  messages over through channels, but it holds no lock over a whole handler: executions in which two handlers overlap in other ways
  are not runs of \<open>node_step\<close>.
\<close>

section \<open>The loops of the process\<close>

text \<open>What the \<open>select\<close> of \<open>processNode\<close> receives; \<open>le.Fatal\<close> ends the program.\<close>

datatype node_event = NodeCtxDone | NodeClosing | NodeErr "go_error option" | OutboxReady timestamp
datatype node_phase = NodeRunning | NodeReturned | ProgramExit

fun processNode_step ::
  "('e, 'x) externals_scheme \<Rightarrow> chain \<Rightarrow> node \<Rightarrow> node_event \<Rightarrow> node_phase \<Rightarrow>
     (('e, 'z) node_world_scheme, node_phase) go" where
  "processNode_step X c n NodeCtxDone NodeRunning = gret NodeReturned"
| "processNode_step X c n NodeClosing NodeRunning = gret NodeReturned"
| "processNode_step X c n (NodeErr err) NodeRunning = gret ProgramExit"
| "processNode_step X c n (OutboxReady tsNow) NodeRunning =
     gbind (processNode_outbox X c n tsNow) (\<lambda>_. gret NodeRunning)"
| "processNode_step X c n _ ph = gret ph"

text \<open>\<open>processPubSub\<close>, over what \<open>chainSub.Next\<close> returns: records with the time they are handled, until an
  error, which is the result; with the records received so far it is still waiting.\<close>

fun processPubSub ::
  "('e, 'x) externals_scheme \<Rightarrow> peer_store \<Rightarrow> ('e, 'z) commit_handler \<Rightarrow> (go_error + time \<times> string) list \<Rightarrow>
     (('e, 'z) peer_world_scheme, go_error option) go" where
  "processPubSub X ps handler [] = gret None"
| "processPubSub X ps handler (Inl err # records) = gret (Some err)"
| "processPubSub X ps handler (Inr (now, dat) # records) =
     gbind (processPubSub_record X ps handler now dat) (\<lambda>_. processPubSub X ps handler records)"

section \<open>The steps of a node\<close>

record 'e parts =
  pt_chain :: chain
  pt_node :: node
  pt_peers :: peer_store
  pt_proposer :: proposer
  pt_validator :: validator_actor
  pt_blockProposer :: "'e block_proposer option"

inductive node_step ::
  "('e, 'x) externals_scheme \<Rightarrow> 'e parts \<Rightarrow> proposer_phase \<times> ('e, 'z) node_world_scheme \<Rightarrow>
     proposer_phase \<times> ('e, 'z) node_world_scheme \<Rightarrow> bool" for X pt where
  node_chain: "chain_step X (pt_chain pt) w w' \<Longrightarrow> node_step X pt (pp, w) (pp, w')"
| node_proposer: "ManageProposer_step X (pt_chain pt) (pt_peers pt)
      (SendMessage (pt_chain pt) (pt_node pt) clock ctxDone) (pt_blockProposer pt) (pt_proposer pt) ev pp w = (Ok pp', w') \<Longrightarrow>
    node_step X pt (pp, w) (pp', w')"
| node_validator: "processStateSnapshot X (pt_chain pt) (pt_peers pt)
      (SendMessage (pt_chain pt) (pt_node pt) clock ctxDone) (pt_validator pt) now recv snap w = (res, w') \<Longrightarrow>
    node_step X pt (pp, w) (pp, w')"
| node_waiter: "waitForValidatorVote X (pt_chain pt) ref vw msgs w = (vt, w') \<Longrightarrow> node_step X pt (pp, w) (pp, w')"
| node_receive: "peers w pid = Some p \<Longrightarrow> p_msgSubs p k = Some (msg # ch) \<Longrightarrow>
    node_step X pt (pp, w) (pp, w\<lparr>peers := (peers w)(pid \<mapsto> p\<lparr>p_msgSubs := (p_msgSubs p)(k \<mapsto> ch)\<rparr>)\<rparr>)"
| node_process: "processNode_step X (pt_chain pt) (pt_node pt) ev NodeRunning w = (ph, w') \<Longrightarrow>
    node_step X pt (pp, w) (pp, w')"
| node_pubsub: "processPubSub X (pt_peers pt) (chain_handler X (pt_chain pt) uid) records w = (err, w') \<Longrightarrow>
    node_step X pt (pp, w) (pp, w')"

inductive_cases node_stepE: "node_step X pt (pp, w) (pp', w')"

section \<open>What a part leaves alone\<close>

text \<open>An assertion that the parts of a node keep while they send messages, look up peers and subscribe to them.\<close>

locale shared_state =
  fixes X :: "('e, 'x) externals_scheme" and P :: "('e, 'z) node_world_scheme \<Rightarrow> bool"
  assumes P_ext: "P w \<Longrightarrow> P (w\<lparr>ext := e\<rparr>)"
    and P_outbox: "P w \<Longrightarrow> P (w\<lparr>outboxCh := box\<rparr>)"
    and P_lookup: "keeps P (GetPeerWithPubKey X ps key)"
    and P_subscribe: "keeps P (SubscribeMessages pid)"
    and P_unsubscribe: "keeps P (UnsubscribeMessages pid k)"
    and P_observe: "keeps P (peer_update pid (\<lambda>q. q\<lparr>p_state := st\<rparr>))"
    and P_deliver: "keeps P (emitNextNodeMessage pid nm)"
    and P_receive: "P w \<Longrightarrow> peers w pid = Some p \<Longrightarrow> p_msgSubs p k = Some (msg # ch) \<Longrightarrow>
      P (w\<lparr>peers := (peers w)(pid \<mapsto> p\<lparr>p_msgSubs := (p_msgSubs p)(k \<mapsto> ch)\<rparr>)\<rparr>)"
begin

lemma keeps_send: "keeps P (SendMessage c n clock ctxDone t a r)"
  by (rule SendMessage_frame) (rule P_outbox)

lemma keeps_waitForVotes: "keeps P (waitForVotes X ps vs)"
proof (induction vs)
  case (Cons v vs)
  show ?case by (simp, intro conjI impI) (intro keeps_intros P_subscribe P_lookup Cons)+
qed (simp add: keeps_def)

lemma keeps_peersForValidators: "keeps P (peersForValidators X ps vs)"
proof (induction vs)
  case (Cons v vs)
  show ?case by (simp only: peersForValidators.simps) (intro keeps_intros P_lookup Cons)
qed (simp add: keeps_def)

lemma keeps_readGenesisState: "keeps P (readGenesisState X c ps)"
  unfolding readGenesisState_def Let_def by (intro keeps_intros keeps_peersForValidators)

lemma keeps_proposer_step:
  assumes "\<And>w s. P w \<Longrightarrow> P (w\<lparr>pr_state := s\<rparr>)"
  shows "keeps P (ManageProposer_step X c ps (SendMessage c n clock ctxDone) bp p ev ph)"
proof (cases "(X, c, ps, SendMessage c n clock ctxDone, bp, p, ev, ph)" rule: ManageProposer_step.cases)
  case (1 X' c' ps' send' bp' p' snap ts)
  have "keeps P (handleState X c ps (SendMessage c n clock ctxDone) bp p snap ts)"
    unfolding handleState_def recordProposal_def Proposer_writeState_def makeProposal_def startCollecting_def
      Proposer_makeVote_def Let_def
    by (intro keeps_intros keeps_waitForVotes keeps_send) (use assms P_ext in auto)
  with 1 show ?thesis by simp
next
  case (3 X' c' ps' send' bp' p' cv ref required votes)
  have "keeps P (collectVote X c (SendMessage c n clock ctxDone) ref required votes cv)"
    unfolding collectVote_def commitBlock_def Let_def by (intro keeps_intros keeps_send) (rule P_ext)
  with 3 show ?thesis by simp
qed (auto intro: keeps_intros)

lemma keeps_validator_step:
  assumes "\<And>w s. P w \<Longrightarrow> P (w\<lparr>va_state := s\<rparr>)"
  shows "keeps P (processStateSnapshot X c ps (SendMessage c n clock ctxDone) p now recv snap)"
  unfolding processStateSnapshot_def Validator_makeVote_def Validator_writeState_def
  by (intro keeps_intros awaitProposal_pure keeps_send P_lookup P_subscribe P_unsubscribe) (use assms P_ext in auto)

lemma keeps_firstVote: "keeps P (firstVote X c ref vw msgs)"
proof (induction msgs)
  case (Cons m ms)
  show ?case by (simp only: firstVote.simps Let_def) (intro keeps_intros Cons)
qed (simp add: keeps_def)

lemma keeps_waiter: "keeps P (waitForValidatorVote X c ref vw msgs)"
  unfolding waitForValidatorVote_def by (intro keeps_intros keeps_firstVote P_unsubscribe)

lemma keeps_process_step:
  assumes "\<And>w s. P w \<Longrightarrow> P (w\<lparr>n_state := s\<rparr>)"
  shows "keeps P (processNode_step X c n ev NodeRunning)"
proof -
  have send: "keeps P (pubsubSendMsg X c n ts msg)" for ts msg
    unfolding pubsubSendMsg_def Node_writeState_def Let_def by (intro keeps_intros) (use assms P_ext in auto)
  have "keeps P (case box of [] \<Rightarrow> gret () | msg # rest \<Rightarrow>
      gbind (gmodify (\<lambda>w. w\<lparr>outboxCh := rest\<rparr>)) (\<lambda>_. gbind (gtry (pubsubSendMsg X c n ts msg)) (\<lambda>_. gret ())))" for box ts
    by (cases box) (simp only: list.case; intro keeps_intros send P_outbox; assumption)+
  then have out: "keeps P (processNode_outbox X c n ts)" for ts
    unfolding processNode_outbox_def by (intro keeps_gbind keeps_gasks)
  show ?thesis by (cases ev) (auto intro!: keeps_intros out)
qed

lemma keeps_record:
  assumes handler: "\<And>r b. keeps P (h r b)"
  shows "keeps P (processPubSub_record X ps h now dat)"
  unfolding processPubSub_record_def ProcessNodePubsubMessage_def processIncomingPubsubMessage_def
    processIncomingNodeMessage_def Peer_writeState_def GetPeer_def Let_def
  by (intro keeps_intros P_observe P_deliver keeps_FollowBlockRef handler) (rule P_ext)

lemma keeps_pubsub:
  assumes handler: "\<And>r b. keeps P (h r b)"
  shows "keeps P (processPubSub X ps h records)"
proof (induction records)
  case (Cons r rs)
  have "keeps P (processPubSub_record X ps h now dat)" for now dat by (rule keeps_record) (rule handler)
  note each = this
  show ?case
  proof (cases r)
    case (Inl err)
    then show ?thesis by (simp only: processPubSub.simps) (rule keeps_gret)
  next
    case (Inr x)
    obtain now dat where "x = (now, dat)" by (cases x)
    with Inr show ?thesis by (simp only: processPubSub.simps) (intro keeps_gbind each Cons)
  qed
qed (simp add: keeps_def)

lemma keeps_node_step:
  assumes step: "node_step X pt (pp, w) (pp', w')" and P: "P w"
    and chain: "\<And>w w'. chain_step X (pt_chain pt) w w' \<Longrightarrow> P w \<Longrightarrow> P w'"
    and proposer: "\<And>clock ctxDone ev pp. keeps P (ManageProposer_step X (pt_chain pt) (pt_peers pt)
      (SendMessage (pt_chain pt) (pt_node pt) clock ctxDone) (pt_blockProposer pt) (pt_proposer pt) ev pp)"
    and validator: "\<And>clock ctxDone now recv snap. keeps P (processStateSnapshot X (pt_chain pt) (pt_peers pt)
      (SendMessage (pt_chain pt) (pt_node pt) clock ctxDone) (pt_validator pt) now recv snap)"
    and last: "\<And>w s. P w \<Longrightarrow> P (w\<lparr>n_state := s\<rparr>)"
  shows "P w'"
  using step
proof cases
  case node_chain
  then show ?thesis using chain P by blast
next
  case (node_proposer clock ctxDone ev)
  from keepsD [OF proposer node_proposer P] show ?thesis .
next
  case (node_validator clock ctxDone now recv snap res)
  from keepsD [OF validator this(2) P] show ?thesis .
next
  case (node_waiter ref vw msgs vt)
  from keepsD [OF keeps_waiter this(2) P] show ?thesis .
next
  case (node_receive pid p k msg ch)
  then show ?thesis using P_receive [OF P] by simp
next
  case (node_process ev ph)
  from keepsD [OF keeps_process_step this(2) P] last show ?thesis by blast
next
  case (node_pubsub uid records err)
  have "keeps P (chain_handler X (pt_chain pt) uid r b)" for r b
    by (rule keepsI) (auto simp: chain_handler_def intro: chain [OF step_commit [OF prod.collapse [symmetric]]])
  then show ?thesis using keepsD [OF keeps_pubsub node_pubsub(2) P] by blast
qed

end

lemma peer_free_shared:
  assumes "\<And>w e. P w \<Longrightarrow> P (w\<lparr>ext := e\<rparr>)" "\<And>w box. P w \<Longrightarrow> P (w\<lparr>outboxCh := box\<rparr>)"
    and peers: "\<And>w p. P w \<Longrightarrow> P (w\<lparr>peers := p\<rparr>)"
  shows "shared_state X P"
proof
  show "keeps P (GetPeerWithPubKey X ps key)" for ps key
    unfolding GetPeerWithPubKey_def GetPeer_def NewPeer_def Peer_readState_def Let_def
    by (intro keeps_intros peers)
  show "keeps P (SubscribeMessages pid)" for pid
    by (rule keepsI) (simp add: SubscribeMessages_def Let_def peers split: option.split)
qed (use assms in \<open>auto simp: UnsubscribeMessages_def emitNextNodeMessage_def intro!: keeps_peer_update\<close>)

section \<open>What the chain leaves alone\<close>

text \<open>The operations of the chain do not touch the part of the state that belongs to the rest of the node.\<close>

abbreviation chain_rest :: "('e, 'z) chain_world_scheme \<Rightarrow> 'z" where
  "chain_rest \<equiv> chain_world.more"

lemma chain_rest_free: "seg_free (\<lambda>w. chain_rest w = m)"
  by (simp add: seg_free_def)

lemmas seg_keeps_rest = seg_free_rules [OF chain_rest_free]

lemma trigger_keeps_rest: "keeps (\<lambda>w. chain_rest w = m) triggerStateRecheck"
  unfolding triggerStateRecheck_def by (intro keeps_intros) simp

lemma writeState_keeps_rest: "keeps (\<lambda>w. chain_rest w = m) (Chain_writeState X c)"
  unfolding Chain_writeState_def by (intro keeps_intros trigger_keeps_rest) simp

lemma setHeadBlock_keeps_rest: "keeps (\<lambda>w. chain_rest w = m) (setHeadBlock X c b)"
  unfolding setHeadBlock_def by (intro keeps_intros writeState_keeps_rest) simp_all

lemma emit_keeps_rest: "keeps (\<lambda>w. chain_rest w = m) (emitNextChainState snap)"
  unfolding emitNextChainState_def nextStateSnapshotCtx_def Let_def by (intro keeps_intros) (simp_all split: option.split)

lemma compute_keeps_rest: "keeps (\<lambda>w. chain_rest w = m) (computeEmitSnapshot X c t t2)"
  unfolding computeEmitSnapshot_def computeRound_def emitRound_def Let_def by (intro keeps_intros emit_keeps_rest) simp_all

lemma manageStateOnce_keeps_rest: "keeps (\<lambda>w. chain_rest w = m) (manageStateOnce X c t t2)"
  unfolding manageStateOnce_def stateSegment_def adoptHead_def
  by (rule keeps_intros seg_keeps_rest setHeadBlock_keeps_rest compute_keeps_rest writeState_keeps_rest | simp)+

lemma HandleBlockCommit_keeps_rest: "keeps (\<lambda>w. chain_rest w = m) (HandleBlockCommit X c uid r)"
  unfolding HandleBlockCommit_def Let_def
  by (intro keeps_gbind keeps_GetBlock keeps_if keeps_gret seg_keeps_rest trigger_keeps_rest)

lemma rewind_keeps_rest: "keeps (\<lambda>w. chain_rest w = m) (manageSegmentRewindOnce X c)"
proof -
  have "keeps (\<lambda>w. chain_rest w = m) (HandleSegmentUpdated X c seg)" for seg
    unfolding HandleSegmentUpdated_def markAsHead_def Let_def
    by (intro keeps_intros seg_keeps_rest setHeadBlock_keeps_rest)
  then show ?thesis unfolding manageSegmentRewindOnce_def by (intro seg_keeps_rest)
qed

lemma chain_step_rest: "chain_step X c w w' \<Longrightarrow> chain_rest w' = chain_rest w"
proof (erule chain_stepE)
  fix k res assume "SubscribeState_begin k w = (res, w')"
  then show "chain_rest w' = chain_rest w" by (auto simp: SubscribeState_begin_def gbind_def Let_def)
next
  fix k sub assume "SubscribeState_store k w = (sub, w')"
  then show "chain_rest w' = chain_rest w" by (auto simp: SubscribeState_store_def gbind_def split: option.splits)
next
  fix k res assume "UnsubscribeState k w = (res, w')"
  then show "chain_rest w' = chain_rest w" by (auto simp: UnsubscribeState_def)
next
  fix k snap assume "ReceiveState k w = (snap, w')"
  then show "chain_rest w' = chain_rest w" by (auto simp: ReceiveState_def split: option.splits list.splits)
qed (auto dest: keepsD [OF HandleBlockCommit_keeps_rest] keepsD [OF manageStateOnce_keeps_rest] keepsD [OF rewind_keeps_rest])

lemma chain_step_parts:
  fixes w w' :: "('e, 'z) node_world_scheme"
  assumes "chain_step X c w w'"
  shows "peers w' = peers w" "pr_state w' = pr_state w" "va_state w' = va_state w" "n_state w' = n_state w"
    "outboxCh w' = outboxCh w"
  using chain_step_rest [OF assms] by (cases w, cases w', simp)+

section \<open>What the node keeps\<close>

text \<open>The peers of a node: stored under their own identifiers, with at most five messages waiting for any
  subscriber.\<close>

definition peers_ok :: "('e, 'x) externals_scheme \<Rightarrow> ('e, 'z) peer_world_scheme \<Rightarrow> bool" where
  "peers_ok X w \<longleftrightarrow> peers_inv X w \<and>
     (\<forall>pid p k ch. peers w pid = Some p \<longrightarrow> p_msgSubs p k = Some ch \<longrightarrow> length ch \<le> 5)"

lemma peers_ok_frame:
  fixes w :: "('e, 'z) node_world_scheme"
  assumes "peers w' = peers w"
  shows "peers_ok X w' = peers_ok X w"
  using assms by (simp add: peers_ok_def peers_inv_def)

lemma peers_ok_update:
  assumes "peers_ok X w" "\<And>p. peers w pid = Some p \<Longrightarrow> p_peerID (f p) = p_peerID p \<and> p_pubKey (f p) = p_pubKey p \<and>
      (\<forall>k ch. p_msgSubs (f p) k = Some ch \<longrightarrow> length ch \<le> 5)"
  shows "peers_ok X (w\<lparr>peers := (peers w)(pid := map_option f (peers w pid))\<rparr>)"
  using assms unfolding peers_ok_def peers_inv_def
  by (auto split: if_splits; metis)

interpretation kept_chain: shared_state X chain_inv for X
  by (rule peer_free_shared) (simp_all add: chain_inv_def queue_inv_def object_inv_defs)


interpretation kept_proposal: shared_state X "\<lambda>w. proposal_le st (pr_state w)" for X st
  by (rule peer_free_shared) simp_all

interpretation kept_vote: shared_state X "\<lambda>w. vote_le st (va_state w)" for X st
  by (rule peer_free_shared) simp_all

lemma peers_ok_shared:
  fixes X :: "('e, 'x) externals_scheme"
  shows "shared_state X (peers_ok X :: ('e, 'z) node_world_scheme \<Rightarrow> bool)"
proof
  let ?P = "peers_ok X :: ('e, 'z) node_world_scheme \<Rightarrow> bool"
  fix w :: "('e, 'z) node_world_scheme" and e box ps key pid k st nm p msg ch
  show "peers_ok X w \<Longrightarrow> peers_ok X (w\<lparr>ext := e\<rparr>)" "peers_ok X w \<Longrightarrow> peers_ok X (w\<lparr>outboxCh := box\<rparr>)"
    by (simp_all add: peers_ok_def peers_inv_def)
  show "keeps ?P (GetPeerWithPubKey X ps key)"
  proof (rule keepsI)
    fix w :: "('e, 'z) node_world_scheme" assume ok: "peers_ok X w"
    show "peers_ok X (snd (GetPeerWithPubKey X ps key w))"
      using ok
      by (auto simp: GetPeerWithPubKey_def GetPeer_def NewPeer_def Peer_readState_def Let_def gbind_def read_slot_eq
          peers_ok_def peers_inv_def split: option.split res.split prod.split)
  qed
  show "keeps ?P (SubscribeMessages pid)"
    by (rule keepsI) (auto simp: SubscribeMessages_def Let_def peers_ok_def peers_inv_def split: option.split if_splits)
  show "keeps ?P (UnsubscribeMessages pid k)" "keeps ?P (peer_update pid (\<lambda>q. q\<lparr>p_state := st\<rparr>))"
    "keeps ?P (emitNextNodeMessage pid nm)"
    unfolding UnsubscribeMessages_def emitNextNodeMessage_def
    by (intro keeps_peer_update peers_ok_update; auto simp: peers_ok_def enqueue_message_bound split: if_splits)+
  show "peers_ok X w \<Longrightarrow> peers w pid = Some p \<Longrightarrow> p_msgSubs p k = Some (msg # ch) \<Longrightarrow>
      peers_ok X (w\<lparr>peers := (peers w)(pid \<mapsto> p\<lparr>p_msgSubs := (p_msgSubs p)(k \<mapsto> ch)\<rparr>)\<rparr>)"
    by (auto simp: peers_ok_def peers_inv_def split: if_splits) fastforce
qed

interpretation kept_peers: shared_state X "peers_ok X" for X
  by (rule peers_ok_shared)

lemma known_shared:
  fixes X :: "('e, 'x) externals_scheme"
  shows "shared_state X (\<lambda>w :: ('e, 'z) node_world_scheme. D \<subseteq> dom (peers w))"
proof
  let ?P = "\<lambda>w :: ('e, 'z) node_world_scheme. D \<subseteq> dom (peers w)"
  show "keeps ?P (GetPeerWithPubKey X ps key)" for ps key
    unfolding GetPeerWithPubKey_def GetPeer_def NewPeer_def Peer_readState_def Let_def by (intro keeps_intros) auto
  show "keeps ?P (SubscribeMessages pid)" for pid
    by (rule keepsI) (auto simp: SubscribeMessages_def Let_def split: option.split)
  show "keeps ?P (UnsubscribeMessages pid k)" "keeps ?P (peer_update pid (\<lambda>q. q\<lparr>p_state := st\<rparr>))"
    "keeps ?P (emitNextNodeMessage pid nm)" for pid k st nm
    unfolding UnsubscribeMessages_def emitNextNodeMessage_def by (intro keeps_peer_update; auto)+
qed auto

interpretation kept_known: shared_state X "\<lambda>w. D \<subseteq> dom (peers w)" for X D
  by (rule known_shared)

text \<open>What holds of a started node, and what a step keeps of it.\<close>

definition node_inv :: "('e, 'x) externals_scheme \<Rightarrow> ('e, 'z) node_world_scheme \<Rightarrow> bool" where
  "node_inv X w \<longleftrightarrow> chain_inv w \<and> peers_ok X w"

lemma chain_step_inv: "chain_step X c w w' \<Longrightarrow> chain_inv w \<Longrightarrow> chain_inv w'"
  using chain_step_queue chain_step_object by (auto simp: chain_inv_def)

lemma node_step_inv:
  fixes w w' :: "('e, 'z) node_world_scheme"
  assumes step: "node_step X pt (pp, w) (pp', w')" and inv: "node_inv X w"
  shows "node_inv X w'"
proof -
  have frames: "chain_inv (u\<lparr>pr_state := s\<rparr>) = chain_inv u" "chain_inv (u\<lparr>va_state := t\<rparr>) = chain_inv u"
    "chain_inv (u\<lparr>n_state := n\<rparr>) = chain_inv u" "peers_ok X (u\<lparr>pr_state := s\<rparr>) = peers_ok X u"
    "peers_ok X (u\<lparr>va_state := t\<rparr>) = peers_ok X u" "peers_ok X (u\<lparr>n_state := n\<rparr>) = peers_ok X u"
    for u :: "('e, 'z) node_world_scheme" and s t n
    by (simp_all add: chain_inv_def queue_inv_def object_inv_defs peers_ok_def peers_inv_def)
  have chain: "chain_inv w" and ok: "peers_ok X w" using inv by (simp_all add: node_inv_def)
  have "chain_inv w'"
    using step chain
    by (rule kept_chain.keeps_node_step)
       (simp_all add: frames chain_step_inv kept_chain.keeps_proposer_step kept_chain.keeps_validator_step)
  moreover have "peers_ok X w'"
    using step ok
    by (rule kept_peers.keeps_node_step)
       (simp_all add: frames peers_ok_frame [OF chain_step_parts(1)] kept_peers.keeps_proposer_step
         kept_peers.keeps_validator_step)
  ultimately show ?thesis by (simp add: node_inv_def)
qed

lemma node_step_known:
  fixes w w' :: "('e, 'z) node_world_scheme"
  assumes "node_step X pt (pp, w) (pp', w')"
  shows "dom (peers w) \<subseteq> dom (peers w')"
  using assms
  by (rule kept_known.keeps_node_step)
     (simp_all add: chain_step_parts kept_known.keeps_proposer_step kept_known.keeps_validator_step)


lemma node_step_proposal:
  fixes w w' :: "('e, 'z) node_world_scheme"
  assumes "node_step X pt (pp, w) (pp', w')"
  shows "proposal_le (pr_state w) (pr_state w')"
  using assms
proof (rule kept_proposal.keeps_node_step)
  fix clock ctxDone ev pp
  show "keeps (\<lambda>u. proposal_le (pr_state w) (pr_state u)) (ManageProposer_step X (pt_chain pt) (pt_peers pt)
      (SendMessage (pt_chain pt) (pt_node pt) clock ctxDone) (pt_blockProposer pt) (pt_proposer pt) ev pp)"
    by (rule keepsI) (erule proposal_le_trans, rule node_sender.step_le [OF prod.collapse [symmetric]])
qed (simp_all add: proposal_le_refl kept_proposal.keeps_validator_step chain_step_parts)

lemma node_step_vote:
  fixes w w' :: "('e, 'z) node_world_scheme"
  assumes "node_step X pt (pp, w) (pp', w')"
  shows "vote_le (va_state w) (va_state w')"
  using assms
proof (rule kept_vote.keeps_node_step)
  fix clock ctxDone now recv snap
  show "keeps (\<lambda>u. vote_le (va_state w) (va_state u)) (processStateSnapshot X (pt_chain pt) (pt_peers pt)
      (SendMessage (pt_chain pt) (pt_node pt) clock ctxDone) (pt_validator pt) now recv snap)"
    by (rule keepsI) (erule vote_le_trans, rule node_vote_sender.snapshot_le [OF prod.collapse [symmetric]])
qed (simp_all add: vote_le_refl kept_vote.keeps_proposer_step chain_step_parts)

section \<open>Runs of a node\<close>

text \<open>What every step keeps or only moves forward is kept, and only moved forward, by a run.\<close>

lemma node_run_rel:
  assumes run: "(node_step X pt)\<^sup>*\<^sup>* (pp, w) (pp', w')"
    and "\<And>u. R u u" "\<And>u v x. R u v \<Longrightarrow> R v x \<Longrightarrow> R u x"
    and "\<And>pp u pp' v. node_step X pt (pp, u) (pp', v) \<Longrightarrow> R u v"
  shows "R w w'"
  using run by (induction "(pp', w')" arbitrary: pp' w') (use assms(2-) in auto)

lemma node_run_proposal:
  "(node_step X pt)\<^sup>*\<^sup>* (pp, w) (pp', w') \<Longrightarrow> proposal_le (pr_state w) (pr_state w')"
  by (erule node_run_rel) (rule proposal_le_refl, erule (1) proposal_le_trans, erule node_step_proposal)

lemma node_run_vote: "(node_step X pt)\<^sup>*\<^sup>* (pp, w) (pp', w') \<Longrightarrow> vote_le (va_state w) (va_state w')"
  by (erule node_run_rel) (rule vote_le_refl, erule (1) vote_le_trans, erule node_step_vote)

lemma node_run_known: "(node_step X pt)\<^sup>*\<^sup>* (pp, w) (pp', w') \<Longrightarrow> dom (peers w) \<subseteq> dom (peers w')"
  by (erule node_run_rel) (rule order_refl, erule (1) order_trans, erule node_step_known)

lemma node_run_inv: "(node_step X pt)\<^sup>*\<^sup>* (pp, w) (pp', w') \<Longrightarrow> node_inv X w \<longrightarrow> node_inv X w'"
  by (erule node_run_rel) (auto intro: node_step_inv)


text \<open>A started node satisfies the invariant and has a peer for itself.\<close>

lemma NewNode_keeps_chain: "keeps chain_inv (NewNode X dbm hasObjStore c k sub)"
  unfolding NewNode_def NewProposer_def Proposer_readState_def Proposer_writeState_def NewValidator_def
    Validator_readState_def Validator_writeState_def Node_readState_def Let_def
  by (intro keeps_intros kept_chain.P_lookup kept_chain.keeps_readGenesisState)
     (simp_all add: chain_inv_def queue_inv_def object_inv_defs)

lemma NewNode_peers:
  assumes "NewNode X dbm hasObjStore c k sub w = (Ok (n, ps, pr, va), w')"
  shows "peers_ok X w' \<and> fst (id_from_pub X (priv_public X k)) \<in> dom (peers w')"
proof -
  let ?w = "w\<lparr>peers := Map.empty, n_state := \<lparr>ns_LastMsgRef = None\<rparr>, outboxCh := []\<rparr>"
  from assms obtain w1 w2 own w3 w4 where
    start: "gbind (NewProposer X k dbm hasObjStore) (\<lambda>_. NewValidator X k dbm hasObjStore) ?w = (Ok va, w2)"
    and own: "GetPeerWithPubKey X ps (priv_public X k) w2 = (Ok own, w3)"
    and st: "Node_readState X n w3 = (Ok (), w4)"
    and gen: "readGenesisState X c ps w4 = (Ok (), w')"
    by (auto simp: NewNode_def Let_def gbind_Ok_iff)
  have "keeps (peers_ok X) (gbind (NewProposer X k dbm hasObjStore) (\<lambda>_. NewValidator X k dbm hasObjStore))"
    unfolding NewProposer_def Proposer_readState_def Proposer_writeState_def NewValidator_def
      Validator_readState_def Validator_writeState_def Let_def
    by (intro keeps_intros) (simp_all add: peers_ok_def peers_inv_def)
  from keepsD [OF this start] have w2: "peers_ok X w2" by (simp add: peers_ok_def peers_inv_def)
  then have "peers_inv X w2" by (simp add: peers_ok_def)
  with GetPeerWithPubKey_outcome [OF own] have known: "{fst (id_from_pub X (priv_public X k))} \<subseteq> dom (peers w3)" by auto
  have "peers w4 = peers w3" using st by (auto simp: Node_readState_def gbind_Ok_iff read_slot_eq)
  with known keepsD [OF kept_peers.P_lookup own w2] have
    "{fst (id_from_pub X (priv_public X k))} \<subseteq> dom (peers w4)" "peers_ok X w4"
    by (simp_all add: peers_ok_def peers_inv_def)
  from keepsD [OF kept_known.keeps_readGenesisState gen this(1)] keepsD [OF kept_peers.keeps_readGenesisState gen this(2)]
  show ?thesis by simp
qed

section \<open>What holds of a node at work\<close>

text \<open>C1: a node never proposes twice. Once the proposer has taken up a round, whatever the chain, the
  validator, the goroutines waiting for votes, the peers and the proposer itself do afterwards, in any order, a
  snapshot of the same round, or of an earlier one, leaves everything as it is: no second header is stored, no
  vote is sent.\<close>

theorem node_never_proposes_twice:
  assumes "shouldPropose (pt_proposer pt) (pr_state w) s1"
    and "ManageProposer_step X (pt_chain pt) (pt_peers pt) (SendMessage (pt_chain pt) (pt_node pt) clock ctxDone)
      (pt_blockProposer pt) (pt_proposer pt) (StateArrived s1 t1) Idle w = (Ok pp1, w1)"
    and "(node_step X pt)\<^sup>*\<^sup>* (pp1, w1) (pp2, w2)"
    and "\<not> round_lt (Some (sn_BlockRoundInfo s1)) (sn_BlockRoundInfo s2)"
  shows "ManageProposer_step X (pt_chain pt) (pt_peers pt) (SendMessage (pt_chain pt) (pt_node pt) clock2 ctxDone2)
      (pt_blockProposer pt) (pt_proposer pt) (StateArrived s2 t2) pp2 w2 = (Ok pp2, w2)"
proof -
  have "ps_LastProposal (pr_state w1) = Some (sn_BlockRoundInfo s1)"
    using node_sender.handleState_after [OF assms(2) [unfolded ManageProposer_step.simps]] assms(1) by simp
  with node_run_proposal [OF assms(3)] assms(4) have "\<not> shouldPropose (pt_proposer pt) (pr_state w2) s2"
    by (auto simp: proposal_le_def shouldPropose_iff)
  then show ?thesis by (cases pp2) (simp_all add: handleState_def recordProposal_def gbind_def)
qed

text \<open>C2: a validator never votes twice. Once it has taken up a round, whatever the other parts of the node
  and the validator itself do afterwards, in any order, a snapshot of that round, of an earlier round or of an
  earlier height changes nothing and sends nothing.\<close>

theorem node_never_votes_twice:
  assumes "shouldVote (va_state w) t1 s1"
    and "processStateSnapshot X (pt_chain pt) (pt_peers pt) (SendMessage (pt_chain pt) (pt_node pt) clock ctxDone)
      (pt_validator pt) t1 m1 s1 w = (r1, w1)"
    and "(node_step X pt)\<^sup>*\<^sup>* (pp1, w1) (pp2, w2)"
    and "\<not> (Height (sn_BlockRoundInfo s1) \<le> Height (sn_BlockRoundInfo s2) \<and>
      Round (sn_BlockRoundInfo s1) < Round (sn_BlockRoundInfo s2))"
  shows "processStateSnapshot X (pt_chain pt) (pt_peers pt) (SendMessage (pt_chain pt) (pt_node pt) clock2 ctxDone2)
      (pt_validator pt) t2 m2 s2 w2 = (Ok (), w2)"
proof -
  have "va_state w1 = \<lparr>vs_LastVote = Some (sn_BlockRoundInfo s1)\<rparr>"
    using node_vote_sender.snapshot_after [OF assms(2)] assms(1) by simp
  with assms(4) have "\<not> shouldVote (va_state w1) t2 s2" by (auto simp: shouldVote_iff)
  with node_run_vote [OF assms(3)] have later: "\<not> shouldVote (va_state w2) t2 s2" by (auto simp: vote_le_def)
  obtain r w3 where second: "processStateSnapshot X (pt_chain pt) (pt_peers pt)
      (SendMessage (pt_chain pt) (pt_node pt) clock2 ctxDone2) (pt_validator pt) t2 m2 s2 w2 = (r, w3)" by force
  from node_vote_sender.snapshot_after [OF this] later have "(r, w3) = (Ok (), w2)" by simp
  with second show ?thesis by simp
qed

text \<open>C5: in every state of a node that was started on a chain, whatever its parts have done since, in any
  order of the steps of \<open>node_step\<close>, in which the handling of one event runs to its end before the next begins, except that a
  subscription to the chain's state may have anything between its reading of the last snapshot and the storing
  of its channel: the rewind queue holds each segment at most once and only segments of the store; what a subscriber has
  waiting is at most one snapshot, and it is the latest or one whose context is cancelled; every snapshot context but the
  latest one's is cancelled, each exactly once; the head block, its reference and its digest agree; every peer is stored under
  its own identifier with at most five messages waiting for any subscriber; no peer that was known at the start
  is forgotten, and the node itself is one of them.\<close>

theorem node_invariant:
  assumes "chain_reachable X (pt_chain pt) w0"
    and "NewNode X dbm hasObjStore (pt_chain pt) privKey subscribed w0 =
      (Ok (pt_node pt, pt_peers pt, pt_proposer pt, pt_validator pt), w1)"
    and "(node_step X pt)\<^sup>*\<^sup>* (Idle, w1) (pp, w)"
  shows "distinct (pq (segmentQueue w)) \<and> set (pq (segmentQueue w)) \<subseteq> dom (segmentMap w) \<and>
    (\<forall>k ch. stateSubs w k = Some ch \<longrightarrow> ch = [] \<or>
       (\<exists>s. ch = [s] \<and> (lastStateSnapshot w = Some s \<or> sn_Context s \<in> set (canceledCtxs w)))) \<and>
    (\<forall>s. lastStateSnapshot w = Some s \<longrightarrow> canceledCtxs w = rev [0..<sn_Context s]) \<and>
    (\<forall>b. lastBlock w = Some b \<longrightarrow>
       lastBlockRef w = b_blkRef b \<and> lastHeadDigest w = GetObjectDigest (b_blkRef b)) \<and>
    (\<forall>pid p. peers w pid = Some p \<longrightarrow> p_peerID p = pid \<and> fst (id_from_pub X (p_pubKey p)) = pid \<and>
       (\<forall>k ch. p_msgSubs p k = Some ch \<longrightarrow> length ch \<le> 5)) \<and>
    dom (peers w1) \<subseteq> dom (peers w) \<and> fst (id_from_pub X (priv_public X privKey)) \<in> dom (peers w)"
proof -
  have "chain_inv w1" using keepsD [OF NewNode_keeps_chain assms(2)] chain_reachable_inv [OF assms(1)] by simp
  moreover from NewNode_peers [OF assms(2)] have
    start: "peers_ok X w1" "fst (id_from_pub X (priv_public X privKey)) \<in> dom (peers w1)" by simp_all
  ultimately have inv: "chain_inv w" "peers_ok X w"
    using node_run_inv [OF assms(3)] by (simp_all add: node_inv_def)
  have chain: "distinct (pq (segmentQueue w)) \<and> set (pq (segmentQueue w)) \<subseteq> dom (segmentMap w) \<and>
    (\<forall>k ch. stateSubs w k = Some ch \<longrightarrow> ch = [] \<or>
       (\<exists>s. ch = [s] \<and> (lastStateSnapshot w = Some s \<or> sn_Context s \<in> set (canceledCtxs w)))) \<and>
    (\<forall>s. lastStateSnapshot w = Some s \<longrightarrow> canceledCtxs w = rev [0..<sn_Context s]) \<and>
    (\<forall>b. lastBlock w = Some b \<longrightarrow>
       lastBlockRef w = b_blkRef b \<and> lastHeadDigest w = GetObjectDigest (b_blkRef b))"
    by (rule chain_inv_facts) (rule inv)
  with node_run_known [OF assms(3)] start(2) inv(2) show ?thesis
    by (simp add: peers_ok_def peers_inv_def) blast
qed


end
