(* ===== verification/NodeRunWitnesses.thy ===== *)
theory NodeRunWitnesses
  imports NodeRun NodeWitnesses Witnesses
begin

text \<open>
  Witnesses for the properties of a whole node: the node of \<open>NodeWitnesses\<close> while its chain takes on a subscriber
  and its proposer gives up on a round, and a node that is started on a chain loaded from its configuration.
\<close>

definition demo_parts :: "demo_env parts" where
  "demo_parts = \<lparr>pt_chain = demo_chain, pt_node = demo_node, pt_peers = demo_store, pt_proposer = demo_proposer,
     pt_validator = demo_validator_actor, pt_blockProposer = demo_bp\<rparr>"

lemma demo_parts_fields [simp]:
  "pt_chain demo_parts = demo_chain" "pt_node demo_parts = demo_node" "pt_peers demo_parts = demo_store"
  "pt_proposer demo_parts = demo_proposer" "pt_validator demo_parts = demo_validator_actor"
  "pt_blockProposer demo_parts = demo_bp"
  by (simp_all add: demo_parts_def)

text \<open>The chain takes on a subscriber, then the round ends while the proposer collects votes.\<close>

definition subscribed :: "demo_env node_world \<Rightarrow> demo_env node_world" where
  "subscribed w = snd (SubscribeState_store 7 (snd (SubscribeState_begin 7 w)))"

lemma subscribe_run: "(node_step X pt)\<^sup>*\<^sup>* (pp, w) (pp, subscribed w)"
proof -
  have "node_step X pt (pp, w) (pp, snd (SubscribeState_begin 7 w))"
    by (intro node_chain step_subscribe) (rule pair_run)
  moreover have "node_step X pt (pp, snd (SubscribeState_begin 7 w)) (pp, subscribed w)"
    unfolding subscribed_def by (intro node_chain step_subscribed) (rule pair_run)
  ultimately show ?thesis by (meson converse_rtranclp_into_rtranclp r_into_rtranclp)
qed

lemma give_up_step: "node_step X pt (Collecting ref n votes, w) (Idle, w)"
  by (rule node_proposer [where ev = StateCtxDone]) simp

lemma demo_run: "(node_step demo_Y demo_parts)\<^sup>*\<^sup>* (fst demo_ph, snd demo_ph) (Idle, subscribed (snd demo_ph))"
proof -
  have "fst demo_ph = Collecting (demo_ref 123) 6 []" by (simp add: demo_ph_def)
  then show ?thesis
    by (metis subscribe_run give_up_step converse_rtranclp_into_rtranclp)
qed

theorem node_never_proposes_twice_witness:
  "ManageProposer_step demo_Y demo_chain demo_store demo_send demo_bp demo_proposer
     (StateArrived (demo_snap [0] 1 0) \<lparr>TimeUnixMs = 3000\<rparr>) Idle (subscribed (snd demo_ph)) =
   (Ok Idle, subscribed (snd demo_ph))"
proof -
  have "ManageProposer_step demo_Y (pt_chain demo_parts) (pt_peers demo_parts)
      (SendMessage (pt_chain demo_parts) (pt_node demo_parts) (\<lambda>w. \<lparr>TimeUnixMs = 6000\<rparr>) (\<lambda>w. None))
      (pt_blockProposer demo_parts) (pt_proposer demo_parts) (StateArrived (demo_snap [0] 1 0) \<lparr>TimeUnixMs = 2000\<rparr>)
      Idle demo_nw = (Ok (fst demo_ph), snd demo_ph)"
    using demo_handle by simp
  moreover have "shouldPropose (pt_proposer demo_parts) (pr_state demo_nw) (demo_snap [0] 1 0)"
    using demo_should_propose by simp
  moreover have "\<not> round_lt (Some (sn_BlockRoundInfo (demo_snap [0] 1 0))) (sn_BlockRoundInfo (demo_snap [0] 1 0))"
    by (simp add: round_lt_def)
  ultimately show ?thesis
    using node_never_proposes_twice [OF _ _ demo_run] by fastforce
qed

theorem node_never_votes_twice_witness:
  "demo_process (subscribed (snd (demo_process demo_nw))) = (Ok (), subscribed (snd (demo_process demo_nw)))"
proof -
  have "shouldVote (va_state demo_nw) (5 * second) (demo_snap [0] 1 0)" by code_simp
  moreover have "processStateSnapshot demo_Y (pt_chain demo_parts) (pt_peers demo_parts)
      (SendMessage (pt_chain demo_parts) (pt_node demo_parts) (\<lambda>w. \<lparr>TimeUnixMs = 6000\<rparr>) (\<lambda>w. None))
      (pt_validator demo_parts) (5 * second) (\<lambda>_ _. []) (demo_snap [0] 1 0) demo_nw =
    (fst (demo_process demo_nw), snd (demo_process demo_nw))" by simp
  moreover have "(node_step demo_Y demo_parts)\<^sup>*\<^sup>* (Idle, snd (demo_process demo_nw))
      (Idle, subscribed (snd (demo_process demo_nw)))"
    by (rule subscribe_run)
  moreover have "\<not> (Height (sn_BlockRoundInfo (demo_snap [0] 1 0)) \<le> Height (sn_BlockRoundInfo (demo_snap [0] 1 0)) \<and>
      Round (sn_BlockRoundInfo (demo_snap [0] 1 0)) < Round (sn_BlockRoundInfo (demo_snap [0] 1 0)))" by simp
  ultimately have "processStateSnapshot demo_Y (pt_chain demo_parts) (pt_peers demo_parts)
      (SendMessage (pt_chain demo_parts) (pt_node demo_parts) (\<lambda>w. \<lparr>TimeUnixMs = 6000\<rparr>) (\<lambda>w. None))
      (pt_validator demo_parts) (5 * second) (\<lambda>_ _. []) (demo_snap [0] 1 0) (subscribed (snd (demo_process demo_nw))) =
    (Ok (), subscribed (snd (demo_process demo_nw)))"
    by (rule node_never_votes_twice)
  then show ?thesis by simp
qed

text \<open>A node that is started on a chain loaded from its configuration.\<close>

lemma demo_started:
  obtains c w0 n ps pr va w1 where
    "FromConfig demo_Y (\<lambda>_. True) demo_registry [''/d''] demo_conf None demo_nw = (Ok c, w0)"
    "NewNode demo_Y [''/d''] True c (PrivKey 1) (Inr ()) w0 = (Ok (n, ps, pr, va), w1)"
proof -
  have "case fst (gbind (FromConfig demo_Y (\<lambda>_. True) demo_registry [''/d''] demo_conf None)
      (\<lambda>c. NewNode demo_Y [''/d''] True c (PrivKey 1) (Inr ())) demo_nw) of Ok _ \<Rightarrow> True | _ \<Rightarrow> False" by code_simp
  then obtain r w1 where "gbind (FromConfig demo_Y (\<lambda>_. True) demo_registry [''/d''] demo_conf None)
      (\<lambda>c. NewNode demo_Y [''/d''] True c (PrivKey 1) (Inr ())) demo_nw = (Ok r, w1)"
    by (metis (no_types, lifting) prod.collapse res.case(2,3) res.exhaust)
  then obtain c w0 where "FromConfig demo_Y (\<lambda>_. True) demo_registry [''/d''] demo_conf None demo_nw = (Ok c, w0)"
    "NewNode demo_Y [''/d''] True c (PrivKey 1) (Inr ()) w0 = (Ok r, w1)"
    unfolding gbind_Ok_iff by blast
  then show ?thesis using that by (metis prod_cases4)
qed

theorem node_invariant_witness:
  "\<exists>pt (w :: demo_env node_world). (\<exists>w1. (node_step demo_Y pt)\<^sup>*\<^sup>* (Idle, w1) (Idle, w)) \<and> 7 \<in> dom (stateSubs w) \<and>
     PeerID ''p'' \<in> dom (peers w) \<and> distinct (pq (segmentQueue w))"
proof -
  obtain c w0 n ps pr va w1 where
    load: "FromConfig demo_Y (\<lambda>_. True) demo_registry [''/d''] demo_conf None demo_nw = (Ok c, w0)" and
    start: "NewNode demo_Y [''/d''] True c (PrivKey 1) (Inr ()) w0 = (Ok (n, ps, pr, va), w1)"
    by (rule demo_started)
  let ?pt = "\<lparr>pt_chain = c, pt_node = n, pt_peers = ps, pt_proposer = pr, pt_validator = va, pt_blockProposer = demo_bp\<rparr>"
  have reach: "chain_reachable demo_Y (pt_chain ?pt) w0" using load by (auto intro: reach_init init_load)
  have run: "(node_step demo_Y ?pt)\<^sup>*\<^sup>* (Idle, w1) (Idle, subscribed w1)" by (rule subscribe_run)
  have "NewNode demo_Y [''/d''] True (pt_chain ?pt) (PrivKey 1) (Inr ()) w0 =
      (Ok (pt_node ?pt, pt_peers ?pt, pt_proposer ?pt, pt_validator ?pt), w1)" using start by (simp only: parts.simps)
  note inv = node_invariant [OF reach this run]
  have "distinct (pq (segmentQueue (subscribed w1)))" using inv by blast
  moreover have "fst (id_from_pub demo_Y (priv_public demo_Y (PrivKey 1))) = PeerID ''p''" by code_simp
  with inv have "PeerID ''p'' \<in> dom (peers (subscribed w1))" by metis
  moreover have "7 \<in> dom (stateSubs (subscribed w1))" by (simp add: subscribed_def SubscribeState_begin_def SubscribeState_store_def gbind_def Let_def)
  ultimately show ?thesis using run by blast
qed


end
