(* ===== verification/Spec2Isabelle.thy ===== *)
theory Spec2Isabelle
  imports Witnesses NodeWitnesses PoolWitnesses StartWitnesses SegWitnesses NodeRunWitnesses
begin

text \<open>
  \<^bold>\<open>A model of inca-go and its properties.\<close>

  \<^verbatim>\<open>inca-go\<close> is a proof-of-stake block chain. A node keeps a chain of blocks in an object store and its own
  state in a key-value database, and exchanges signed messages with other nodes over a publish-subscribe
  topic. Blocks that are linked to each other are collected in segments; a segment is rewound block by
  block until it meets a known segment, and takes over its status. The head of the valid segment
  determines the current height, the rounds that start at fixed times after the head block, and the
  validator that may propose in each round. The proposer stores a block header and a vote for it, waits
  for votes and commits a block; validators vote for the header the proposer announced; every node handles
  the commit by extending a segment.

  \<^bold>\<open>Parts and theories.\<close> Paths are below \<^verbatim>\<open>src/\<close>; each theory keeps the order of the code.

  \<^item> \<open>Prelude\<close>: results of Go functions (a value, an error, a panic), the state-passing type \<open>go\<close> with its
    combinators, the rules for state that a call keeps (\<open>keeps\<close>), generic lemmas.
  \<^item> \<open>GoLib\<close>: what the code uses of the language and its library: conversions to 32 and 64 bits,
    durations, base64, hexadecimal, buffered channels, the binary heap of \<^verbatim>\<open>container/heap\<close>.
  \<^item> \<open>Messages\<close>: the protobuf messages and enumerations. \<open>Externals\<close>: the services outside the repository
    (database, object store, encodings, keys, timestamps, proposer selection) as one record, the laws
    assumed of them, and the locale \<open>persisted\<close> of values saved to and read from a database key.
  \<^item> \<open>Encryption\<close> (\<^verbatim>\<open>encryption/\<close>): the convergent strategy and the registry of constructors.
  \<^item> \<open>Blocks\<close> (\<^verbatim>\<open>block/\<close>): loading and saving blocks and \<open>ValidateChild\<close>, against the rule \<open>child_ok\<close>.
    \<open>Validators\<close> (\<^verbatim>\<open>validators/\<close>): the built-in block validators.
  \<^item> \<open>SegQueue\<close> and \<open>Segments\<close> (\<^verbatim>\<open>segment/\<close>): the queue of segments to rewind, the segment store, appending
    blocks, rewinding, joining segments.
  \<^item> \<open>Chain\<close>, \<open>ChainInv\<close>, \<open>Commits\<close>, \<open>Rounds\<close> (\<^verbatim>\<open>chain/chain.go\<close>, \<^verbatim>\<open>chain/chain_state.go\<close>): creating and
    loading a chain, block commits, state checks, rounds and snapshots, subscriptions; the transition
    relation of all operations and the invariant of its reachable states; what a commit does; what a
    state check publishes.
  \<^item> \<open>SegLists\<close>, \<open>SegSteps\<close> and \<open>SegLife\<close>: the segments of a chain as lists of blocks, the operations of a running
    chain as operations on these lists, and the life of a chain from its creation over restarts.
    \<open>Rewinds\<close>: the rewind loop and why it comes to rest.
  \<^item> \<open>Peers\<close> (\<^verbatim>\<open>peer/\<close>): the peer store, the checks on incoming messages and their delivery.
  \<^item> \<open>Proposer\<close> (\<^verbatim>\<open>chain/proposer.go\<close>) and \<open>ValidatorActor\<close> (\<^verbatim>\<open>chain/validator.go\<close>): the two actors of a node.
  \<^item> \<open>Node\<close> (\<^verbatim>\<open>node/node.go\<close>): starting a node, its outbox and its incoming topic; the actors with the node's
    own \<open>SendMessage\<close>, and a message on its way from one node to another. \<open>NodeRun\<close>: a whole node at work, the
    chain, the actors, the topic and the loop of the process taking turns in any order (\<open>node_step\<close>).
  \<^item> \<open>Sha1\<close>, \<open>Transactions\<close>, \<open>TxVector\<close> (\<^verbatim>\<open>utils/transaction/transaction.go\<close>, \<^verbatim>\<open>utils/transaction/txdb\<close>,
    \<^verbatim>\<open>utils/dbcontainer\<close>): transactions, their identifiers, the transaction database, saved containers.
  \<^item> \<open>Mempool\<close> (\<^verbatim>\<open>utils/transaction/mempool\<close>): the pool and the three stages that build a block from it.
  \<^item> \<open>Apps\<close> (\<^verbatim>\<open>utils/transaction/mock\<close>, \<^verbatim>\<open>examples/chat\<close>, \<^verbatim>\<open>examples/counter\<close>): the applications.
  \<^item> \<open>Startup\<close> (\<^verbatim>\<open>examples/common\<close>, \<^verbatim>\<open>examples/chat/main.go\<close>, \<^verbatim>\<open>examples/counter/main.go\<close>, \<^verbatim>\<open>shell\<close>,
    \<^verbatim>\<open>cmd/inca\<close>): the programs that read or mint their configuration and start a node, over a file system
    whose operations may fail.
  \<^item> \<open>Demo\<close> is a concrete environment in which the assumed laws hold; \<open>Witnesses\<close>, \<open>NodeWitnesses\<close>, \<open>PoolWitnesses\<close>,
    \<open>SegWitnesses\<close>, \<open>StartWitnesses\<close> and \<open>NodeRunWitnesses\<close> apply the properties to it.

  \<^bold>\<open>How the code is modelled.\<close> A method that changes state is a function of type \<open>go\<close>: it takes the world,
  a record that is extended from theory to theory (\<open>world\<close>, \<open>seg_world\<close>, \<open>chain_world\<close>, \<open>peer_world\<close> and so on), and returns a
  result together with the new world, also after an error, so that what a failing call leaves behind is
  part of the model. A struct that other code reaches through a pointer (a segment, a peer) lives in a
  map of the world under its identifier. Heights, rounds and counters are words of the width they have in
  the code; times and durations are integers of nanoseconds with the wrap-around written out where the
  code converts; the \<open>float32\<close> and \<open>float64\<close> roundings of the vote threshold and of the pool's priority are
  computed on integers. The clock, random keys and what a \<open>select\<close> statement receives are
  arguments: a goroutine is a step function over its events (\<open>ManageProposer_step\<close>,
  \<open>manageState_select\<close>, \<open>CollectTransactions_step\<close>, \<open>Resolver_step\<close>, \<open>TxLoop_step\<close>), and runs are lists of events of any length, so
  that statements over runs hold for every order of arrival. Operations of the chain
  that run under its lock are single transitions of \<open>chain_step\<close>, and the handling of one event by a goroutine of a
  node is a single transition of \<open>node_step\<close>. Loops are structural recursion over
  events, blocks or bytes; only the rewind loop takes a number of iterations as fuel (\<open>manageSegmentRewind_run\<close>), and
  \<open>rewind_loop_terminates\<close> says which number is enough.

  \<^bold>\<open>What is assumed.\<close> Properties that need them name the laws of the outside services: \<open>db_ok\<close> (what was set is
  what is read, other keys are kept), \<open>codec_ok\<close> (decoding inverts encoding), \<open>objects_ok\<close> (stored objects are not
  changed by the database), \<open>network_ok\<close> and \<open>keys_ok\<close> (a stored message can be read with the signer's key,
  keys and identifiers survive their encoding). The properties of segments as lists also assume \<open>writes_ok\<close>
  (the database accepts writes), \<open>stores_apart\<close> (storing an object does not change what the database holds) and
  \<open>content_addressed\<close> (references with one digest lead to one object); those of the programs \<open>platform_ok\<close> (the
  encodings of the configuration files) and \<open>readable\<close> (a path that can be read). \<open>Demo\<close> and the theories of
  witnesses show that they hold together.

  \<^bold>\<open>What is shown.\<close>

  \<^item> Consensus on one node: a proposer never proposes twice for a round and a validator never votes twice,
    whatever the parts of the node do in between, in any order; the round a proposer recorded survives a restart; its own proposals pass
    the child rule; a vote is for what the round's proposer announced. The locales \<open>quiet_sender\<close> and
    \<open>quiet_vote_sender\<close> state what the actors need of the function that sends messages, and \<open>Node\<close>
    interprets them with \<open>SendMessage\<close>.
  \<^item> The parts of a node together: a started node keeps the invariant of its chain and of its peers, and the verdict
    on a segment, over every order of the steps of its goroutines. The locale \<open>shared_state\<close> states what an
    assertion must satisfy to be kept by the parts that send, look up peers and subscribe, and \<open>NodeRun\<close> interprets it
    with the invariants of the chain and of the peers and with the order of proposals and of votes.
  \<^item> Blocks and segments: \<open>ValidateChild\<close> decides exactly the child rule; validated blocks have consecutive
    heights and ordered times; appending, rewinding and joining link blocks and segments as described;
    a commit takes effect once; the verdict on a segment is final; the invariant of the chain holds in
    every reachable state.
  \<^item> Segments as lists: every operation of a running chain refines a step on lists of blocks
    (\<open>segments_refine_lists\<close>); so, throughout the life of a chain, a segment in memory is the one in the
    database and is a list of distinct linked blocks that obey the child rule, and heights count them. The rewind
    loop comes to rest within a number of iterations that the heights of the queued tails bound.
  \<^item> Rounds: the round is the number of round lengths elapsed, it never decreases, and the published snapshot
    is the current one; once set, the timer of the state loop never sleeps past an instant of the snapshot.
  \<^item> Messages: subscribers receive only checked messages; what one node sends is delivered on another; the
    messages of a node are linked, across restarts.
  \<^item> Persistence: block states, the chain's head, proposals, the node's last message, transactions, containers
    and encryption strategies are read back as written. The locale \<open>persisted\<close> carries these proofs and is
    interpreted for each of the slots.
  \<^item> The pool: a proposed block refines the replay of a prefix of the delivered transactions; an abandoned proposal and
    the resolving stage return transactions to the pool; collecting stops at the maximum; the
    applications count what enters a block (locale \<open>counting_app\<close>); the identifier of the repository's
    test is reproduced.
    A transaction that reaches a block is well formed (\<open>tx_wf\<close>), in whatever order the stages run.
  \<^item> Programs: a second start has the identity of the first and writes nothing; the node started after
    \<^verbatim>\<open>init\<close> is the validator of the chain \<^verbatim>\<open>init\<close> minted; \<^verbatim>\<open>init\<close> never touches an existing chain; the parts of a
    program are built once.
  \<^item> Behaviour that a reader of the code may not expect is proved as it is: the order of the segment queue
    ignores heights, a rewind at the first block panics, votes are not added up and may name
    another header, a message dated in the future silences its peer, the proposer's ratios have no
    effect, a waiting collector is not woken, an error after the loop costs the block's transactions,
    an unknown transaction identifier panics, the first state check may leave the loop without a timer, the rewind loop of a chain that was just created
    panics, a restart forgets which segments are to be rewound, a segment that follows a block in the middle of
    another one may be joined after its head, an \<^verbatim>\<open>init\<close> that is interrupted loses the key
    of the chain's only validator, the chat proposes blocks of one message and has no validator.

  \<^bold>\<open>Not modelled.\<close> The registration of flags and commands and the wait for signals around a command
  (\<^verbatim>\<open>cmd/inca/main.go\<close>, \<^verbatim>\<open>cmd/inca/process.go\<close>, the \<open>main\<close> functions of the examples) only call libraries; \<^verbatim>\<open>logctx\<close>
  carries a logger; the \<^verbatim>\<open>.pb.go\<close> files are generated. Logging has no effect in the model, and races between
  goroutines that the code does not guard by a lock are not part of it. The ciphers, the Fibonacci heap, the
  object store, IPFS, the operating system and the proposer selection are libraries: arguments of the model.
\<close>

end
